(* ===== verification/Prelude.thy ===== *)
theory Prelude
  imports Main
begin

text \<open>
  Shared vocabulary of the development: the error type of the Go code, the loop shapes that
  several components share (a \<open>for\<close> loop that updates the first match, one that counts the
  successes and goes on after an error, one that returns the first error), and the interface
  \<open>keyed_upsert\<close> that the PATH entry of a container and the status conditions of a
  \<open>BehaviorStub\<close> both provide.
\<close>

section \<open>Errors and results\<close>

text \<open>
  A Go \<open>error\<close> made with \<open>fmt.Errorf\<close> and \<open>%v\<close> keeps only its text. An operation that
  returns just an \<open>error\<close> has the result \<open>goerror option\<close> (\<open>None\<close> is \<open>nil\<close>); one that
  returns a value and an error has the result \<open>goerror + 'a\<close>.
\<close>

type_synonym goerror = string

named_theorems go_defs "definitions of the model's straight-line code"
named_theorems frame "what an operation leaves unchanged"

section \<open>Updating the first match of a list\<close>

text \<open>
  \<^verbatim>\<open>for i := range xs { if P(xs[i]) { xs[i] = f(xs[i]); found = true; break } }\<close>
\<close>

fun update_first :: "('a \<Rightarrow> bool) \<Rightarrow> ('a \<Rightarrow> 'a) \<Rightarrow> 'a list \<Rightarrow> 'a list \<times> bool" where
  "update_first P f [] = ([], False)"
| "update_first P f (x # xs) =
     (if P x then (f x # xs, True)
      else (case update_first P f xs of (ys, found) \<Rightarrow> (x # ys, found)))"

definition upsert :: "('a \<Rightarrow> bool) \<Rightarrow> ('a \<Rightarrow> 'a) \<Rightarrow> 'a \<Rightarrow> 'a list \<Rightarrow> 'a list" where
  "upsert P f new xs =
     (case update_first P f xs of (ys, found) \<Rightarrow> if found then ys else ys @ [new])"

lemma update_first_None: "\<forall>x \<in> set xs. \<not> P x \<Longrightarrow> update_first P f xs = (xs, False)"
  by (induction xs) auto

lemma update_first_split:
  "P x \<Longrightarrow> \<forall>y \<in> set ys. \<not> P y \<Longrightarrow> update_first P f (ys @ x # zs) = (ys @ f x # zs, True)"
  by (induction ys) auto

lemma update_first_cases:
  obtains (absent) "\<forall>x \<in> set xs. \<not> P x" and "update_first P f xs = (xs, False)"
  | (present) ys x zs where "xs = ys @ x # zs" and "P x" and "\<forall>y \<in> set ys. \<not> P y"
      and "update_first P f xs = (ys @ f x # zs, True)"
proof (cases "\<exists>x \<in> set xs. P x")
  case True
  then obtain ys x zs where "xs = ys @ x # zs" "P x" "\<forall>y \<in> set ys. \<not> P y"
    by (metis split_list_first_prop)
  then show thesis by (intro present) (auto simp: update_first_split)
next
  case False
  then show thesis by (intro absent) (auto simp: update_first_None)
qed

lemma upsert_absent: "\<forall>x \<in> set xs. \<not> P x \<Longrightarrow> upsert P f new xs = xs @ [new]"
  by (simp add: upsert_def update_first_None)

lemma upsert_present:
  "P x \<Longrightarrow> \<forall>y \<in> set ys. \<not> P y \<Longrightarrow> upsert P f new (ys @ x # zs) = ys @ f x # zs"
  by (simp add: upsert_def update_first_split)

lemma upsert_cases:
  obtains (absent) "\<forall>x \<in> set xs. \<not> P x" and "upsert P f new xs = xs @ [new]"
  | (present) ys x zs where "xs = ys @ x # zs" and "P x" and "\<forall>y \<in> set ys. \<not> P y"
      and "upsert P f new xs = ys @ f x # zs"
  by (rule update_first_cases [of xs P f]) (auto simp: upsert_def)

section \<open>The interface of an update-or-append on a keyed list\<close>

text \<open>
  \<open>ups\<close> updates the first entry whose key is \<open>k\<close> and appends an entry of that key when
  there is none. The consequences (the key is there afterwards, keys stay distinct, the entries of
  other keys are untouched) are proved once here.
\<close>

locale keyed_upsert =
  fixes key :: "'a \<Rightarrow> 'k" and k :: 'k and ups :: "'a list \<Rightarrow> 'a list"
  assumes ups_keep: "k \<in> key ` set xs \<Longrightarrow> map key (ups xs) = map key xs"
    and ups_add: "k \<notin> key ` set xs \<Longrightarrow> map key (ups xs) = map key xs @ [k]"
    and ups_others: "filter (\<lambda>x. key x \<noteq> k) (ups xs) = filter (\<lambda>x. key x \<noteq> k) xs"
begin

lemma keys_ups: "set (map key (ups xs)) = insert k (set (map key xs))"
proof (cases "k \<in> key ` set xs")
  case True
  then have "set (map key (ups xs)) = set (map key xs)" by (rule ups_keep [THEN arg_cong])
  with True show ?thesis by auto
next
  case False
  then have "set (map key (ups xs)) = set (map key xs @ [k])" by (rule ups_add [THEN arg_cong])
  then show ?thesis by simp
qed

lemma key_in_ups: "k \<in> key ` set (ups xs)"
  using keys_ups [of xs] by auto

lemma distinct_ups: "distinct (map key xs) \<Longrightarrow> distinct (map key (ups xs))"
  by (cases "k \<in> key ` set xs") (auto simp: ups_keep ups_add)

lemma keys_ups_again: "map key (ups (ups xs)) = map key (ups xs)"
  by (rule ups_keep) (rule key_in_ups)

lemma length_ups: "length (ups xs) \<le> Suc (length xs)"
proof (cases "k \<in> key ` set xs")
  case True
  then have "length (map key (ups xs)) = length (map key xs)" by (rule ups_keep [THEN arg_cong])
  then show ?thesis by simp
next
  case False
  then have "length (map key (ups xs)) = length (map key xs @ [k])"
    by (rule ups_add [THEN arg_cong])
  then show ?thesis by simp
qed

lemma in_ups_other: "key x \<noteq> k \<Longrightarrow> x \<in> set (ups xs) \<longleftrightarrow> x \<in> set xs"
  using ups_others [of xs] by (metis (mono_tags, lifting) mem_Collect_eq set_filter)

end

lemma keyed_upsertI:
  assumes "\<And>x. key x = k \<Longrightarrow> key (f x) = k" and "key new = k"
  shows "keyed_upsert key k (upsert (\<lambda>x. key x = k) f new)"
proof unfold_locales
  fix xs :: "'a list"
  let ?u = "upsert (\<lambda>x. key x = k) f new xs"
  show "map key ?u = map key xs" if "k \<in> key ` set xs"
    using that by (cases rule: upsert_cases [of xs "\<lambda>x. key x = k" f new]) (auto simp: assms)
  show "map key ?u = map key xs @ [k]" if "k \<notin> key ` set xs"
    using that by (cases rule: upsert_cases [of xs "\<lambda>x. key x = k" f new]) (auto simp: assms)
  show "filter (\<lambda>x. key x \<noteq> k) ?u = filter (\<lambda>x. key x \<noteq> k) xs"
    by (cases rule: upsert_cases [of xs "\<lambda>x. key x = k" f new]) (auto simp: assms)
qed

section \<open>Loops over a list of jobs\<close>

text \<open>
  \<open>for_continue\<close>: run every job, go on after an error, count the successes.
  \<open>for_return\<close>: stop at the first error and return it.
\<close>

fun for_continue :: "('j \<Rightarrow> 'w \<Rightarrow> goerror option \<times> 'w) \<Rightarrow> 'j list \<Rightarrow> 'w \<Rightarrow> nat \<times> 'w" where
  "for_continue body [] w = (0, w)"
| "for_continue body (j # js) w =
     (case body j w of
        (Some _, w1) \<Rightarrow> for_continue body js w1
      | (None, w1) \<Rightarrow> (case for_continue body js w1 of (n, w2) \<Rightarrow> (Suc n, w2)))"

fun for_return :: "('j \<Rightarrow> 'w \<Rightarrow> goerror option \<times> 'w) \<Rightarrow> 'j list \<Rightarrow> 'w \<Rightarrow> goerror option \<times> 'w" where
  "for_return body [] w = (None, w)"
| "for_return body (j # js) w =
     (case body j w of
        (Some e, w1) \<Rightarrow> (Some e, w1)
      | (None, w1) \<Rightarrow> for_return body js w1)"

lemma for_continue_le: "fst (for_continue body js w) \<le> length js"
proof (induction js arbitrary: w)
  case Nil
  then show ?case by simp
next
  case (Cons j js)
  obtain r w1 where b: "body j w = (r, w1)" by fastforce
  show ?case using Cons.IH [of w1] by (auto simp: b split: option.splits prod.splits)
qed

lemma for_continue_inv:
  assumes "\<And>j w. j \<in> set js \<Longrightarrow> I w \<Longrightarrow> I (snd (body j w))" and "I w"
  shows "I (snd (for_continue body js w))"
  using assms
proof (induction js arbitrary: w)
  case Nil
  then show ?case by simp
next
  case (Cons j js)
  obtain r w1 where b: "body j w = (r, w1)" by fastforce
  with Cons.prems have "I w1" by (metis list.set_intros(1) snd_conv)
  with Cons have "I (snd (for_continue body js w1))" by simp
  then show ?case by (auto simp: b split: option.splits prod.splits)
qed

lemma for_return_inv:
  assumes "\<And>j w. j \<in> set js \<Longrightarrow> I w \<Longrightarrow> I (snd (body j w))" and "I w"
  shows "I (snd (for_return body js w))"
  using assms
proof (induction js arbitrary: w)
  case Nil
  then show ?case by simp
next
  case (Cons j js)
  obtain r w1 where b: "body j w = (r, w1)" by fastforce
  with Cons.prems have "I w1" by (metis list.set_intros(1) snd_conv)
  with Cons have "I (snd (for_return body js w1))" by simp
  with \<open>I w1\<close> show ?case by (auto simp: b split: option.splits)
qed

lemma for_return_all:
  "for_return body js w = (None, w') \<Longrightarrow> for_continue body js w = (length js, w')"
  by (induction js arbitrary: w) (auto split: prod.splits option.splits)

text \<open>A loop that returns an error has run the jobs before it, and none after it.\<close>

lemma for_return_stop:
  assumes "for_return body js w = (Some e, w')"
  obtains ys j zs v where "js = ys @ j # zs" and "for_return body ys w = (None, v)" and "body j v = (Some e, w')"
  using assms
proof (induction js arbitrary: w thesis)
  case Nil
  then show ?case by simp
next
  case (Cons i js)
  obtain r w1 where b: "body i w = (r, w1)" by fastforce
  show ?case
  proof (cases r)
    case None
    with Cons.prems(2) b have "for_return body js w1 = (Some e, w')" by simp
    then obtain ys j zs v where "js = ys @ j # zs" "for_return body ys w1 = (None, v)" "body j v = (Some e, w')"
      using Cons.IH by blast
    then show ?thesis using b None by (intro Cons.prems(1) [of "i # ys"]) simp_all
  next
    case (Some e')
    with Cons.prems(2) b show ?thesis by (intro Cons.prems(1) [of "[]"]) simp_all
  qed
qed

text \<open>A loop that skips some elements and renames errors is a loop over the others.\<close>

lemma for_return_filter:
  assumes "\<And>x w. body x w = (if P x then (None, w) else (map_option (f x) (fst (job (g x) w)), snd (job (g x) w)))"
  shows "snd (for_return body xs w) = snd (for_return job (map g (filter (\<lambda>x. \<not> P x) xs)) w) \<and>
    (fst (for_return body xs w) = None \<longleftrightarrow> fst (for_return job (map g (filter (\<lambda>x. \<not> P x) xs)) w) = None)"
  by (induction xs arbitrary: w) (auto simp: assms split: prod.splits option.splits)

end
