(* ===== verification/GoPath.thy ===== *)
theory GoPath
  imports Prelude
begin

text \<open>
  What the code uses of Go's \<open>strings\<close> and \<open>path/filepath\<close> packages on a Unix system:
  \<open>strings.Split\<close> and \<open>strings.Join\<close> on one separator, \<open>filepath.Base\<close>, \<open>Ext\<close>,
  \<open>Clean\<close>, \<open>Join\<close> and \<open>Dir\<close>. A Go string is a list of bytes.
\<close>

section \<open>Splitting and joining\<close>

fun split_char :: "char \<Rightarrow> string \<Rightarrow> string list" where
  "split_char c [] = [[]]"
| "split_char c (x # xs) =
     (if x = c then [] # split_char c xs
      else (case split_char c xs of [] \<Rightarrow> [[x]] | y # ys \<Rightarrow> (x # y) # ys))"

fun join_char :: "char \<Rightarrow> string list \<Rightarrow> string" where
  "join_char c [] = []"
| "join_char c [x] = x"
| "join_char c (x # y # ys) = x @ c # join_char c (y # ys)"

lemma split_char_ne [simp]: "split_char c s \<noteq> []"
  by (induction s) (auto split: list.splits)

lemma join_split [simp]: "join_char c (split_char c s) = s"
proof (induction s)
  case Nil
  then show ?case by simp
next
  case (Cons x s)
  obtain y ys where s: "split_char c s = y # ys" by (cases "split_char c s") auto
  with Cons.IH have "join_char c (y # ys) = s" by simp
  then show ?case by (cases ys) (auto simp: s)
qed

lemma split_char_free: "c \<notin> set s \<Longrightarrow> split_char c s = [s]"
  by (induction s) auto

lemma split_char_elem: "e \<in> set (split_char c s) \<Longrightarrow> c \<notin> set e"
proof (induction s arbitrary: e)
  case Nil
  then show ?case by simp
next
  case (Cons x s)
  show ?case
  proof (cases "split_char c s")
    case Nil
    then show ?thesis by simp
  next
    case (Cons y ys)
    then have "c \<notin> set e'" if "e' \<in> set (y # ys)" for e' using Cons.IH that by simp
    with Cons.prems Cons show ?thesis by (auto split: if_splits)
  qed
qed

lemma split_char_append: "c \<notin> set a \<Longrightarrow> split_char c (a @ c # s) = a # split_char c s"
  by (induction a) auto

lemma split_char_snoc: "c \<notin> set b \<Longrightarrow> split_char c (s @ c # b) = split_char c s @ [b]"
proof (induction s)
  case Nil
  then show ?case by (simp add: split_char_free)
next
  case (Cons x s)
  then show ?case by (cases "split_char c s") auto
qed

lemma split_join:
  "xs \<noteq> [] \<Longrightarrow> \<forall>x \<in> set xs. c \<notin> set x \<Longrightarrow> split_char c (join_char c xs) = xs"
  by (induction c xs rule: join_char.induct) (auto simp: split_char_free split_char_append)

lemma join_char_snoc: "xs \<noteq> [] \<Longrightarrow> join_char c (xs @ [y]) = join_char c xs @ c # y"
  by (induction c xs rule: join_char.induct) auto

section \<open>filepath\<close>

abbreviation slash :: char where "slash \<equiv> CHR ''/''"
abbreviation dot :: char where "dot \<equiv> CHR ''.''"

text \<open>\<open>filepath.Ext\<close>: from the last dot of the last path element, empty without one.\<close>

definition go_Ext :: "string \<Rightarrow> string" where
  "go_Ext p =
     (let s = takeWhile (\<lambda>c. c \<noteq> slash) (rev p);
          e = takeWhile (\<lambda>c. c \<noteq> dot) s
      in if length e < length s then dot # rev e else [])"

text \<open>\<open>filepath.Base\<close>: the last element, trailing slashes removed first.\<close>

definition go_Base :: "string \<Rightarrow> string" where
  "go_Base p =
     (if p = [] then ''.''
      else (let b = rev (takeWhile (\<lambda>c. c \<noteq> slash) (dropWhile (\<lambda>c. c = slash) (rev p)))
            in if b = [] then ''/'' else b))"

text \<open>
  \<open>filepath.Clean\<close>: the elements are pushed on a stack; an empty element and \<open>.\<close> are
  dropped, \<open>..\<close> pops, is kept at the start of a relative path and dropped at the root.
\<close>

definition clean_step :: "bool \<Rightarrow> string list \<Rightarrow> string \<Rightarrow> string list" where
  "clean_step rooted out e =
     (if e = [] \<or> e = ''.'' then out
      else if e = ''..'' then
        (case out of
           [] \<Rightarrow> if rooted then [] else [''..'']
         | x # xs \<Rightarrow> if x = ''..'' then ''..'' # out else xs)
      else e # out)"

definition clean_elems :: "bool \<Rightarrow> string list \<Rightarrow> string list" where
  "clean_elems rooted es = rev (foldl (clean_step rooted) [] es)"

definition go_Clean :: "string \<Rightarrow> string" where
  "go_Clean p =
     (case p of
        [] \<Rightarrow> ''.''
      | c # _ \<Rightarrow>
          (if c = slash then slash # join_char slash (clean_elems True (split_char slash p))
           else (case clean_elems False (split_char slash p) of
                   [] \<Rightarrow> ''.''
                 | e # es \<Rightarrow> join_char slash (e # es))))"

text \<open>\<open>filepath.Join\<close>: leading empty elements are skipped, the rest joined and cleaned.\<close>

definition go_Join :: "string list \<Rightarrow> string" where
  "go_Join es =
     (case dropWhile (\<lambda>e. e = []) es of
        [] \<Rightarrow> []
      | e # es' \<Rightarrow> go_Clean (join_char slash (e # es')))"

text \<open>\<open>filepath.Dir\<close>: everything up to the last slash, cleaned.\<close>

definition go_Dir :: "string \<Rightarrow> string" where
  "go_Dir p = go_Clean (rev (dropWhile (\<lambda>c. c \<noteq> slash) (rev p)))"

section \<open>Absolute directories and plain file names\<close>

text \<open>
  A plain name is one element that \<open>Clean\<close> keeps. An absolute directory (other than the root)
  is written as its elements; joining a plain name to it appends one element.
\<close>

definition plain_name :: "string \<Rightarrow> bool" where
  "plain_name n \<longleftrightarrow> n \<noteq> [] \<and> n \<noteq> ''.'' \<and> n \<noteq> ''..'' \<and> slash \<notin> set n"

definition abs_dir :: "string \<Rightarrow> bool" where
  "abs_dir d \<longleftrightarrow> (case d of [] \<Rightarrow> False
     | c # s \<Rightarrow> c = slash \<and> (\<forall>e \<in> set (split_char slash s). plain_name e))"

lemma clean_step_plain [simp]: "plain_name e \<Longrightarrow> clean_step r out e = e # out"
  by (simp add: clean_step_def plain_name_def)

lemma clean_step_empty [simp]: "clean_step r out [] = out"
  by (simp add: clean_step_def)

lemma foldl_plain:
  "\<forall>e \<in> set es. plain_name e \<Longrightarrow> foldl (clean_step r) out es = rev es @ out"
  by (induction es arbitrary: out) auto

lemma clean_elems_plain: "\<forall>e \<in> set es. plain_name e \<Longrightarrow> clean_elems r es = es"
  by (simp add: clean_elems_def foldl_plain)

lemma abs_dirE:
  assumes "abs_dir d"
  obtains es where "d = slash # join_char slash es" and "es \<noteq> []" and "\<forall>e \<in> set es. plain_name e"
    and "split_char slash d = [] # es"
  using assms
  by (cases d) (auto simp: abs_dir_def intro!: that [of "split_char slash (tl d)"])

lemma abs_dir_ne [simp]: "abs_dir d \<Longrightarrow> d \<noteq> []"
  by (auto simp: abs_dir_def)

lemma clean_abs_dir [simp]: "abs_dir d \<Longrightarrow> go_Clean d = d"
  by (erule abs_dirE) (auto simp: go_Clean_def clean_elems_def foldl_plain split_join)

lemma clean_abs_snoc:
  assumes "abs_dir d" and "plain_name n"
  shows "go_Clean (d @ slash # n) = d @ slash # n"
proof -
  from assms(1) obtain es where d: "d = slash # join_char slash es" "es \<noteq> []"
    "\<forall>e \<in> set es. plain_name e" "split_char slash d = [] # es" by (rule abs_dirE)
  have "slash \<notin> set n" using assms(2) by (simp add: plain_name_def)
  then have "split_char slash (d @ slash # n) = [] # es @ [n]"
    by (simp add: split_char_snoc d(4))
  then have "clean_elems True (split_char slash (d @ slash # n)) = es @ [n]"
    using d(3) assms(2) by (simp add: clean_elems_def foldl_plain)
  then show ?thesis using d(1,2) by (simp add: go_Clean_def join_char_snoc)
qed

lemma join_dir_name:
  "abs_dir d \<Longrightarrow> plain_name n \<Longrightarrow> go_Join [d, n] = d @ slash # n"
  by (simp add: go_Join_def clean_abs_snoc)

lemma abs_dir_snoc:
  assumes "abs_dir d" and "plain_name n"
  shows "abs_dir (d @ slash # n)"
proof -
  from assms(1) obtain s where d: "d = slash # s" "\<forall>e \<in> set (split_char slash s). plain_name e"
    by (cases d) (auto simp: abs_dir_def)
  have "slash \<notin> set n" using assms(2) by (simp add: plain_name_def)
  then show ?thesis using d assms(2) by (simp add: abs_dir_def split_char_snoc)
qed

lemma dir_of_snoc:
  assumes "abs_dir d" and "slash \<notin> set n"
  shows "go_Dir (d @ slash # n) = d"
proof -
  have "dropWhile (\<lambda>c. c \<noteq> slash) (rev n @ slash # rev d) = slash # rev d"
    using assms(2) by (subst dropWhile_append2) auto
  then have "go_Dir (d @ slash # n) = go_Clean (d @ [slash])"
    by (simp add: go_Dir_def)
  moreover have "go_Clean (d @ [slash]) = d"
  proof -
    from assms(1) obtain es where d: "d = slash # join_char slash es" "es \<noteq> []"
      "\<forall>e \<in> set es. plain_name e" "split_char slash d = [] # es" by (rule abs_dirE)
    have "split_char slash (d @ [slash]) = [] # es @ [[]]"
      using split_char_snoc [of slash "[]" d] by (simp add: d(4))
    then have "clean_elems True (split_char slash (d @ [slash])) = es"
      using d(3) by (simp add: clean_elems_def foldl_plain)
    then show ?thesis using d(1) by (simp add: go_Clean_def)
  qed
  ultimately show ?thesis by simp
qed

lemma base_noslash: "go_Base p = ''/'' \<or> slash \<notin> set (go_Base p)"
proof -
  have "slash \<notin> set (takeWhile (\<lambda>c. c \<noteq> slash) xs)" for xs by (auto dest: set_takeWhileD)
  then show ?thesis by (auto simp: go_Base_def Let_def)
qed

lemma base_ne [simp]: "go_Base p \<noteq> []"
  by (simp add: go_Base_def Let_def)

lemma base_abs: "slash \<notin> set n \<Longrightarrow> n \<noteq> [] \<Longrightarrow> go_Base (d @ slash # n) = n"
proof -
  assume n: "slash \<notin> set n" "n \<noteq> []"
  then have "dropWhile (\<lambda>c. c = slash) (rev n @ slash # rev d) = rev n @ slash # rev d"
    by (intro dropWhile_eq_self_iff [THEN iffD2] disjI2)
       (metis append_is_Nil_conv hd_append hd_in_set rev_is_Nil_conv set_rev)
  moreover have "takeWhile (\<lambda>c. c \<noteq> slash) (rev n @ slash # rev d) = rev n"
    using n by (subst takeWhile_append2) auto
  ultimately show ?thesis using n by (simp add: go_Base_def)
qed

lemma ext_suffix: "\<exists>a. p = a @ go_Ext p"
proof -
  define s where "s = takeWhile (\<lambda>c. c \<noteq> slash) (rev p)"
  define e where "e = takeWhile (\<lambda>c. c \<noteq> dot) s"
  have E: "go_Ext p = (if length e < length s then dot # rev e else [])"
    by (simp add: go_Ext_def s_def e_def)
  show ?thesis
  proof (cases "length e < length s")
    case True
    then have "dropWhile (\<lambda>c. c \<noteq> dot) s \<noteq> []"
      by (metis append_Nil2 e_def less_irrefl takeWhile_dropWhile_id)
    moreover from this have "hd (dropWhile (\<lambda>c. c \<noteq> dot) s) = dot"
      using hd_dropWhile by blast
    ultimately obtain t where "dropWhile (\<lambda>c. c \<noteq> dot) s = dot # t"
      by (cases "dropWhile (\<lambda>c. c \<noteq> dot) s") auto
    then have "s = e @ dot # t"
      by (metis e_def takeWhile_dropWhile_id)
    moreover obtain u where "rev p = s @ u"
      by (metis s_def takeWhile_dropWhile_id)
    ultimately have "rev (rev p) = rev (e @ dot # t @ u)" by simp
    then have "p = (rev u @ rev t) @ dot # rev e" by simp
    with True E show ?thesis by auto
  next
    case False
    with E show ?thesis by auto
  qed
qed

lemma ext_none:
  assumes "dot \<notin> set p"
  shows "go_Ext p = []"
proof -
  define s where "s = takeWhile (\<lambda>c. c \<noteq> slash) (rev p)"
  have "set s \<subseteq> set p" by (auto simp: s_def dest: set_takeWhileD)
  with assms have "\<forall>c \<in> set s. c \<noteq> dot" by blast
  then have "takeWhile (\<lambda>c. c \<noteq> dot) s = s" by (rule takeWhile_eq_all_conv [THEN iffD2])
  then show ?thesis
    unfolding go_Ext_def Let_def s_def [symmetric] by (simp only: less_irrefl if_False)
qed

lemma ext_dot:
  assumes "slash \<notin> set n" and "slash \<notin> set e" and "dot \<notin> set e"
  shows "go_Ext (n @ dot # e) = dot # e"
proof -
  have 1: "takeWhile (\<lambda>c. c \<noteq> slash) (rev (n @ dot # e)) = rev (n @ dot # e)"
    using assms(1,2) by (intro takeWhile_eq_all_conv [THEN iffD2]) auto
  have 2: "takeWhile (\<lambda>c. c \<noteq> dot) (rev (n @ dot # e)) = rev e"
    using assms(3) by (simp add: takeWhile_append)
  show ?thesis unfolding go_Ext_def Let_def 1 2 by simp
qed

section \<open>A suffix on the last element changes the cleaned path\<close>

text \<open>
  \<open>atomicCopy\<close> writes to the destination name with \<open>.tmp\<close> appended. Whatever the
  destination is, the two names are different files.
\<close>

definition kept_elem :: "string \<Rightarrow> bool" where
  "kept_elem e \<longleftrightarrow> e \<noteq> [] \<and> e \<noteq> ''.'' \<and> slash \<notin> set e"

lemma clean_step_kept:
  assumes "slash \<notin> set e" and "\<forall>x \<in> set out. kept_elem x"
  shows "\<forall>x \<in> set (clean_step r out e). kept_elem x"
proof -
  have "kept_elem ''..''" by (simp add: kept_elem_def)
  moreover have "kept_elem e" if "e \<noteq> []" "e \<noteq> ''.''" using that assms(1) by (simp add: kept_elem_def)
  ultimately show ?thesis using assms(2) by (cases out) (auto simp: clean_step_def)
qed

lemma foldl_kept:
  "\<forall>e \<in> set es. slash \<notin> set e \<Longrightarrow> \<forall>x \<in> set out. kept_elem x \<Longrightarrow>
     \<forall>x \<in> set (foldl (clean_step r) out es). kept_elem x"
proof (induction es arbitrary: out)
  case Nil
  then show ?case by simp
next
  case (Cons e es)
  then have "\<forall>x \<in> set (clean_step r out e). kept_elem x" by (intro clean_step_kept) auto
  with Cons show ?case by simp
qed

lemma join_kept_inj:
  assumes "\<forall>x \<in> set xs. kept_elem x" and "\<forall>y \<in> set ys. kept_elem y"
    and "join_char slash xs = join_char slash ys"
  shows "xs = ys"
proof -
  have ne: "join_char slash zs \<noteq> []" if "zs \<noteq> []" "\<forall>z \<in> set zs. kept_elem z" for zs
    using that by (cases zs; cases "tl zs") (auto simp: kept_elem_def)
  show ?thesis
  proof (cases "xs = [] \<or> ys = []")
    case True
    with ne [of xs] ne [of ys] assms show ?thesis by (metis join_char.simps(1))
  next
    case False
    then have "split_char slash (join_char slash xs) = xs"
      by (intro split_join) (use assms(1) in \<open>auto simp: kept_elem_def\<close>)
    moreover have "split_char slash (join_char slash ys) = ys"
      by (intro split_join) (use False assms(2) in \<open>auto simp: kept_elem_def\<close>)
    ultimately show ?thesis using assms(3) by metis
  qed
qed

lemma clean_stack_ne:
  assumes "plain_name b" and "b \<noteq> e" and "length b > 2"
  shows "b # st \<noteq> clean_step r st e"
proof
  assume eq: "b # st = clean_step r st e"
  then have "length (clean_step r st e) = Suc (length st)" by (metis length_Cons)
  with eq assms show False
    by (auto simp: clean_step_def split: if_splits list.splits)
qed

lemma join_char_last: "join_char c (xs @ [e @ t]) = join_char c (xs @ [e]) @ t"
  by (cases xs) (simp_all add: join_char_snoc flip: append_Cons)

lemma split_last:
  obtains es e where "split_char c s = es @ [e]" and "c \<notin> set e" and "\<forall>x \<in> set es. c \<notin> set x"
    and "\<And>t. c \<notin> set t \<Longrightarrow> split_char c (s @ t) = es @ [e @ t]"
proof -
  obtain es e where es: "split_char c s = es @ [e]"
    by (metis rev_exhaust split_char_ne)
  have el: "c \<notin> set x" if "x \<in> set (es @ [e])" for x
    using that split_char_elem [of x c s] by (simp add: es)
  have "split_char c (s @ t) = es @ [e @ t]" if "c \<notin> set t" for t
  proof -
    have s: "s = join_char c (es @ [e])" using join_split [of c s] by (simp add: es)
    have "s @ t = join_char c (es @ [e @ t])"
      by (subst s) (rule join_char_last [symmetric])
    moreover have "\<forall>x \<in> set (es @ [e @ t]). c \<notin> set x" using el that by auto
    ultimately show ?thesis using split_join [of "es @ [e @ t]" c] by simp
  qed
  with es el show thesis by (intro that) auto
qed

lemma clean_suffix_ne:
  assumes "slash \<notin> set t" and "length t > 2"
  shows "go_Clean (d @ t) \<noteq> go_Clean d"
proof (cases d)
  case Nil
  obtain c u where t: "t = c # u" using assms(2) by (cases t) auto
  with assms(1) have "c \<noteq> slash" by auto
  have "clean_elems False (split_char slash t) = [t]"
    using assms by (simp add: split_char_free clean_elems_def clean_step_def) auto
  then have "go_Clean t = t" using t \<open>c \<noteq> slash\<close> by (simp add: go_Clean_def)
  then show ?thesis using Nil assms(2) by (auto simp: go_Clean_def)
next
  case (Cons c s)
  obtain es e where d: "split_char slash d = es @ [e]" "slash \<notin> set e" "\<forall>x \<in> set es. slash \<notin> set x"
    "split_char slash (d @ t) = es @ [e @ t]"
    by (rule split_last [of slash d]) (use assms(1) in blast)
  define r where "r = (c = slash)"
  define st where "st = foldl (clean_step r) [] es"
  have pl: "plain_name (e @ t)"
    using assms d(2) by (auto simp: plain_name_def dest: arg_cong [where f = length])
  have st: "\<forall>x \<in> set st. kept_elem x" unfolding st_def by (rule foldl_kept [OF d(3)]) simp
  have 1: "clean_elems r (split_char slash (d @ t)) = rev ((e @ t) # st)"
    using pl by (simp add: d(4) clean_elems_def flip: st_def)
  have 2: "clean_elems r (split_char slash d) = rev (clean_step r st e)"
    by (simp add: d(1) clean_elems_def flip: st_def)
  have k1: "\<forall>x \<in> set (rev ((e @ t) # st)). kept_elem x"
    using st pl by (auto simp: kept_elem_def plain_name_def)
  have k2: "\<forall>x \<in> set (rev (clean_step r st e)). kept_elem x"
    using foldl_kept [of "[e]" st r] d(2) st by simp
  have "(e @ t) # st \<noteq> clean_step r st e"
    by (rule clean_stack_ne) (use pl assms(2) in auto)
  then have "rev ((e @ t) # st) \<noteq> rev (clean_step r st e)" by (metis rev_rev_ident)
  then have J: "join_char slash (rev ((e @ t) # st)) \<noteq> join_char slash (rev (clean_step r st e))"
    using join_kept_inj [OF k1 k2] by blast
  show ?thesis
  proof (cases r)
    case True
    then show ?thesis using Cons 1 2 J by (simp add: go_Clean_def r_def)
  next
    case False
    have dot1: "join_char slash (rev ((e @ t) # st)) \<noteq> ''.''"
    proof
      assume "join_char slash (rev ((e @ t) # st)) = ''.''"
      then have "split_char slash (join_char slash (rev ((e @ t) # st))) = [''.'']" by simp
      moreover have "split_char slash (join_char slash (rev ((e @ t) # st))) = rev ((e @ t) # st)"
        using k1 by (intro split_join) (auto simp: kept_elem_def)
      ultimately have "''.'' \<in> set (rev ((e @ t) # st))" by (metis list.set_intros(1))
      with k1 have "kept_elem ''.''" by blast
      then show False by (simp add: kept_elem_def)
    qed
    have C: "go_Clean p = (case clean_elems False (split_char slash p) of [] \<Rightarrow> ''.''
        | x # xs \<Rightarrow> join_char slash (x # xs))" if "p = c # u" for p u
      using that False by (simp add: go_Clean_def r_def)
    have "go_Clean (d @ t) = join_char slash (rev ((e @ t) # st))"
      using C [of "d @ t" "s @ t"] 1 False Cons by (auto split: list.splits)
    moreover have "go_Clean d = (if clean_step r st e = [] then ''.''
        else join_char slash (rev (clean_step r st e)))"
      using C [of d s] 2 False Cons by (auto split: list.splits)
    ultimately show ?thesis using J dot1 by auto
  qed
qed

end
