(* ===== verification/GoOS.thy ===== *)
theory GoOS
  imports GoPath "HOL-Library.AList" "HOL-Library.List_Lexorder" "HOL-Library.Char_ord"
begin

text \<open>
  What the code uses of Go's \<open>os\<close> and \<open>io\<close> packages on a Unix system: a file store from
  cleaned path names to nodes, a clock for modification times, and a fault schedule. Every system
  call first takes one entry from the schedule: \<open>Some (e, n)\<close> makes it fail with \<open>e\<close> (a copy
  after \<open>n\<close> bytes, a recursive removal after \<open>n\<close> nodes), \<open>None\<close> and the empty schedule let
  it run. A theorem for every schedule therefore covers every failure the operating system may report at
  any point. Symbolic links, hard links and permissions of other users are not modelled.
\<close>

section \<open>Nodes, errors and the world\<close>

datatype node =
    File (content: string) (mode: nat) (mtime: nat)
  | Dir

datatype errno = ENOENT | EEXIST | ENOTDIR | EISDIR | ENOTEMPTY | EACCES | ENOSPC | EIO | EBUSY

fun errno_string :: "errno \<Rightarrow> string" where
  "errno_string ENOENT = ''no such file or directory''"
| "errno_string EEXIST = ''file exists''"
| "errno_string ENOTDIR = ''not a directory''"
| "errno_string EISDIR = ''is a directory''"
| "errno_string ENOTEMPTY = ''directory not empty''"
| "errno_string EACCES = ''permission denied''"
| "errno_string ENOSPC = ''no space left on device''"
| "errno_string EIO = ''input/output error''"
| "errno_string EBUSY = ''device or resource busy''"

datatype oserr = PathError string string errno | LinkError string string string errno

fun oserr_errno :: "oserr \<Rightarrow> errno" where
  "oserr_errno (PathError op p e) = e"
| "oserr_errno (LinkError op p q e) = e"

fun oserr_string :: "oserr \<Rightarrow> goerror" where
  "oserr_string (PathError op p e) = op @ '' '' @ p @ '': '' @ errno_string e"
| "oserr_string (LinkError op p q e) = op @ '' '' @ p @ '' '' @ q @ '': '' @ errno_string e"

definition is_not_exist :: "oserr \<Rightarrow> bool" where
  "is_not_exist e \<longleftrightarrow> oserr_errno e = ENOENT"

record world =
  files :: "(string \<times> node) list"
  sched :: "(errno \<times> nat) option list"
  clock :: nat

type_synonym 'a sys = "world \<Rightarrow> (oserr + 'a) \<times> world"

section \<open>The file store\<close>

definition fget :: "world \<Rightarrow> string \<Rightarrow> node option" where
  "fget w p = map_of (files w) (go_Clean p)"

definition fput :: "string \<Rightarrow> node \<Rightarrow> world \<Rightarrow> world" where
  "fput p n w = w\<lparr>files := AList.update (go_Clean p) n (files w)\<rparr>"

definition fdel :: "string \<Rightarrow> world \<Rightarrow> world" where
  "fdel p w = w\<lparr>files := AList.delete (go_Clean p) (files w)\<rparr>"

abbreviation same_path :: "string \<Rightarrow> string \<Rightarrow> bool" where
  "same_path p q \<equiv> go_Clean p = go_Clean q"

lemma fget_fput [simp]: "fget (fput p n w) q = (if same_path p q then Some n else fget w q)"
  by (simp add: fget_def fput_def update_conv')

lemma fget_fdel [simp]: "fget (fdel p w) q = (if same_path p q then None else fget w q)"
  by (simp add: fget_def fdel_def delete_conv')

lemma fget_same: "same_path p q \<Longrightarrow> fget w p = fget w q"
  by (simp add: fget_def)

lemma world_fields [simp]:
  "sched (fput p n w) = sched w" "clock (fput p n w) = clock w"
  "sched (fdel p w) = sched w" "clock (fdel p w) = clock w"
  "fget (w\<lparr>sched := fs\<rparr>) q = fget w q" "fget (w\<lparr>clock := t\<rparr>) q = fget w q"
  by (simp_all add: fput_def fdel_def fget_def)

section \<open>Faults\<close>

definition pop_fault :: "world \<Rightarrow> (errno \<times> nat) option \<times> world" where
  "pop_fault w = (case sched w of [] \<Rightarrow> (None, w) | f # fs \<Rightarrow> (f, w\<lparr>sched := fs\<rparr>))"

definition with_fault :: "(errno \<Rightarrow> nat \<Rightarrow> 'a sys) \<Rightarrow> 'a sys \<Rightarrow> 'a sys" where
  "with_fault bad good w =
     (case pop_fault w of
        (None, w1) \<Rightarrow> good w1
      | (Some (e, n), w1) \<Rightarrow> bad e n w1)"

definition fails :: "string \<Rightarrow> string \<Rightarrow> errno \<Rightarrow> 'a sys" where
  "fails op p e w = (Inl (PathError op p e), w)"

lemma pop_fault_frame:
  "pop_fault w = (r, w') \<Longrightarrow> fget w' = fget w \<and> clock w' = clock w \<and> files w' = files w"
  by (auto simp: pop_fault_def fun_eq_iff split: list.splits)

lemma pop_fault_nil: "sched w = [] \<Longrightarrow> pop_fault w = (None, w)"
  by (simp add: pop_fault_def)

lemma with_fault_cases:
  assumes "with_fault bad good w = (r, w')"
  obtains (fault) e n w1 where "bad e n w1 = (r, w')" "fget w1 = fget w" "clock w1 = clock w"
      "sched w \<noteq> []"
  | (run) w1 where "good w1 = (r, w')" "fget w1 = fget w" "clock w1 = clock w"
      "sched w = [] \<Longrightarrow> w1 = w"
proof (cases "pop_fault w")
  case (Pair f w1)
  note eq = pop_fault_frame [OF Pair]
  show thesis
  proof (cases f)
    case None
    moreover have "sched w = [] \<Longrightarrow> w1 = w" using Pair by (simp add: pop_fault_nil)
    ultimately show thesis
      using assms Pair eq by (intro run [of w1]) (simp_all add: with_fault_def)
  next
    case (Some en)
    then have "sched w \<noteq> []" using Pair by (auto simp: pop_fault_nil)
    with Some show thesis
      using assms Pair eq fault [of "fst en" "snd en" w1]
      by (auto simp: with_fault_def split: prod.splits)
  qed
qed

lemma with_fault_nil: "sched w = [] \<Longrightarrow> with_fault bad good w = good w"
  by (simp add: with_fault_def pop_fault_nil)

section \<open>System calls\<close>

definition ancestors :: "string \<Rightarrow> string list" where
  "ancestors p =
     (case p of
        [] \<Rightarrow> []
      | c # s \<Rightarrow>
          (if c = slash
           then map (\<lambda>i. slash # join_char slash (take i (split_char slash s)))
                  [1..<Suc (length (split_char slash s))]
           else map (\<lambda>i. join_char slash (take i (split_char slash p)))
                  [1..<Suc (length (split_char slash p))]))"

text \<open>The error for a name that is not there: a regular file on the way gives \<open>ENOTDIR\<close>.\<close>

fun is_file :: "node option \<Rightarrow> bool" where
  "is_file (Some (File c m t)) = True"
| "is_file _ = False"

definition missing :: "world \<Rightarrow> string \<Rightarrow> errno" where
  "missing w p =
     (if list_ex (\<lambda>a. is_file (fget w a)) (ancestors (go_Clean p)) then ENOTDIR else ENOENT)"

definition osStat :: "string \<Rightarrow> node sys" where
  "osStat p = with_fault (\<lambda>e n. fails ''stat'' p e)
     (\<lambda>w. case fget w p of None \<Rightarrow> fails ''stat'' p (missing w p) w | Some nd \<Rightarrow> (Inr nd, w))"

definition osOpen :: "string \<Rightarrow> unit sys" where
  "osOpen p = with_fault (\<lambda>e n. fails ''open'' p e)
     (\<lambda>w. case fget w p of None \<Rightarrow> fails ''open'' p (missing w p) w | Some nd \<Rightarrow> (Inr (), w))"

text \<open>
  \<open>os.Create\<close> truncates an existing file and keeps its mode; a new file has mode
  \<open>0666\<close> less the usual mask \<open>022\<close>, which is 420 in decimal.
\<close>

definition osCreate :: "string \<Rightarrow> unit sys" where
  "osCreate p = with_fault (\<lambda>e n. fails ''open'' p e)
     (\<lambda>w. case fget w p of
        Some Dir \<Rightarrow> fails ''open'' p EISDIR w
      | Some (File c m t) \<Rightarrow> (Inr (), fput p (File [] m (clock w)) w)
      | None \<Rightarrow>
          (case fget w (go_Dir p) of
             Some Dir \<Rightarrow> (Inr (), fput p (File [] 420 (clock w)) w)
           | _ \<Rightarrow> fails ''open'' p (missing w p) w))"

text \<open>
  \<open>io.Copy\<close> from the file opened at \<open>src\<close> to the file created at \<open>dst\<close>, which is
  empty and at offset 0. A fault leaves the bytes written so far. A directory opens but cannot
  be read. (A source that is missing cannot occur after a successful open.)
\<close>

definition ioCopy :: "string \<Rightarrow> string \<Rightarrow> nat sys" where
  "ioCopy dst src = with_fault
     (\<lambda>e n w. (case fget w src of
          Some (File c m t) \<Rightarrow>
            (case fget w dst of
               Some (File c' m' t') \<Rightarrow>
                 (Inl (PathError ''write'' dst e), fput dst (File (take n c) m' (clock w)) w)
             | _ \<Rightarrow> fails ''write'' dst e w)
        | _ \<Rightarrow> fails ''read'' src e w))
     (\<lambda>w. (case fget w src of
          Some (File c m t) \<Rightarrow>
            (case fget w dst of
               Some (File c' m' t') \<Rightarrow> (Inr (length c), fput dst (File c m' (clock w)) w)
             | _ \<Rightarrow> fails ''write'' dst EIO w)
        | Some Dir \<Rightarrow> fails ''read'' src EISDIR w
        | None \<Rightarrow> fails ''read'' src EIO w))"

definition osClose :: "string \<Rightarrow> unit sys" where
  "osClose p = with_fault (\<lambda>e n. fails ''close'' p e) (\<lambda>w. (Inr (), w))"

definition osChmod :: "string \<Rightarrow> nat \<Rightarrow> unit sys" where
  "osChmod p md = with_fault (\<lambda>e n. fails ''chmod'' p e)
     (\<lambda>w. case fget w p of
        None \<Rightarrow> fails ''chmod'' p (missing w p) w
      | Some Dir \<Rightarrow> (Inr (), w)
      | Some (File c m t) \<Rightarrow> (Inr (), fput p (File c md t) w))"

text \<open>
  \<open>os.Rename\<close> replaces an existing file in one step and refuses to replace a directory. (The
  program renames regular files only; a directory as the source is refused here.)
\<close>

definition osRename :: "string \<Rightarrow> string \<Rightarrow> unit sys" where
  "osRename p q = with_fault (\<lambda>e n w. (Inl (LinkError ''rename'' p q e), w))
     (\<lambda>w. case fget w p of
        None \<Rightarrow> (Inl (LinkError ''rename'' p q (missing w p)), w)
      | Some Dir \<Rightarrow> (Inl (LinkError ''rename'' p q EISDIR), w)
      | Some (File c m t) \<Rightarrow>
          (case fget w q of
             Some Dir \<Rightarrow> (Inl (LinkError ''rename'' p q EEXIST), w)
           | Some (File c' m' t') \<Rightarrow> (Inr (), fput q (File c m t) (fdel p w))
           | None \<Rightarrow>
               (case fget w (go_Dir q) of
                  Some Dir \<Rightarrow> (Inr (), fput q (File c m t) (fdel p w))
                | _ \<Rightarrow> (Inl (LinkError ''rename'' p q (missing w q)), w))))"

definition under :: "string \<Rightarrow> string \<Rightarrow> bool" where
  "under d q \<longleftrightarrow> q = d \<or> take (Suc (length d)) q = d @ [slash]"

definition osRemove :: "string \<Rightarrow> unit sys" where
  "osRemove p = with_fault (\<lambda>e n. fails ''remove'' p e)
     (\<lambda>w. case fget w p of
        None \<Rightarrow> fails ''remove'' p (missing w p) w
      | Some (File c m t) \<Rightarrow> (Inr (), fdel p w)
      | Some Dir \<Rightarrow>
          (if \<exists>q \<in> set (map fst (files w)). q \<noteq> go_Clean p \<and> under (go_Clean p) q
           then fails ''remove'' p ENOTEMPTY w
           else (Inr (), fdel p w)))"

text \<open>\<open>os.RemoveAll\<close>: no error when there is nothing; a fault stops it half way.\<close>

definition osRemoveAll :: "string \<Rightarrow> unit sys" where
  "osRemoveAll p = with_fault
     (\<lambda>e n w. (Inl (PathError ''unlinkat'' p e),
        w\<lparr>files := filter (\<lambda>(q, nd). q \<notin> set (take n (filter (under (go_Clean p)) (map fst (files w)))))
             (files w)\<rparr>))
     (\<lambda>w. (Inr (), w\<lparr>files := filter (\<lambda>(q, nd). \<not> under (go_Clean p) q) (files w)\<rparr>))"

fun mk_dirs :: "string list \<Rightarrow> world \<Rightarrow> string option \<times> world" where
  "mk_dirs [] w = (None, w)"
| "mk_dirs (a # as) w =
     (case fget w a of
        Some Dir \<Rightarrow> mk_dirs as w
      | Some (File c m t) \<Rightarrow> (Some a, w)
      | None \<Rightarrow> mk_dirs as (fput a Dir w))"

definition osMkdirAll :: "string \<Rightarrow> unit sys" where
  "osMkdirAll p = with_fault (\<lambda>e n. fails ''mkdir'' p e)
     (\<lambda>w. case mk_dirs (ancestors (go_Clean p)) w of
        (Some a, w') \<Rightarrow> fails ''mkdir'' a ENOTDIR w'
      | (None, w') \<Rightarrow> (Inr (), w'))"

text \<open>
  \<open>os.ReadDir\<close>: the entries of a directory, sorted by name, with their kind; the entries \<open>.\<close> and
  \<open>..\<close> are never listed.
\<close>

definition child_name :: "string \<Rightarrow> string \<Rightarrow> string option" where
  "child_name d q =
     (let pre = (if d = ''/'' then ''/'' else d @ ''/''); n = drop (length pre) q
      in if take (length pre) q = pre \<and> plain_name n then Some n else None)"

definition dir_names :: "world \<Rightarrow> string \<Rightarrow> string list" where
  "dir_names w d = sort (remdups (List.map_filter (child_name (go_Clean d)) (map fst (files w))))"

definition osReadDir :: "string \<Rightarrow> (string \<times> bool) list sys" where
  "osReadDir p = with_fault (\<lambda>e n. fails ''open'' p e)
     (\<lambda>w. case fget w p of
        None \<Rightarrow> fails ''open'' p (missing w p) w
      | Some (File c m t) \<Rightarrow> fails ''open'' p ENOTDIR w
      | Some Dir \<Rightarrow>
          (Inr (map (\<lambda>n. (n, fget w (go_Join [p, n]) = Some Dir)) (dir_names w p)), w))"

text \<open>
  \<open>os.WriteFile\<close>: open with truncation, write, close. Each of the three may fail: a failed open changes nothing,
  a failed write leaves what was written so far. The first error is the result.
\<close>

definition open_trunc :: "string \<Rightarrow> nat \<Rightarrow> nat sys" where
  "open_trunc p md = with_fault (\<lambda>e n. fails ''open'' p e)
     (\<lambda>w. case fget w p of
        Some Dir \<Rightarrow> fails ''open'' p EISDIR w
      | Some (File c' m' t') \<Rightarrow> (Inr m', fput p (File [] m' (clock w)) w)
      | None \<Rightarrow>
          (case fget w (go_Dir p) of
             Some Dir \<Rightarrow> (Inr md, fput p (File [] md (clock w)) w)
           | _ \<Rightarrow> fails ''open'' p (missing w p) w))"

definition write_bytes :: "string \<Rightarrow> string \<Rightarrow> nat \<Rightarrow> unit sys" where
  "write_bytes p c m = with_fault
     (\<lambda>e n w. (Inl (PathError ''write'' p e), fput p (File (take n c) m (clock w)) w))
     (\<lambda>w. (Inr (), fput p (File c m (clock w)) w))"

definition osWriteFile :: "string \<Rightarrow> string \<Rightarrow> nat \<Rightarrow> unit sys" where
  "osWriteFile p c md w =
     (case open_trunc p md w of
        (Inl e, w1) \<Rightarrow> (Inl e, w1)
      | (Inr m, w1) \<Rightarrow>
          (case write_bytes p c m w1 of
             (Inl e, w2) \<Rightarrow> (Inl e, snd (osClose p w2))
           | (Inr _, w2) \<Rightarrow> osClose p w2))"

text \<open>\<open>os.ReadFile\<close>: open and read, each of which may fail; a directory opens but cannot be read.\<close>

definition osReadFile :: "string \<Rightarrow> string sys" where
  "osReadFile p w =
     (case osOpen p w of
        (Inl e, w1) \<Rightarrow> (Inl e, w1)
      | (Inr _, w1) \<Rightarrow>
          (case with_fault (\<lambda>e n. fails ''read'' p e)
                  (\<lambda>w. case fget w p of
                     Some (File c m t) \<Rightarrow> (Inr c, w)
                   | _ \<Rightarrow> fails ''read'' p EISDIR w) w1 of
             (r, w2) \<Rightarrow> (r, snd (osClose p w2))))"

section \<open>What each call leaves behind\<close>

text \<open>
  One lemma per call and outcome, for every fault schedule: the file store afterwards as a function
  of the one before. \<open>os_ok\<close> and \<open>os_err\<close> collect them.
\<close>

named_theorems os_ok "the file store after a successful system call"
named_theorems os_err "the file store after a failed system call"

lemma osStat_frame [frame]: "osStat p w = (r, w') \<Longrightarrow> fget w' = fget w"
  by (auto simp: osStat_def fails_def elim!: with_fault_cases split: option.splits)

lemma osStat_ok [os_ok]: "osStat p w = (Inr nd, w') \<Longrightarrow> fget w p = Some nd \<and> fget w' = fget w"
  by (auto simp: osStat_def fails_def elim!: with_fault_cases split: option.splits)

lemma osOpen_ok [os_ok]: "osOpen p w = (Inr u, w') \<Longrightarrow> fget w p \<noteq> None \<and> fget w' = fget w"
  by (auto simp: osOpen_def fails_def elim!: with_fault_cases split: option.splits)

lemma osOpen_err [os_err]: "osOpen p w = (Inl e, w') \<Longrightarrow> fget w' = fget w"
  by (auto simp: osOpen_def fails_def elim!: with_fault_cases split: option.splits)

lemma osCreate_ok [os_ok]:
  "osCreate p w = (Inr u, w') \<Longrightarrow>
     \<exists>m t. fget w' = (\<lambda>q. if same_path p q then Some (File [] m t) else fget w q)"
  by (auto simp: osCreate_def fails_def fun_eq_iff elim!: with_fault_cases
      split: option.splits node.splits)

lemma osCreate_err [os_err]: "osCreate p w = (Inl e, w') \<Longrightarrow> fget w' = fget w"
  by (auto simp: osCreate_def fails_def elim!: with_fault_cases split: option.splits node.splits)

lemma ioCopy_ok [os_ok]:
  "ioCopy d s w = (Inr n, w') \<Longrightarrow>
     \<exists>c m t m' t'. fget w s = Some (File c m t) \<and> is_file (fget w d)
       \<and> fget w' = (\<lambda>q. if same_path d q then Some (File c m' t') else fget w q)"
  by (auto simp: ioCopy_def fails_def fun_eq_iff elim!: with_fault_cases
      split: option.splits node.splits)

lemma ioCopy_err [os_err]:
  "ioCopy d s w = (Inl e, w') \<Longrightarrow>
     fget w' = fget w \<or>
     (\<exists>c m t. is_file (fget w d) \<and>
        fget w' = (\<lambda>q. if same_path d q then Some (File c m t) else fget w q))"
  by (auto simp: ioCopy_def fails_def fun_eq_iff elim!: with_fault_cases
      split: option.splits node.splits)

lemma osClose_frame [frame, os_ok, os_err]: "osClose p w = (r, w') \<Longrightarrow> fget w' = fget w"
  by (auto simp: osClose_def fails_def elim!: with_fault_cases)

lemma osChmod_ok [os_ok]:
  "osChmod p md w = (Inr u, w') \<Longrightarrow>
     fget w p \<noteq> None \<and>
     (\<forall>c m t. fget w p = Some (File c m t) \<longrightarrow>
        fget w' = (\<lambda>q. if same_path p q then Some (File c md t) else fget w q))"
  by (auto simp: osChmod_def fails_def fun_eq_iff elim!: with_fault_cases
      split: option.splits node.splits)

lemma osChmod_err [os_err]: "osChmod p md w = (Inl e, w') \<Longrightarrow> fget w' = fget w"
  by (auto simp: osChmod_def fails_def elim!: with_fault_cases split: option.splits node.splits)

lemma osRename_ok [os_ok]:
  "osRename p q w = (Inr u, w') \<Longrightarrow>
     \<exists>c m t. fget w p = Some (File c m t) \<and> fget w q \<noteq> Some Dir \<and>
       fget w' = (\<lambda>x. if same_path q x then Some (File c m t)
                       else if same_path p x then None else fget w x)"
  by (auto simp: osRename_def fun_eq_iff elim!: with_fault_cases
      split: option.splits node.splits)

lemma osRename_err [os_err]: "osRename p q w = (Inl e, w') \<Longrightarrow> fget w' = fget w"
  by (auto simp: osRename_def elim!: with_fault_cases split: option.splits node.splits)

lemma osRemove_any [os_ok, os_err]:
  "osRemove p w = (r, w') \<Longrightarrow>
     fget w' = fget w \<or> fget w' = (\<lambda>q. if same_path p q then None else fget w q)"
  by (auto simp: osRemove_def fails_def fun_eq_iff elim!: with_fault_cases
      split: option.splits node.splits if_splits)

lemma mk_dirs_frame: "mk_dirs as w = (r, w') \<Longrightarrow> fget w q \<noteq> None \<Longrightarrow> fget w' q = fget w q"
proof (induction as arbitrary: w)
  case Nil
  then show ?case by simp
next
  case (Cons a as)
  show ?case
  proof (cases "fget w a")
    case None
    then have "\<not> same_path a q" using Cons.prems(2) fget_same [of a q w] by auto
    then have "fget (fput a Dir w) q = fget w q" by simp
    then show ?thesis using Cons None by simp
  next
    case (Some nd)
    then show ?thesis using Cons by (cases nd) auto
  qed
qed

lemma mk_dirs_new: "mk_dirs as w = (r, w') \<Longrightarrow> fget w' q = fget w q \<or> fget w' q = Some Dir"
proof (induction as arbitrary: w)
  case Nil
  then show ?case by simp
next
  case (Cons a as)
  then show ?case
    by (auto split: option.splits node.splits if_splits)
qed

lemma mk_dirs_ok: "mk_dirs as w = (None, w') \<Longrightarrow> a \<in> set as \<Longrightarrow> fget w' a = Some Dir"
proof (induction as arbitrary: w)
  case Nil
  then show ?case by simp
next
  case (Cons b as)
  show ?case
  proof (cases "a = b")
    case False
    with Cons show ?thesis by (auto split: option.splits node.splits)
  next
    case True
    then obtain w1 where "mk_dirs as w1 = (None, w')" and "fget w1 a = Some Dir"
      using Cons.prems(1) by (auto split: option.splits node.splits)
    then show ?thesis using mk_dirs_frame [of as w1 None w' a] by simp
  qed
qed

text \<open>No system call moves the clock; only the rest of the system does.\<close>

lemma with_fault_clock:
  assumes "\<And>e n v. clock (snd (bad e n v)) = clock v" and "\<And>v. clock (snd (good v)) = clock v"
  shows "clock (snd (with_fault bad good w)) = clock w"
  using assms by (auto simp: with_fault_def pop_fault_def split: list.splits option.splits)

lemma fails_snd [simp]: "snd (fails op p e w) = w"
  by (simp add: fails_def)

lemma clock_frame [simp]:
  "clock (snd (osStat p w)) = clock w" "clock (snd (osOpen p w)) = clock w"
  "clock (snd (osCreate p w)) = clock w" "clock (snd (ioCopy p q w)) = clock w"
  "clock (snd (osClose p w)) = clock w" "clock (snd (osChmod p md w)) = clock w"
  "clock (snd (osRename p q w)) = clock w" "clock (snd (osRemove p w)) = clock w"
  "clock (snd (osReadDir p w)) = clock w"
  unfolding osStat_def osOpen_def osCreate_def ioCopy_def osClose_def osChmod_def osRename_def
    osRemove_def osReadDir_def
  by (rule with_fault_clock; simp split: option.splits node.splits)+

lemma clock_step:
  "osStat p w = (r1, w') \<Longrightarrow> clock w' = clock w" "osOpen p w = (r2, w') \<Longrightarrow> clock w' = clock w"
  "osCreate p w = (r3, w') \<Longrightarrow> clock w' = clock w" "ioCopy p q w = (r4, w') \<Longrightarrow> clock w' = clock w"
  "osClose p w = (r5, w') \<Longrightarrow> clock w' = clock w" "osChmod p md w = (r6, w') \<Longrightarrow> clock w' = clock w"
  "osRename p q w = (r7, w') \<Longrightarrow> clock w' = clock w" "osRemove p w = (r8, w') \<Longrightarrow> clock w' = clock w"
  "osReadDir p w = (r9, w') \<Longrightarrow> clock w' = clock w"
  by (metis clock_frame snd_conv)+

lemma map_of_filter_key: "map_of (filter (\<lambda>(q, nd). P q) xs) k = (if P k then map_of xs k else None)"
  by (induction xs) auto

lemma osRemoveAll_effect:
  assumes "osRemoveAll p w = (r, w')"
  shows "fget w' x = fget w x \<or> (fget w' x = None \<and> under (go_Clean p) (go_Clean x))"
  using assms unfolding osRemoveAll_def
proof (cases rule: with_fault_cases)
  case (fault e n w1)
  have "map_of (files w1) (go_Clean x) = fget w x" using fun_cong [OF fault(2), of x] by (simp add: fget_def)
  moreover have "fget w' x = (if go_Clean x \<notin> set (take n (filter (under (go_Clean p)) (map fst (files w1))))
      then map_of (files w1) (go_Clean x) else None)"
    using fault(1) by (auto simp: fget_def map_of_filter_key)
  moreover have "under (go_Clean p) q" if "q \<in> set (take n (filter (under (go_Clean p)) ks))" for q ks
    using in_set_takeD [OF that] by simp
  ultimately show ?thesis by metis
next
  case (run w1)
  have "map_of (files w1) (go_Clean x) = fget w x" using fun_cong [OF run(2), of x] by (simp add: fget_def)
  then show ?thesis using run(1) by (auto simp: fget_def map_of_filter_key split: if_splits)
qed

lemma osRemoveAll_nil:
  "sched w = [] \<Longrightarrow> osRemoveAll p w =
     (Inr (), w\<lparr>files := filter (\<lambda>(q, nd). \<not> under (go_Clean p) q) (files w)\<rparr>)"
  by (simp add: osRemoveAll_def with_fault_nil)

text \<open>No call on a file makes a directory.\<close>

lemma dir_step:
  "osStat p w = (r1, w') \<Longrightarrow> fget w' x = Some Dir \<Longrightarrow> fget w x = Some Dir"
  "osOpen p w = (r2, w') \<Longrightarrow> fget w' x = Some Dir \<Longrightarrow> fget w x = Some Dir"
  "osCreate p w = (r3, w') \<Longrightarrow> fget w' x = Some Dir \<Longrightarrow> fget w x = Some Dir"
  "ioCopy p q w = (r4, w') \<Longrightarrow> fget w' x = Some Dir \<Longrightarrow> fget w x = Some Dir"
  "osClose p w = (r5, w') \<Longrightarrow> fget w' x = Some Dir \<Longrightarrow> fget w x = Some Dir"
  "osChmod p md w = (r6, w') \<Longrightarrow> fget w' x = Some Dir \<Longrightarrow> fget w x = Some Dir"
  "osRename p q w = (r7, w') \<Longrightarrow> fget w' x = Some Dir \<Longrightarrow> fget w x = Some Dir"
  "osRemove p w = (r8, w') \<Longrightarrow> fget w' x = Some Dir \<Longrightarrow> fget w x = Some Dir"
  unfolding osStat_def osOpen_def osCreate_def ioCopy_def osClose_def osChmod_def osRename_def
    osRemove_def fails_def
  by (erule with_fault_cases; auto split: option.splits node.splits if_splits)+

lemma dir_frame:
  "fget (snd (osClose p w)) x = Some Dir \<Longrightarrow> fget w x = Some Dir"
  "fget (snd (osRemove p w)) x = Some Dir \<Longrightarrow> fget w x = Some Dir"
  by (metis dir_step prod.collapse)+

text \<open>A schedule without faults stays one.\<close>

lemma with_fault_keeps_nil:
  "sched w = [] \<Longrightarrow> (\<And>v. sched (snd (good v)) = sched v) \<Longrightarrow> sched (snd (with_fault bad good w)) = []"
  by (simp add: with_fault_nil)

lemma nil_frame:
  assumes "sched w = []"
  shows "sched (snd (osStat p w)) = []" "sched (snd (osOpen p w)) = []" "sched (snd (osCreate p w)) = []"
    "sched (snd (ioCopy p q w)) = []" "sched (snd (osClose p w)) = []" "sched (snd (osChmod p md w)) = []"
    "sched (snd (osRename p q w)) = []" "sched (snd (osRemove p w)) = []"
  unfolding osStat_def osOpen_def osCreate_def ioCopy_def osClose_def osChmod_def osRename_def
    osRemove_def osReadDir_def
  by (rule with_fault_keeps_nil [OF assms]; simp split: option.splits node.splits)+

lemma nil_step:
  "osStat p w = (r1, w') \<Longrightarrow> sched w = [] \<Longrightarrow> sched w' = []"
  "osOpen p w = (r2, w') \<Longrightarrow> sched w = [] \<Longrightarrow> sched w' = []"
  "osCreate p w = (r3, w') \<Longrightarrow> sched w = [] \<Longrightarrow> sched w' = []"
  "ioCopy p q w = (r4, w') \<Longrightarrow> sched w = [] \<Longrightarrow> sched w' = []"
  "osClose p w = (r5, w') \<Longrightarrow> sched w = [] \<Longrightarrow> sched w' = []"
  "osChmod p md w = (r6, w') \<Longrightarrow> sched w = [] \<Longrightarrow> sched w' = []"
  "osRename p q w = (r7, w') \<Longrightarrow> sched w = [] \<Longrightarrow> sched w' = []"
  "osRemove p w = (r8, w') \<Longrightarrow> sched w = [] \<Longrightarrow> sched w' = []"
  by (metis nil_frame snd_conv)+

lemma osReadDir_frame [frame]: "osReadDir p w = (r, w') \<Longrightarrow> fget w' = fget w"
  by (auto simp: osReadDir_def fails_def elim!: with_fault_cases split: option.splits node.splits)

text \<open>The listing of a directory depends on the files only.\<close>

lemma osReadDir_ok:
  assumes "osReadDir p w = (Inr es, w')"
  shows "es = map (\<lambda>n. (n, fget w (go_Join [p, n]) = Some Dir)) (dir_names w p)" and "fget w p = Some Dir"
proof -
  have "files w1 = files w" if "pop_fault w = (None, w1)" for w1
    using pop_fault_frame [OF that] by simp
  with assms show "es = map (\<lambda>n. (n, fget w (go_Join [p, n]) = Some Dir)) (dir_names w p)"
    "fget w p = Some Dir"
    by (auto simp: osReadDir_def with_fault_def fails_def dir_names_def fget_def
        split: prod.splits option.splits node.splits)
qed

lemma dir_names_iff:
  assumes "abs_dir d"
  shows "n \<in> set (dir_names w d) \<longleftrightarrow> plain_name n \<and> fget w (d @ slash # n) \<noteq> None"
proof -
  have d: "d \<noteq> ''/''" using assms by (auto simp: abs_dir_def plain_name_def)
  have c: "child_name d q = Some n \<longleftrightarrow>
      take (Suc (length d)) q = d @ [slash] \<and> n = drop (Suc (length d)) q \<and> plain_name n" for q
    using d by (auto simp: child_name_def Let_def)
  have A: "child_name d q = Some n \<longleftrightarrow> plain_name n \<and> q = d @ slash # n" for q
  proof
    assume "child_name d q = Some n"
    with c have "take (Suc (length d)) q @ drop (Suc (length d)) q = (d @ [slash]) @ n" and "plain_name n"
      by metis+
    then show "plain_name n \<and> q = d @ slash # n" by simp
  qed (simp add: c)
  have B: "n \<in> set (dir_names w d) \<longleftrightarrow> (\<exists>q \<in> fst ` set (files w). child_name d q = Some n)"
  proof -
    have "set (List.map_filter f xs) = {y. \<exists>x \<in> set xs. f x = Some y}" for f :: "string \<Rightarrow> string option" and xs
      by (induction xs) (auto simp: List.map_filter_simps split: option.splits)
    then show ?thesis using assms by (simp add: dir_names_def)
  qed
  have "(\<exists>q \<in> S. P \<and> q = a) \<longleftrightarrow> P \<and> a \<in> S" for S :: "string set" and P a by auto
  then have "n \<in> set (dir_names w d) \<longleftrightarrow> plain_name n \<and> d @ slash # n \<in> fst ` set (files w)"
    by (simp only: A B)
  moreover have "fget w (d @ slash # n) = None \<longleftrightarrow> d @ slash # n \<notin> fst ` set (files w)"
    if "plain_name n"
    using assms that by (simp only: fget_def clean_abs_snoc map_of_eq_None_iff)
  ultimately show ?thesis by (cases "plain_name n") simp_all
qed

lemma osReadDir_nil:
  "sched w = [] \<Longrightarrow> fget w p = Some Dir \<Longrightarrow>
     osReadDir p w = (Inr (map (\<lambda>n. (n, fget w (go_Join [p, n]) = Some Dir)) (dir_names w p)), w)"
  by (simp add: osReadDir_def with_fault_nil)

lemma osClose_snd [simp]: "fget (snd (osClose p w)) = fget w"
  by (rule osClose_frame [of p w "fst (osClose p w)"]) simp

lemma open_trunc_ok: "open_trunc p md w = (Inr m, w') \<Longrightarrow>
    clock w' = clock w \<and> fget w' = (\<lambda>x. if same_path p x then Some (File [] m (clock w)) else fget w x)"
  by (auto simp: open_trunc_def fails_def fun_eq_iff elim!: with_fault_cases split: option.splits node.splits)

lemma open_trunc_err: "open_trunc p md w = (Inl e, w') \<Longrightarrow> fget w' = fget w"
  by (auto simp: open_trunc_def fails_def elim!: with_fault_cases split: option.splits node.splits)

lemma write_bytes_ok: "write_bytes p c m w = (Inr u, w') \<Longrightarrow>
    fget w' = (\<lambda>x. if same_path p x then Some (File c m (clock w)) else fget w x)"
  by (auto simp: write_bytes_def fun_eq_iff elim!: with_fault_cases)

lemma write_bytes_off: "write_bytes p c m w = (r, w') \<Longrightarrow> \<not> same_path p x \<Longrightarrow> fget w' x = fget w x"
  by (auto simp: write_bytes_def elim!: with_fault_cases)

lemma osWriteFile_ok: "osWriteFile p c md w = (Inr u, w') \<Longrightarrow>
    \<exists>m. fget w' = (\<lambda>x. if same_path p x then Some (File c m (clock w)) else fget w x)"
  by (auto simp: osWriteFile_def fun_eq_iff dest!: open_trunc_ok write_bytes_ok osClose_frame
      split: prod.splits sum.splits)

lemma osWriteFile_off: "osWriteFile p c md w = (r, w') \<Longrightarrow> \<not> same_path p x \<Longrightarrow> fget w' x = fget w x"
  by (auto simp: osWriteFile_def dest!: open_trunc_ok open_trunc_err osClose_frame write_bytes_off [where x = x]
      split: prod.splits sum.splits)

lemma osReadFile_frame [frame]: "osReadFile p w = (r, w') \<Longrightarrow> fget w' = fget w"
proof -
  assume r: "osReadFile p w = (r, w')"
  obtain q w1 where o: "osOpen p w = (q, w1)" by fastforce
  then have "fget w1 = fget w" by (cases q) (auto dest: osOpen_ok osOpen_err)
  with r o show "fget w' = fget w"
    by (auto simp: osReadFile_def fails_def elim!: with_fault_cases
        split: prod.splits sum.splits option.splits node.splits)
qed

lemma osReadFile_ok: "osReadFile p w = (Inr c, w') \<Longrightarrow> \<exists>m t. fget w p = Some (File c m t)"
  by (auto simp: osReadFile_def fails_def dest!: osOpen_ok elim!: with_fault_cases
      split: prod.splits sum.splits option.splits node.splits)

text \<open>Without faults a file can be read, and one that is there can be written.\<close>

lemma osReadFile_nil:
  "sched w = [] \<Longrightarrow> fget w p = Some (File c m t) \<Longrightarrow> osReadFile p w = (Inr c, w)"
  by (simp add: osReadFile_def osOpen_def osClose_def with_fault_nil)

lemma osWriteFile_nil:
  "sched w = [] \<Longrightarrow> is_file (fget w p) \<Longrightarrow> fst (osWriteFile p c md w) = Inr ()"
  by (cases "fget w p" rule: is_file.cases)
     (simp_all add: osWriteFile_def open_trunc_def write_bytes_def osClose_def with_fault_nil)

end
