(* ===== verification/Copier.thy ===== *)
theory Copier
  imports GoOS
begin

text \<open>
  The atomic copy of a script: \<open>SidecarManager.atomicCopy\<close> of \<open>cmd/sidecar/main.go\<close> and
  \<open>ScriptCopier\<close> of \<open>internal/sidecar/copier.go\<close>, and the interface \<open>publisher\<close> that
  every loop over scripts relies on: a published destination is a complete executable copy of its source,
  or it is untouched.
\<close>

section \<open>SidecarManager.atomicCopy\<close>

text \<open>
  The code after the source is open, up to the return; the deferred close of the source follows it.
  Log lines are left out.
\<close>

definition copyOpened :: "string \<Rightarrow> string \<Rightarrow> world \<Rightarrow> goerror option \<times> world" where
  "copyOpened srcPath dstPath w1 =
     (let tmpPath = dstPath @ ''.tmp'' in
      case osCreate tmpPath w1 of
        (Inl err, w2) \<Rightarrow> (Some (''failed to create temp file: '' @ oserr_string err), w2)
      | (Inr _, w2) \<Rightarrow>
        (case ioCopy tmpPath srcPath w2 of
           (Inl err, w3) \<Rightarrow>
             (let w4 = snd (osClose tmpPath w3); w5 = snd (osRemove tmpPath w4)
              in (Some (''failed to copy file content: '' @ oserr_string err), w5))
         | (Inr bytesCopied, w3) \<Rightarrow>
           (case osClose tmpPath w3 of
              (Inl err, w4) \<Rightarrow>
                (Some (''failed to close temp file: '' @ oserr_string err), snd (osRemove tmpPath w4))
            | (Inr _, w4) \<Rightarrow>
              (case osChmod tmpPath 493 w4 of
                 (Inl err, w5) \<Rightarrow>
                   (Some (''failed to set executable permission: '' @ oserr_string err),
                    snd (osRemove tmpPath w5))
               | (Inr _, w5) \<Rightarrow>
                 (case osRename tmpPath dstPath w5 of
                    (Inl err, w6) \<Rightarrow>
                      (Some (''failed to rename file: '' @ oserr_string err),
                       snd (osRemove tmpPath w6))
                  | (Inr _, w6) \<Rightarrow> (None, w6))))))"

definition SidecarManager_atomicCopy ::
    "string \<Rightarrow> string \<Rightarrow> world \<Rightarrow> goerror option \<times> world" where
  "SidecarManager_atomicCopy srcPath dstPath w =
     (case osOpen srcPath w of
        (Inl err, w1) \<Rightarrow>
          (Some (''failed to open source file '' @ srcPath @ '': '' @ oserr_string err), w1)
      | (Inr _, w1) \<Rightarrow>
          (case copyOpened srcPath dstPath w1 of
             (r, w7) \<Rightarrow> (r, snd (osClose srcPath w7))))"

section \<open>ScriptCopier\<close>

record ScriptCopier =
  outputDir :: string

definition NewScriptCopier :: "string \<Rightarrow> ScriptCopier" where
  "NewScriptCopier dir = \<lparr>outputDir = dir\<rparr>"

definition ScriptCopier_atomicCopy ::
    "string \<Rightarrow> string \<Rightarrow> world \<Rightarrow> goerror option \<times> world" where
  "ScriptCopier_atomicCopy srcPath dstPath w =
     (case osOpen srcPath w of
        (Inl err, w1) \<Rightarrow>
          (Some (''failed to open source file '' @ srcPath @ '': '' @ oserr_string err), w1)
      | (Inr _, w1) \<Rightarrow>
          (let tmpPath = dstPath @ ''.tmp'';
               body =
                 (case osCreate tmpPath w1 of
                    (Inl err, w2) \<Rightarrow> (Some (''failed to create temp file: '' @ oserr_string err), w2)
                  | (Inr _, w2) \<Rightarrow>
                    (case ioCopy tmpPath srcPath w2 of
                       (Inl err, w3) \<Rightarrow>
                         (Some (''failed to copy file content: '' @ oserr_string err),
                          snd (osRemove tmpPath (snd (osClose tmpPath w3))))
                     | (Inr _, w3) \<Rightarrow>
                       (case osClose tmpPath w3 of
                          (Inl err, w4) \<Rightarrow>
                            (Some (''failed to close temp file: '' @ oserr_string err),
                             snd (osRemove tmpPath w4))
                        | (Inr _, w4) \<Rightarrow>
                          (case osChmod tmpPath 493 w4 of
                             (Inl err, w5) \<Rightarrow>
                               (Some (''failed to set executable permission: '' @ oserr_string err),
                                snd (osRemove tmpPath w5))
                           | (Inr _, w5) \<Rightarrow>
                             (case osRename tmpPath dstPath w5 of
                                (Inl err, w6) \<Rightarrow>
                                  (Some (''failed to rename file: '' @ oserr_string err),
                                   snd (osRemove tmpPath w6))
                              | (Inr _, w6) \<Rightarrow> (None, w6))))))
           in (fst body, snd (osClose srcPath (snd body)))))"

definition ScriptCopier_Copy ::
    "ScriptCopier \<Rightarrow> string \<Rightarrow> string \<Rightarrow> world \<Rightarrow> goerror option \<times> world" where
  "ScriptCopier_Copy c srcPath dstName w =
     (let dstPath = go_Join [outputDir c, dstName] in ScriptCopier_atomicCopy srcPath dstPath w)"

text \<open>\<open>CopyAll\<close> skips directories and stops at the first error.\<close>

definition CopyAll_entry ::
    "ScriptCopier \<Rightarrow> string \<Rightarrow> string \<times> bool \<Rightarrow> world \<Rightarrow> goerror option \<times> world" where
  "CopyAll_entry c srcDir entry w =
     (if snd entry then (None, w)
      else (case ScriptCopier_Copy c (go_Join [srcDir, fst entry]) (fst entry) w of
              (Some err, w1) \<Rightarrow> (Some (''failed to copy '' @ fst entry @ '': '' @ err), w1)
            | (None, w1) \<Rightarrow> (None, w1)))"

definition ScriptCopier_CopyAll ::
    "ScriptCopier \<Rightarrow> string \<Rightarrow> world \<Rightarrow> goerror option \<times> world" where
  "ScriptCopier_CopyAll c srcDir w =
     (case osReadDir srcDir w of
        (Inl err, w1) \<Rightarrow> (Some (''failed to read source directory: '' @ oserr_string err), w1)
      | (Inr entries, w1) \<Rightarrow> for_return (CopyAll_entry c srcDir) entries w1)"

section \<open>What one copy does\<close>

lemma tmp_other [simp]: "go_Clean (d @ ''.tmp'') \<noteq> go_Clean d"
  by (rule clean_suffix_ne) simp_all

lemma tmp_other' [simp]: "go_Clean d \<noteq> go_Clean (d @ ''.tmp'')"
  using tmp_other [of d] by (rule not_sym)

lemma osRemove_snd: "\<not> same_path p x \<Longrightarrow> fget (snd (osRemove p w)) x = fget w x"
  using osRemove_any [of p w "fst (osRemove p w)" "snd (osRemove p w)"] by auto

lemma copyOpened_ok:
  assumes "copyOpened s d w = (None, w')" and "\<not> same_path (d @ ''.tmp'') s"
  shows "\<exists>c m t t'. fget w s = Some (File c m t) \<and>
    fget w' = (\<lambda>x. if same_path d x then Some (File c 493 t')
                    else if same_path (d @ ''.tmp'') x then None else fget w x)"
proof -
  let ?t = "d @ ''.tmp''"
  obtain w2 w3 w4 w5 u2 n3 u4 u5 u6 where
    steps: "osCreate ?t w = (Inr u2, w2)" "ioCopy ?t s w2 = (Inr n3, w3)"
      "osClose ?t w3 = (Inr u4, w4)" "osChmod ?t 493 w4 = (Inr u5, w5)"
      "osRename ?t d w5 = (Inr u6, w')"
    using assms(1) by (auto simp: copyOpened_def Let_def split: prod.splits sum.splits)
  obtain m0 t0 where w2: "fget w2 = (\<lambda>q. if same_path ?t q then Some (File [] m0 t0) else fget w q)"
    using osCreate_ok [OF steps(1)] by blast
  obtain c m t m' t' where c: "fget w2 s = Some (File c m t)"
    and w3: "fget w3 = (\<lambda>q. if same_path ?t q then Some (File c m' t') else fget w2 q)"
    using ioCopy_ok [OF steps(2)] by blast
  have w4: "fget w4 = fget w3" by (rule osClose_frame [OF steps(3)])
  have w5: "fget w5 = (\<lambda>q. if same_path ?t q then Some (File c 493 t') else fget w4 q)"
    using osChmod_ok [OF steps(4)] by (simp add: w4 w3)
  have "fget w' = (\<lambda>x. if same_path d x then Some (File c 493 t')
      else if same_path ?t x then None else fget w5 x)"
    using osRename_ok [OF steps(5)] by (simp add: w5)
  then have "fget w' = (\<lambda>x. if same_path d x then Some (File c 493 t')
      else if same_path ?t x then None else fget w x)"
    by (simp add: w5 w4 w3 w2 fun_eq_iff)
  moreover have "fget w s = Some (File c m t)" using c assms(2) by (simp add: w2)
  ultimately show ?thesis by blast
qed

lemma osCreate_off: "osCreate p w = (r, w') \<Longrightarrow> \<not> same_path p x \<Longrightarrow> fget w' x = fget w x"
  by (cases r) (auto dest!: osCreate_ok osCreate_err)

lemma ioCopy_off: "ioCopy p s w = (r, w') \<Longrightarrow> \<not> same_path p x \<Longrightarrow> fget w' x = fget w x"
  by (cases r) (auto dest!: ioCopy_ok ioCopy_err)

lemma osChmod_off: "osChmod p md w = (r, w') \<Longrightarrow> \<not> same_path p x \<Longrightarrow> fget w' x = fget w x"
  by (auto simp: osChmod_def fails_def elim!: with_fault_cases split: option.splits node.splits)

lemma osClose_off: "osClose p w = (r, w') \<Longrightarrow> fget w' x = fget w x"
  by (simp add: osClose_frame)

lemma osRename_fail: "osRename p q w = (Inl e, w') \<Longrightarrow> fget w' x = fget w x"
  by (simp add: osRename_err)

lemma copyOpened_err:
  assumes "copyOpened s d w = (Some e, w')" and "\<not> same_path (d @ ''.tmp'') x"
  shows "fget w' x = fget w x"
  using assms
  by (auto simp: copyOpened_def Let_def osRemove_snd
      dest!: osCreate_off [where x = x] ioCopy_off [where x = x] osClose_off [where x = x]
        osChmod_off [where x = x] osRename_fail [where x = x]
      split: prod.splits sum.splits)

lemma atomicCopy_ok:
  assumes "SidecarManager_atomicCopy s d w = (None, w')" and "\<not> same_path (d @ ''.tmp'') s"
  shows "\<exists>c m t t'. fget w s = Some (File c m t) \<and>
    fget w' = (\<lambda>x. if same_path d x then Some (File c 493 t')
                    else if same_path (d @ ''.tmp'') x then None else fget w x)"
proof -
  obtain u w1 w7 where o: "osOpen s w = (Inr u, w1)" and c: "copyOpened s d w1 = (None, w7)"
    and w': "w' = snd (osClose s w7)"
    using assms(1) by (auto simp: SidecarManager_atomicCopy_def split: prod.splits sum.splits)
  have w1: "fget w1 = fget w" using osOpen_ok [OF o] by simp
  from copyOpened_ok [OF c assms(2)] show ?thesis unfolding w' w1 osClose_snd .
qed

lemma atomicCopy_err:
  assumes "SidecarManager_atomicCopy s d w = (Some e, w')" and "\<not> same_path (d @ ''.tmp'') x"
  shows "fget w' x = fget w x"
  using assms copyOpened_err [of s d _ _ _ x]
  by (auto simp: SidecarManager_atomicCopy_def dest: osOpen_ok osOpen_err
      split: prod.splits sum.splits)

lemma copiers_agree: "ScriptCopier_atomicCopy = SidecarManager_atomicCopy"
  by (intro ext) (simp only: ScriptCopier_atomicCopy_def SidecarManager_atomicCopy_def
      copyOpened_def Let_def case_prod_beta)

lemma copyOpened_clock: "copyOpened s d w = (r, w') \<Longrightarrow> clock w' = clock w"
  by (auto simp: copyOpened_def Let_def dest!: clock_step split: prod.splits sum.splits)

lemma atomicCopy_clock: "SidecarManager_atomicCopy s d w = (r, w') \<Longrightarrow> clock w' = clock w"
  by (auto simp: SidecarManager_atomicCopy_def dest!: clock_step copyOpened_clock
      split: prod.splits sum.splits)

lemma copyOpened_dir: "copyOpened s d w = (r, w') \<Longrightarrow> fget w' x = Some Dir \<Longrightarrow> fget w x = Some Dir"
  by (auto simp: copyOpened_def Let_def split: prod.splits sum.splits dest!: dir_step dir_frame)

lemma atomicCopy_dir:
  "SidecarManager_atomicCopy s d w = (r, w') \<Longrightarrow> fget w' x = Some Dir \<Longrightarrow> fget w x = Some Dir"
  by (auto simp: SidecarManager_atomicCopy_def
      split: prod.splits sum.splits dest!: copyOpened_dir dir_frame dir_step)

lemma atomicCopy_nil: "sched w = [] \<Longrightarrow> sched (snd (SidecarManager_atomicCopy s d w)) = []"
  by (auto simp: SidecarManager_atomicCopy_def copyOpened_def Let_def nil_frame
      split: prod.splits sum.splits dest!: nil_step)

text \<open>Without faults the copy succeeds when its obvious preconditions hold.\<close>

definition can_publish :: "world \<Rightarrow> string \<Rightarrow> string \<Rightarrow> bool" where
  "can_publish w s d \<longleftrightarrow>
     is_file (fget w s) \<and> fget w d \<noteq> Some Dir \<and> fget w (d @ ''.tmp'') \<noteq> Some Dir \<and>
     fget w (go_Dir d) = Some Dir \<and> fget w (go_Dir (d @ ''.tmp'')) = Some Dir \<and>
     \<not> same_path (d @ ''.tmp'') s \<and> \<not> same_path (d @ ''.tmp'') (go_Dir d)"

lemma is_fileE [elim]: "is_file x \<Longrightarrow> (\<And>c m t. x = Some (File c m t) \<Longrightarrow> thesis) \<Longrightarrow> thesis"
  by (cases x rule: is_file.cases) auto

lemma atomicCopy_progress:
  assumes "sched w = []" and "can_publish w s d"
  shows "\<exists>w'. SidecarManager_atomicCopy s d w = (None, w') \<and> sched w' = []"
proof -
  let ?t = "d @ ''.tmp''"
  obtain c m t where s: "fget w s = Some (File c m t)" using assms(2) by (auto simp: can_publish_def)
  have 1: "osOpen s w = (Inr (), w)" using assms(1) s by (simp add: osOpen_def with_fault_nil)
  obtain m2 where 2: "osCreate ?t w = (Inr (), fput ?t (File [] m2 (clock w)) w)" (is "_ = (_, ?w2)")
  proof (cases "fget w ?t")
    case None
    with assms that show thesis by (simp add: osCreate_def with_fault_nil can_publish_def)
  next
    case (Some nd)
    with assms that show thesis
      by (cases nd) (auto simp: osCreate_def with_fault_nil can_publish_def)
  qed
  let ?w3 = "fput ?t (File c m2 (clock w)) ?w2"
  have 3: "ioCopy ?t s ?w2 = (Inr (length c), ?w3)"
    using assms s by (simp add: ioCopy_def with_fault_nil can_publish_def)
  have 4: "osClose p v = (Inr (), v)" if "sched v = []" for p v
    using that by (simp add: osClose_def with_fault_nil)
  let ?w5 = "fput ?t (File c 493 (clock w)) ?w3"
  have 5: "osChmod ?t 493 ?w3 = (Inr (), ?w5)"
    using assms(1) by (simp add: osChmod_def with_fault_nil)
  let ?w6 = "fput d (File c 493 (clock w)) (fdel ?t ?w5)"
  have "fget ?w5 d = fget w d" "fget ?w5 (go_Dir d) = Some Dir"
    using assms(2) by (simp_all add: can_publish_def)
  then have 6: "osRename ?t d ?w5 = (Inr (), ?w6)"
    using assms by (cases "fget w d")
      (auto simp: osRename_def with_fault_nil can_publish_def split: node.splits)
  have "SidecarManager_atomicCopy s d w = (None, ?w6)"
    using assms(1)
    by (simp only: SidecarManager_atomicCopy_def copyOpened_def Let_def 1 2 3 5 6 4 world_fields
        prod.case sum.case snd_conv)
  then show ?thesis using assms(1) by (intro exI [of _ ?w6]) simp
qed

section \<open>The interface of everything that publishes scripts\<close>

text \<open>
  A job \<open>j\<close> has a source and a destination. A publication that reports success leaves an executable
  copy of the source at the destination and no temporary file; one that reports an error leaves everything
  but the temporary file as it was. The loops of the sidecar are runs of such jobs.
\<close>

abbreviation tmp_of :: "string \<Rightarrow> string" where
  "tmp_of d \<equiv> d @ ''.tmp''"

lemma path_eq_iff:
  "slash \<notin> set n \<Longrightarrow> slash \<notin> set n' \<Longrightarrow> d @ slash # n = d' @ slash # n' \<longleftrightarrow> d = d' \<and> n = n'"
proof
  assume n: "slash \<notin> set n" "slash \<notin> set n'" and eq: "d @ slash # n = d' @ slash # n'"
  have "split_char slash d @ [n] = split_char slash d' @ [n']"
    using arg_cong [OF eq, of "split_char slash"] n by (simp add: split_char_snoc)
  with eq show "d = d' \<and> n = n'" by simp
qed simp

lemma plain_tmp: "plain_name n \<Longrightarrow> plain_name (n @ ''.tmp'')"
  by (auto simp: plain_name_def dest: arg_cong [where f = length])

lemma plain_noslash [simp]: "plain_name n \<Longrightarrow> slash \<notin> set n"
  by (simp add: plain_name_def)

lemma joined:
  assumes "abs_dir d" and "plain_name n"
  shows "go_Join [d, n] = d @ slash # n" and "go_Clean (d @ slash # n) = d @ slash # n"
    and "go_Clean (tmp_of (d @ slash # n)) = d @ slash # tmp_of n"
    and "go_Clean (d @ slash # tmp_of n) = d @ slash # tmp_of n"
    and "go_Dir (d @ slash # n) = d" and "go_Dir (tmp_of (d @ slash # n)) = d"
    and "go_Dir (d @ slash # tmp_of n) = d"
  using assms plain_tmp [OF assms(2)] clean_abs_snoc [of d "tmp_of n"] dir_of_snoc [of d "tmp_of n"]
  by (simp_all add: join_dir_name clean_abs_snoc dir_of_snoc)

lemma src_out_apart:
  assumes "abs_dir s" "abs_dir out" "s \<noteq> out" "plain_name n" "plain_name n'"
  shows "\<not> same_path (go_Join [s, n]) (go_Join [out, n'])"
    and "\<not> same_path (go_Join [s, n]) (tmp_of (go_Join [out, n']))"
proof -
  note sl = plain_noslash [OF plain_tmp [OF assms(5)]] plain_noslash [OF assms(5)]
    plain_noslash [OF assms(4)]
  show "\<not> same_path (go_Join [s, n]) (go_Join [out, n'])"
    using assms(3) sl by (simp add: joined assms path_eq_iff)
  show "\<not> same_path (go_Join [s, n]) (tmp_of (go_Join [out, n']))"
    using assms(3) sl path_eq_iff [of n "tmp_of n'" s out] by (simp add: joined assms)
qed

text \<open>A set of names that can be published from one directory into another without clashes.\<close>

definition publishable :: "string \<Rightarrow> string \<Rightarrow> string set \<Rightarrow> bool" where
  "publishable s out ns \<longleftrightarrow> abs_dir s \<and> abs_dir out \<and> s \<noteq> out \<and>
     (\<forall>n \<in> ns. plain_name n \<and> n @ ''.tmp'' \<notin> ns)"

lemma publishable_apart:
  assumes "publishable s out ns" and "n \<in> ns" and "n' \<in> ns"
  shows "\<not> same_path (go_Join [s, n]) (go_Join [out, n'])"
    and "\<not> same_path (go_Join [s, n]) (tmp_of (go_Join [out, n']))"
    and "\<not> same_path (go_Join [out, n]) (tmp_of (go_Join [out, n']))"
    and "same_path (go_Join [out, n]) (go_Join [out, n']) \<longleftrightarrow> n = n'"
    and "same_path (tmp_of (go_Join [out, n])) (tmp_of (go_Join [out, n'])) \<longleftrightarrow> n = n'"
    and "\<not> same_path (go_Join [out, n]) out" and "\<not> same_path (tmp_of (go_Join [out, n])) out"
proof -
  have d: "abs_dir s" "abs_dir out" "s \<noteq> out" "plain_name n" "plain_name n'" "n \<noteq> tmp_of n'"
    using assms by (auto simp: publishable_def)
  note sl = plain_noslash [OF plain_tmp [OF d(5)]] plain_noslash [OF d(5)] plain_noslash [OF d(4)]
    plain_noslash [OF plain_tmp [OF d(4)]]
  show "\<not> same_path (go_Join [s, n]) (go_Join [out, n'])"
    "\<not> same_path (go_Join [s, n]) (tmp_of (go_Join [out, n']))"
    by (rule src_out_apart [OF d(1-5)])+
  show "\<not> same_path (go_Join [out, n]) (tmp_of (go_Join [out, n']))"
    using d(6) sl path_eq_iff [of n "tmp_of n'" out out] by (simp add: joined d)
  show "same_path (go_Join [out, n]) (go_Join [out, n']) \<longleftrightarrow> n = n'"
    using sl by (simp add: joined d path_eq_iff)
  show "same_path (tmp_of (go_Join [out, n])) (tmp_of (go_Join [out, n'])) \<longleftrightarrow> n = n'"
    using sl path_eq_iff [of "tmp_of n" "tmp_of n'" out out] by (simp add: joined d)
  show "\<not> same_path (go_Join [out, n]) out" "\<not> same_path (tmp_of (go_Join [out, n])) out"
    using d by (simp_all add: joined)
qed

definition published :: "world \<Rightarrow> string \<Rightarrow> node option \<Rightarrow> bool" where
  "published w s n \<longleftrightarrow> (\<exists>c m t t'. fget w s = Some (File c m t) \<and> n = Some (File c 493 t'))"

locale publisher =
  fixes pub :: "'j \<Rightarrow> world \<Rightarrow> goerror option \<times> world" and src dst :: "'j \<Rightarrow> string"
  assumes pub_ok: "pub j w = (None, w') \<Longrightarrow> \<not> same_path (tmp_of (dst j)) (src j) \<Longrightarrow>
      \<exists>c m t t'. fget w (src j) = Some (File c m t) \<and>
        fget w' = (\<lambda>x. if same_path (dst j) x then Some (File c 493 t')
                        else if same_path (tmp_of (dst j)) x then None else fget w x)"
    and pub_err: "pub j w = (Some e, w') \<Longrightarrow> \<not> same_path (tmp_of (dst j)) x \<Longrightarrow>
      fget w' x = fget w x"
begin

definition apart :: "'j list \<Rightarrow> bool" where
  "apart js \<longleftrightarrow> (\<forall>i \<in> set js. \<forall>j \<in> set js.
     \<not> same_path (src i) (dst j) \<and> \<not> same_path (src i) (tmp_of (dst j))
     \<and> \<not> same_path (dst i) (tmp_of (dst j)))"

lemma apartD:
  assumes "apart js" and "i \<in> set js" and "j \<in> set js"
  shows "\<not> same_path (src i) (dst j)" and "\<not> same_path (src i) (tmp_of (dst j))"
    and "\<not> same_path (dst i) (tmp_of (dst j))" and "\<not> same_path (tmp_of (dst j)) (src i)"
    and "\<not> same_path (tmp_of (dst i)) (dst j)"
  using assms unfolding apart_def by metis+

lemma apart_Cons: "apart (j # js) \<Longrightarrow> apart js"
  by (simp add: apart_def)

lemma pub_published:
  assumes "pub j w = (None, w')" and "\<not> same_path (tmp_of (dst j)) (src j)"
  shows "published w (src j) (fget w' (dst j))"
  using pub_ok [OF assms] by (auto simp: published_def)

lemma pub_frame:
  assumes "pub j w = (r, w')" and "\<not> same_path (tmp_of (dst j)) (src j)"
    and "\<not> same_path (dst j) x" and "\<not> same_path (tmp_of (dst j)) x"
  shows "fget w' x = fget w x"
proof (cases r)
  case None
  with pub_ok [of j w w'] assms show ?thesis by auto
next
  case (Some e)
  with pub_err [of j w e w'] assms show ?thesis by simp
qed

lemma pub_all_or_nothing:
  assumes "pub j w = (r, w')" and "\<not> same_path (tmp_of (dst j)) (src j)"
    and "\<not> same_path (tmp_of (dst j)) x"
  shows "fget w' x = fget w x \<or> same_path (dst j) x \<and> published w (src j) (fget w' x)"
proof (cases r)
  case None
  with assms(1) have "pub j w = (None, w')" by simp
  from pub_published [OF this assms(2)] show ?thesis
    using pub_frame [OF assms(1,2) _ assms(3)] fget_same [of "dst j" x w']
    by (cases "same_path (dst j) x") simp_all
next
  case (Some e)
  with pub_err [of j w e w' x] assms show ?thesis by simp
qed

lemma loop_frame:
  assumes "\<forall>j \<in> set js. \<not> same_path (tmp_of (dst j)) (src j)"
    and "\<forall>j \<in> set js. \<not> same_path (dst j) x \<and> \<not> same_path (tmp_of (dst j)) x"
  shows "fget (snd (for_continue pub js w)) x = fget w x"
proof (rule for_continue_inv [where I = "\<lambda>v. fget v x = fget w x"])
  fix j v assume "j \<in> set js" and "fget v x = fget w x"
  with pub_frame [of j v "fst (pub j v)" "snd (pub j v)" x] assms
  show "fget (snd (pub j v)) x = fget w x" by simp
qed simp

text \<open>
  The invariant of a loop over jobs whose files are apart: the sources are as at the start, and every
  file that is no temporary file is as at the start or a complete copy of a job's source.
\<close>

definition loop_inv :: "'j list \<Rightarrow> world \<Rightarrow> world \<Rightarrow> bool" where
  "loop_inv js w v \<longleftrightarrow>
     (\<forall>i \<in> set js. fget v (src i) = fget w (src i)) \<and>
     (\<forall>x. (\<forall>j \<in> set js. \<not> same_path (tmp_of (dst j)) x) \<longrightarrow>
        fget v x = fget w x \<or>
        (\<exists>j \<in> set js. same_path (dst j) x \<and> published w (src j) (fget v x)))"

lemma published_src: "published v s n \<Longrightarrow> fget v s = fget w s \<Longrightarrow> published w s n"
  by (simp add: published_def)

lemma loop_inv_step:
  assumes "apart js" and "j \<in> set js" and "loop_inv js w v"
  shows "loop_inv js w (snd (pub j v))"
proof -
  obtain r v' where p: "pub j v = (r, v')" by fastforce
  note ap = apartD [OF assms(1) _ assms(2)]
  have ts: "\<not> same_path (tmp_of (dst j)) (src j)" by (rule ap(4) [OF assms(2)])
  have srcs: "fget v' (src i) = fget w (src i)" if "i \<in> set js" for i
    using pub_frame [OF p ts ap(1,2) [OF that, THEN not_sym]] assms(3) that
    by (simp add: loop_inv_def)
  have "fget v' x = fget w x \<or> (\<exists>i \<in> set js. same_path (dst i) x \<and> published w (src i) (fget v' x))"
    if "\<forall>i \<in> set js. \<not> same_path (tmp_of (dst i)) x" for x
  proof -
    have "\<not> same_path (tmp_of (dst j)) x" using that assms(2) by blast
    from pub_all_or_nothing [OF p ts this] show ?thesis
    proof
      assume "fget v' x = fget v x"
      then show ?thesis using assms(3) that by (simp add: loop_inv_def)
    next
      assume "same_path (dst j) x \<and> published v (src j) (fget v' x)"
      moreover have "fget v (src j) = fget w (src j)"
        using assms(2,3) by (simp add: loop_inv_def)
      ultimately show ?thesis using assms(2) published_src by blast
    qed
  qed
  with srcs show ?thesis by (simp add: loop_inv_def p)
qed

lemma loop_inv_start: "loop_inv js w w"
  by (simp add: loop_inv_def)

lemma continue_all_or_nothing:
  assumes "apart js" and "\<forall>j \<in> set js. \<not> same_path (tmp_of (dst j)) x"
  shows "fget (snd (for_continue pub js w)) x = fget w x \<or>
    (\<exists>j \<in> set js. same_path (dst j) x \<and> published w (src j) (fget (snd (for_continue pub js w)) x))"
proof -
  have "loop_inv js w (snd (for_continue pub js w))"
    by (rule for_continue_inv [where I = "loop_inv js w"])
       (simp_all add: loop_inv_step [OF assms(1)] loop_inv_start)
  with assms(2) show ?thesis by (simp add: loop_inv_def)
qed

text \<open>When every job reports success, every destination of its own is published.\<close>

lemma continue_full:
  assumes "for_continue pub js w = (length js, w')" and "apart js"
    and "distinct (map (go_Clean \<circ> dst) js)"
  shows "\<forall>j \<in> set js. published w (src j) (fget w' (dst j))"
  using assms
proof (induction js arbitrary: w)
  case Nil
  then show ?case by simp
next
  case (Cons j js)
  obtain r w1 where p: "pub j w = (r, w1)" by fastforce
  obtain n w2 where rest: "for_continue pub js w1 = (n, w2)" by fastforce
  have "n \<le> length js" using for_continue_le [of pub js w1] rest by simp
  with Cons.prems(1) p rest have r: "r = None" and n: "n = length js" and w2: "w2 = w'"
    by (auto split: option.splits)
  have j: "j \<in> set (j # js)" by simp
  note ap = apartD [OF Cons.prems(2)]
  have head: "published w (src j) (fget w1 (dst j))"
    using p ap(4) [OF j j] unfolding r by (rule pub_published)
  have "fget w' (dst j) = fget w1 (dst j)"
  proof -
    have "\<forall>i \<in> set js. \<not> same_path (dst i) (dst j) \<and> \<not> same_path (tmp_of (dst i)) (dst j)"
      using Cons.prems(3) ap(5) [OF _ j] by (auto simp: image_iff)
    moreover have "\<forall>i \<in> set js. \<not> same_path (tmp_of (dst i)) (src i)" using ap(4) by simp
    ultimately show ?thesis using loop_frame [of js "dst j" w1] rest w2 by simp
  qed
  moreover have "published w (src i) (fget w' (dst i))" if i: "i \<in> set js" for i
  proof -
    have i': "i \<in> set (j # js)" using i by simp
    have "apart js" using Cons.prems(2) by (rule apart_Cons)
    then have "published w1 (src i) (fget w' (dst i))"
      using Cons.IH [of w1] Cons.prems(3) rest n w2 i by simp
    moreover have "fget w1 (src i) = fget w (src i)"
      by (rule pub_frame [OF p ap(4) [OF j j] ap(1,2) [OF i' j, THEN not_sym]])
    ultimately show ?thesis by (rule published_src)
  qed
  ultimately show ?case using head by simp
qed

text \<open>
  A run in which a job can only fail for want of a source: every job that has one is published, whatever
  the others do. \<open>R\<close> says that nothing else stands in the way.
\<close>

lemma continue_progress:
  assumes "apart js" and "distinct (map (go_Clean \<circ> dst) js)" and "R w"
    and "\<And>j v. j \<in> set js \<Longrightarrow> R v \<Longrightarrow> R (snd (pub j v))"
    and "\<And>j v. j \<in> set js \<Longrightarrow> R v \<Longrightarrow> is_file (fget v (src j)) \<Longrightarrow> fst (pub j v) = None"
  shows "\<forall>j \<in> set js. is_file (fget w (src j)) \<longrightarrow>
    published w (src j) (fget (snd (for_continue pub js w)) (dst j))"
  using assms
proof (induction js arbitrary: w)
  case Nil
  then show ?case by simp
next
  case (Cons j js)
  obtain r w1 where p: "pub j w = (r, w1)" by fastforce
  have j: "j \<in> set (j # js)" by simp
  note ap = apartD [OF Cons.prems(1)]
  have w': "snd (for_continue pub (j # js) w) = snd (for_continue pub js w1)" (is "_ = ?w'")
    by (simp add: p split: option.split prod.split)
  have "R w1" using Cons.prems(4) [OF j Cons.prems(3)] p by simp
  with Cons have IH: "\<forall>i \<in> set js. is_file (fget w1 (src i)) \<longrightarrow> published w1 (src i) (fget ?w' (dst i))"
    by (simp add: apart_def)
  have keep: "fget w1 (src i) = fget w (src i)" if "i \<in> set js" for i
    using that by (intro pub_frame [OF p ap(4) [OF j j]] ap(1,2) [OF _ j, THEN not_sym]) simp_all
  have "published w (src j) (fget ?w' (dst j))" if f: "is_file (fget w (src j))"
  proof -
    have "r = None" using Cons.prems(5) [OF j Cons.prems(3) f] p by simp
    with p have "published w (src j) (fget w1 (dst j))"
      by (intro pub_published ap(4) [OF j j]) simp
    moreover have "\<forall>i \<in> set js. \<not> same_path (dst i) (dst j) \<and> \<not> same_path (tmp_of (dst i)) (dst j)"
      using Cons.prems(2) ap(5) [OF _ j] by (auto simp: image_iff)
    moreover have "\<forall>i \<in> set js. \<not> same_path (tmp_of (dst i)) (src i)" using ap(4) by simp
    ultimately show ?thesis using loop_frame [of js "dst j" w1] by simp
  qed
  moreover have "published w (src i) (fget ?w' (dst i))" if "i \<in> set js" "is_file (fget w (src i))" for i
    using IH that keep published_src [of w1 "src i"] by simp
  ultimately show ?case unfolding w' by auto
qed

lemma return_all_or_nothing:
  assumes "apart js" and "\<forall>j \<in> set js. \<not> same_path (tmp_of (dst j)) x"
  shows "fget (snd (for_return pub js w)) x = fget w x \<or>
    (\<exists>j \<in> set js. same_path (dst j) x \<and> published w (src j) (fget (snd (for_return pub js w)) x))"
proof -
  have "loop_inv js w (snd (for_return pub js w))"
    by (rule for_return_inv [where I = "loop_inv js w"])
       (simp_all add: loop_inv_step [OF assms(1)] loop_inv_start)
  with assms(2) show ?thesis by (simp add: loop_inv_def)
qed

lemma return_frame:
  assumes "for_return pub js w = (r, w')" and "\<forall>j \<in> set js. \<not> same_path (tmp_of (dst j)) (src j)"
    and "\<forall>j \<in> set js. \<not> same_path (dst j) x \<and> \<not> same_path (tmp_of (dst j)) x"
  shows "fget w' x = fget w x"
proof -
  have "fget (snd (for_return pub js w)) x = fget w x"
  proof (rule for_return_inv [where I = "\<lambda>v. fget v x = fget w x"])
    fix j v assume "j \<in> set js" and "fget v x = fget w x"
    with pub_frame [of j v "fst (pub j v)" "snd (pub j v)" x] assms(2,3)
    show "fget (snd (pub j v)) x = fget w x" by simp
  qed simp
  with assms(1) show ?thesis by simp
qed

text \<open>
  A loop that returns the first error has published the jobs before it and left the destinations of the
  others as they were.
\<close>

lemma return_stops:
  assumes "for_return pub js w = (Some e, w')" and "apart js" and "distinct (map (go_Clean \<circ> dst) js)"
  shows "\<exists>ys j zs. js = ys @ j # zs \<and> (\<forall>i \<in> set ys. published w (src i) (fget w' (dst i))) \<and>
    (\<forall>i \<in> set (j # zs). fget w' (dst i) = fget w (dst i))"
proof -
  obtain ys j zs v where js: "js = ys @ j # zs" and ys: "for_return pub ys w = (None, v)"
    and j: "pub j v = (Some e, w')"
    by (rule for_return_stop [OF assms(1)])
  note ap = apartD [OF assms(2)]
  have "apart ys" using assms(2) by (auto simp: js apart_def)
  with assms(3) have pubs: "\<forall>i \<in> set ys. published w (src i) (fget v (dst i))"
    by (intro continue_full [OF for_return_all [OF ys]]) (simp_all add: js)
  have last: "fget w' (dst i) = fget v (dst i)" if "i \<in> set js" for i
    using pub_err [OF j ap(5) [OF _ that]] by (simp add: js)
  have "fget v (dst i) = fget w (dst i)" if i: "i \<in> set (j # zs)" for i
  proof (rule return_frame [OF ys])
    show "\<forall>k \<in> set ys. \<not> same_path (tmp_of (dst k)) (src k)" using ap(4) by (simp add: js)
    show "\<forall>k \<in> set ys. \<not> same_path (dst k) (dst i) \<and> \<not> same_path (tmp_of (dst k)) (dst i)"
      using assms(3) ap(5) [of _ i] i by (auto simp: js image_iff disjoint_iff)
  qed
  with pubs last show ?thesis by (intro exI [of _ ys] exI [of _ j] exI [of _ zs]) (simp add: js)
qed

end

text \<open>Both copiers provide the interface; a job of theirs is a pair of paths.\<close>

interpretation mgr: publisher "\<lambda>(s, d). SidecarManager_atomicCopy s d" fst snd
proof unfold_locales
  fix j w w' assume "(case j of (s, d) \<Rightarrow> SidecarManager_atomicCopy s d) w = (None, w')"
    and "\<not> same_path (tmp_of (snd j)) (fst j)"
  then show "\<exists>c m t t'. fget w (fst j) = Some (File c m t) \<and>
        fget w' = (\<lambda>x. if same_path (snd j) x then Some (File c 493 t')
                        else if same_path (tmp_of (snd j)) x then None else fget w x)"
    by (intro atomicCopy_ok) (simp_all add: case_prod_beta)
next
  fix j w e w' x assume "(case j of (s, d) \<Rightarrow> SidecarManager_atomicCopy s d) w = (Some e, w')"
    and "\<not> same_path (tmp_of (snd j)) x"
  then show "fget w' x = fget w x" by (intro atomicCopy_err) (simp_all add: case_prod_beta)
qed

interpretation scp: publisher "\<lambda>name. ScriptCopier_Copy c (go_Join [srcDir, name]) name"
    "\<lambda>name. go_Join [srcDir, name]" "\<lambda>name. go_Join [outputDir c, name]" for c srcDir
proof unfold_locales
  fix j w w' assume "ScriptCopier_Copy c (go_Join [srcDir, j]) j w = (None, w')"
    and "\<not> same_path (tmp_of (go_Join [outputDir c, j])) (go_Join [srcDir, j])"
  then show "\<exists>ca m t t'. fget w (go_Join [srcDir, j]) = Some (File ca m t) \<and>
        fget w' = (\<lambda>x. if same_path (go_Join [outputDir c, j]) x then Some (File ca 493 t')
                        else if same_path (tmp_of (go_Join [outputDir c, j])) x then None
                        else fget w x)"
    unfolding ScriptCopier_Copy_def copiers_agree Let_def by (rule atomicCopy_ok)
next
  fix j w e w' x assume "ScriptCopier_Copy c (go_Join [srcDir, j]) j w = (Some e, w')"
    and "\<not> same_path (tmp_of (go_Join [outputDir c, j])) x"
  then show "fget w' x = fget w x"
    unfolding ScriptCopier_Copy_def copiers_agree Let_def by (rule atomicCopy_err)
qed

lemma scp_apart: "publishable s (outputDir c) (set ns) \<Longrightarrow> scp.apart s c ns"
  by (auto simp: scp.apart_def publishable_apart)

end
