(* ===== verification/Watcher.thy ===== *)
theory Watcher
  imports Copier
begin

text \<open>
  \<open>FileWatcher\<close> of \<open>internal/sidecar/watcher.go\<close>: it polls a directory, compares the modification
  time of every regular file with the one recorded for it and copies what changed. \<open>timeString\<close> stands
  for Go's \<open>time.Time.String\<close>; only the incremental properties need it to be injective.
\<close>

section \<open>The watcher\<close>

record FileWatcher =
  srcDir :: string
  copier :: ScriptCopier
  interval :: nat
  fileHashes :: "string \<rightharpoonup> string"

definition NewFileWatcher :: "string \<Rightarrow> string \<Rightarrow> nat \<Rightarrow> FileWatcher" where
  "NewFileWatcher src out iv =
     \<lparr>srcDir = src, copier = NewScriptCopier out, interval = iv, fileHashes = Map.empty\<rparr>"

definition getFileHash :: "(nat \<Rightarrow> string) \<Rightarrow> string \<Rightarrow> nat \<Rightarrow> string" where
  "getFileHash timeString path modTime = timeString modTime"

text \<open>\<open>info.ModTime()\<close>; the directory case is not reached, directories are skipped before.\<close>

fun modTime_of :: "node \<Rightarrow> nat" where
  "modTime_of (File c m t) = t"
| "modTime_of Dir = 0"

definition sync_entry ::
    "(nat \<Rightarrow> string) \<Rightarrow> string \<times> bool \<Rightarrow> FileWatcher \<times> world \<Rightarrow> FileWatcher \<times> world" where
  "sync_entry timeString entry fww =
     (case fww of (fw, w) \<Rightarrow>
      (if snd entry then (fw, w)
       else
        (let srcPath = go_Join [srcDir fw, fst entry] in
         case osStat srcPath w of
           (Inl err, w1) \<Rightarrow> (fw, w1)
         | (Inr info, w1) \<Rightarrow>
             (let currentHash = getFileHash timeString srcPath (modTime_of info) in
              if fileHashes fw (fst entry) \<noteq> Some currentHash
              then (case ScriptCopier_Copy (copier fw) srcPath (fst entry) w1 of
                      (Some err, w2) \<Rightarrow> (fw, w2)
                    | (None, w2) \<Rightarrow>
                        (fw\<lparr>fileHashes := (fileHashes fw)(fst entry \<mapsto> currentHash)\<rparr>, w2))
              else (fw, w1)))))"

definition sync_entries ::
    "(nat \<Rightarrow> string) \<Rightarrow> (string \<times> bool) list \<Rightarrow> FileWatcher \<times> world \<Rightarrow> FileWatcher \<times> world" where
  "sync_entries timeString entries fww = fold (sync_entry timeString) entries fww"

definition FileWatcher_sync ::
    "(nat \<Rightarrow> string) \<Rightarrow> FileWatcher \<Rightarrow> world \<Rightarrow> goerror option \<times> FileWatcher \<times> world" where
  "FileWatcher_sync timeString fw w =
     (case osReadDir (srcDir fw) w of
        (Inl err, w1) \<Rightarrow> (Some (oserr_string err), fw, w1)
      | (Inr entries, w1) \<Rightarrow> (None, sync_entries timeString entries (fw, w1)))"

text \<open>
  \<open>Start\<close>: one synchronisation, then one per tick until the context is done. The choices of
  \<open>select\<close> are the input; a tick carries what the rest of the system did since the last one.
\<close>

datatype select = CtxDone | Tick "world \<Rightarrow> world"

fun Start_loop ::
    "(nat \<Rightarrow> string) \<Rightarrow> select list \<Rightarrow> FileWatcher \<Rightarrow> world \<Rightarrow> bool \<times> FileWatcher \<times> world" where
  "Start_loop timeString [] fw w = (False, fw, w)"
| "Start_loop timeString (CtxDone # ss) fw w = (True, fw, w)"
| "Start_loop timeString (Tick env # ss) fw w =
     (case FileWatcher_sync timeString fw (env w) of
        (_, fw1, w1) \<Rightarrow> Start_loop timeString ss fw1 w1)"

definition FileWatcher_Start ::
    "(nat \<Rightarrow> string) \<Rightarrow> select list \<Rightarrow> FileWatcher \<Rightarrow> world \<Rightarrow> bool \<times> FileWatcher \<times> world" where
  "FileWatcher_Start timeString ss fw w =
     (case FileWatcher_sync timeString fw w of
        (_, fw1, w1) \<Rightarrow> Start_loop timeString ss fw1 w1)"

section \<open>The recorded hashes\<close>

text \<open>
  The invariant: where the recorded hash is the one of the source as it is now, the output is an
  executable copy of it.
\<close>

definition recorded_ok :: "(nat \<Rightarrow> string) \<Rightarrow> string set \<Rightarrow> FileWatcher \<Rightarrow> world \<Rightarrow> bool" where
  "recorded_ok timeString ns fw w \<longleftrightarrow>
     (\<forall>n \<in> ns. \<forall>c m t. fget w (go_Join [srcDir fw, n]) = Some (File c m t)
        \<longrightarrow> fileHashes fw n = Some (timeString t)
        \<longrightarrow> (\<exists>t'. fget w (go_Join [outputDir (copier fw), n]) = Some (File c 493 t')))"

lemma recorded_ok_cong:
  assumes "recorded_ok ts ns fw w"
    and "\<And>n. n \<in> ns \<Longrightarrow> fget w' (go_Join [srcDir fw, n]) = fget w (go_Join [srcDir fw, n])"
    and "\<And>n. n \<in> ns \<Longrightarrow>
      fget w' (go_Join [outputDir (copier fw), n]) = fget w (go_Join [outputDir (copier fw), n])"
  shows "recorded_ok ts ns fw w'"
  using assms by (simp add: recorded_ok_def)

text \<open>What one entry does to a watcher, by cases.\<close>

lemma sync_entry_cases:
  assumes "sync_entry ts entry (fw, w) = (fw', w')"
  obtains (skip) "fw' = fw" and "fget w' = fget w"
  | (failed) w1 e where "fw' = fw" and "fget w1 = fget w"
      "ScriptCopier_Copy (copier fw) (go_Join [srcDir fw, fst entry]) (fst entry) w1 = (Some e, w')"
  | (copied) w1 nd where
      "fw' = fw\<lparr>fileHashes := (fileHashes fw)(fst entry \<mapsto> ts (modTime_of nd))\<rparr>"
      "fget w1 = fget w" "fget w (go_Join [srcDir fw, fst entry]) = Some nd"
      "ScriptCopier_Copy (copier fw) (go_Join [srcDir fw, fst entry]) (fst entry) w1 = (None, w')"
proof -
  let ?s = "go_Join [srcDir fw, fst entry]"
  obtain r w1 where st: "osStat ?s w = (r, w1)" by fastforce
  obtain q w2 where cp: "ScriptCopier_Copy (copier fw) ?s (fst entry) w1 = (q, w2)" by fastforce
  have w1: "fget w1 = fget w" using st by (rule osStat_frame)
  show thesis
  proof (cases r)
    case (Inl e)
    then show thesis using assms st w1 skip by (auto simp: sync_entry_def split: if_splits)
  next
    case (Inr nd)
    then have nd: "fget w ?s = Some nd" using osStat_ok st by simp
    show thesis
      using assms st w1 Inr cp nd skip failed [of w1] copied [of nd w1]
      by (cases q) (auto simp: sync_entry_def Let_def getFileHash_def split: if_splits)
  qed
qed

lemma sync_entry_fields:
  "sync_entry ts entry (fw, w) = (fw', w') \<Longrightarrow> srcDir fw' = srcDir fw \<and> copier fw' = copier fw"
  by (erule sync_entry_cases) auto

text \<open>One entry keeps the sources and every output but its own; the invariant survives it.\<close>

lemma sync_entry_off:
  assumes "sync_entry ts entry (fw, w) = (fw', w')"
    and "publishable (srcDir fw) (outputDir (copier fw)) ns" and "fst entry \<in> ns"
    and "\<not> same_path (go_Join [outputDir (copier fw), fst entry]) x"
    and "\<not> same_path (tmp_of (go_Join [outputDir (copier fw), fst entry])) x"
  shows "fget w' x = fget w x"
proof -
  note ts = publishable_apart(2) [OF assms(2) assms(3) assms(3), THEN not_sym]
  show ?thesis
    using assms(1)
  proof (cases rule: sync_entry_cases)
    case skip
    then show ?thesis by simp
  next
    case (failed w1 e)
    show ?thesis using scp.pub_frame [OF failed(3) ts assms(4,5)] failed(2) by simp
  next
    case (copied w1 nd)
    show ?thesis using scp.pub_frame [OF copied(4) ts assms(4,5)] copied(2) by simp
  qed
qed

lemma sync_entry_src:
  assumes "sync_entry ts entry (fw, w) = (fw', w')"
    and "publishable (srcDir fw) (outputDir (copier fw)) ns" and "fst entry \<in> ns" and "plain_name n"
  shows "fget w' (go_Join [srcDir fw, n]) = fget w (go_Join [srcDir fw, n])"
proof -
  have d: "abs_dir (srcDir fw)" "abs_dir (outputDir (copier fw))" "srcDir fw \<noteq> outputDir (copier fw)"
    "plain_name (fst entry)"
    using assms(2,3) by (auto simp: publishable_def)
  show ?thesis
    by (rule sync_entry_off [OF assms(1-3) src_out_apart [OF d(1-3) assms(4) d(4), THEN not_sym]])
qed

lemma sync_entry_frame:
  assumes "sync_entry ts entry (fw, w) = (fw', w')"
    and "publishable (srcDir fw) (outputDir (copier fw)) ns" and "fst entry \<in> ns" and "n \<in> ns"
  shows "fget w' (go_Join [srcDir fw, n]) = fget w (go_Join [srcDir fw, n])"
    and "n \<noteq> fst entry \<Longrightarrow>
      fget w' (go_Join [outputDir (copier fw), n]) = fget w (go_Join [outputDir (copier fw), n])"
proof -
  have "plain_name n" using assms(2,4) by (simp add: publishable_def)
  then show "fget w' (go_Join [srcDir fw, n]) = fget w (go_Join [srcDir fw, n])"
    by (rule sync_entry_src [OF assms(1-3)])
  show "fget w' (go_Join [outputDir (copier fw), n]) = fget w (go_Join [outputDir (copier fw), n])"
    if "n \<noteq> fst entry"
    using sync_entry_off [OF assms(1-3)] publishable_apart(3,4) [OF assms(2) assms(4) assms(3)] that
    by metis
qed

lemma sync_entry_recorded:
  assumes "sync_entry ts entry (fw, w) = (fw', w')"
    and "publishable (srcDir fw) (outputDir (copier fw)) ns" and "fst entry \<in> ns"
    and "recorded_ok ts ns fw w"
  shows "recorded_ok ts ns fw' w'"
  using assms(1)
proof (cases rule: sync_entry_cases)
  case skip
  with assms(4) show ?thesis by (auto intro: recorded_ok_cong)
next
  case (failed w1 e)
  have "fget w' (go_Join [outputDir (copier fw), n]) = fget w (go_Join [outputDir (copier fw), n])"
    if "n \<in> ns" for n
    using scp.pub_err [OF failed(3), of "go_Join [outputDir (copier fw), n]"] failed(2)
      publishable_apart(3) [OF assms(2) that assms(3)] by metis
  with assms(4) sync_entry_frame(1) [OF assms(1-3)] failed(1) show ?thesis
    by (auto intro: recorded_ok_cong)
next
  case (copied w1 nd)
  have "published w1 (go_Join [srcDir fw, fst entry])
      (fget w' (go_Join [outputDir (copier fw), fst entry]))"
    by (rule scp.pub_published [OF copied(4)
          publishable_apart(2) [OF assms(2) assms(3) assms(3), THEN not_sym]])
  then have "published w (go_Join [srcDir fw, fst entry])
      (fget w' (go_Join [outputDir (copier fw), fst entry]))"
    by (simp add: published_def copied(2))
  moreover note sync_entry_frame [OF assms(1-3)]
  ultimately show ?thesis
    using assms(3,4) copied(1) unfolding recorded_ok_def published_def
    by (simp, metis node.inject option.inject)
qed

section \<open>A whole synchronisation\<close>

text \<open>
  The times recorded and seen are not in the future. Together with \<open>recorded_ok\<close> this is the invariant of
  the polling loop: an edit gets a later modification time, so its hash is a new one.
\<close>

definition times_ok :: "(nat \<Rightarrow> string) \<Rightarrow> string set \<Rightarrow> FileWatcher \<Rightarrow> world \<Rightarrow> bool" where
  "times_ok ts ns fw w \<longleftrightarrow>
     (\<forall>n \<in> ns. \<forall>nd. fget w (go_Join [srcDir fw, n]) = Some nd \<longrightarrow> modTime_of nd \<le> clock w) \<and>
     (\<forall>n \<in> ns. \<forall>h. fileHashes fw n = Some h \<longrightarrow> (\<exists>t \<le> clock w. h = ts t))"

definition watch_inv :: "(nat \<Rightarrow> string) \<Rightarrow> string set \<Rightarrow> FileWatcher \<Rightarrow> world \<Rightarrow> bool" where
  "watch_inv ts ns fw w \<longleftrightarrow>
     recorded_ok ts ns fw w \<and> times_ok ts ns fw w \<and> set (dir_names w (srcDir fw)) \<subseteq> ns"

lemma ScriptCopier_Copy_clock: "ScriptCopier_Copy c s n w = (r, w') \<Longrightarrow> clock w' = clock w"
  by (auto simp: ScriptCopier_Copy_def copiers_agree dest: atomicCopy_clock)

lemma sync_entry_clock:
  assumes "sync_entry ts entry (fw, w) = (fw', w')"
  shows "clock w' = clock w"
  using assms
  by (auto simp: sync_entry_def Let_def dest!: clock_step ScriptCopier_Copy_clock
      split: if_splits prod.splits sum.splits option.splits)

lemma sync_entry_times:
  assumes "sync_entry ts entry (fw, w) = (fw', w')"
    and "publishable (srcDir fw) (outputDir (copier fw)) ns" and "fst entry \<in> ns"
    and "times_ok ts ns fw w"
  shows "times_ok ts ns fw' w'"
proof -
  have fields: "srcDir fw' = srcDir fw" using sync_entry_fields [OF assms(1)] by simp
  have hashes: "\<exists>t \<le> clock w. h = ts t" if "n \<in> ns" "fileHashes fw' n = Some h" for n h
    using assms(1)
  proof (cases rule: sync_entry_cases)
    case (copied w1 nd)
    with assms(3,4) that show ?thesis by (auto simp: times_ok_def split: if_splits)
  qed (use assms(4) that in \<open>auto simp: times_ok_def\<close>)
  show ?thesis
    using assms(4) hashes sync_entry_frame(1) [OF assms(1-3)] sync_entry_clock [OF assms(1)] fields
    by (simp add: times_ok_def)
qed

lemma sync_entry_names:
  assumes "sync_entry ts entry (fw, w) = (fw', w')"
    and "publishable (srcDir fw) (outputDir (copier fw)) ns" and "fst entry \<in> ns"
  shows "set (dir_names w' (srcDir fw)) = set (dir_names w (srcDir fw))"
proof -
  have d: "abs_dir (srcDir fw)" using assms(2) by (simp add: publishable_def)
  have "fget w' (srcDir fw @ slash # n) = fget w (srcDir fw @ slash # n)" if "plain_name n" for n
    using sync_entry_src [OF assms that] by (simp add: joined d that)
  then show ?thesis by (auto simp: dir_names_iff [OF d])
qed

lemma sync_entry_inv:
  assumes "sync_entry ts entry (fw, w) = (fw', w')"
    and "publishable (srcDir fw) (outputDir (copier fw)) ns" and "fst entry \<in> ns"
    and "watch_inv ts ns fw w"
  shows "watch_inv ts ns fw' w'"
  using assms sync_entry_recorded [OF assms(1-3)] sync_entry_times [OF assms(1-3)]
    sync_entry_names [OF assms(1-3)] sync_entry_fields [OF assms(1)]
  by (simp add: watch_inv_def)

lemma sync_entries_inv:
  assumes "sync_entries ts es (fw, w) = (fw', w')"
    and "publishable (srcDir fw) (outputDir (copier fw)) ns" and "fst ` set es \<subseteq> ns"
    and "watch_inv ts ns fw w"
  shows "watch_inv ts ns fw' w' \<and> srcDir fw' = srcDir fw \<and> copier fw' = copier fw"
  using assms
proof (induction es arbitrary: fw w)
  case Nil
  then show ?case by (simp add: sync_entries_def)
next
  case (Cons e es)
  obtain fw1 w1 where st: "sync_entry ts e (fw, w) = (fw1, w1)" by fastforce
  have rest: "sync_entries ts es (fw1, w1) = (fw', w')"
    using Cons.prems(1) st by (simp add: sync_entries_def)
  have e: "fst e \<in> ns" "fst ` set es \<subseteq> ns" using Cons.prems(3) by simp_all
  note f = sync_entry_fields [OF st]
  from Cons.IH [OF rest _ e(2) sync_entry_inv [OF st Cons.prems(2) e(1) Cons.prems(4)]]
  show ?case using f Cons.prems(2) by simp
qed

lemma sync_inv:
  assumes "FileWatcher_sync ts fw w = (r, fw', w')"
    and "publishable (srcDir fw) (outputDir (copier fw)) ns" and "watch_inv ts ns fw w"
  shows "watch_inv ts ns fw' w' \<and> srcDir fw' = srcDir fw \<and> copier fw' = copier fw"
proof -
  obtain q w1 where rd: "osReadDir (srcDir fw) w = (q, w1)" by fastforce
  have d: "abs_dir (srcDir fw)" using assms(2) by (simp add: publishable_def)
  have w1: "fget w1 = fget w" "clock w1 = clock w"
    using osReadDir_frame [OF rd] clock_step(9) [OF rd] by simp_all
  have inv: "watch_inv ts ns fw w1"
    using assms(3) unfolding watch_inv_def recorded_ok_def times_ok_def subset_iff
      dir_names_iff [OF d] w1 .
  show ?thesis
  proof (cases q)
    case (Inl e)
    with assms(1) rd inv show ?thesis by (auto simp: FileWatcher_sync_def)
  next
    case (Inr es)
    then have "fst ` set es = set (dir_names w (srcDir fw))"
      using osReadDir_ok(1) [of "srcDir fw" w es w1] rd by force
    then have "fst ` set es \<subseteq> ns" using assms(3) by (simp add: watch_inv_def)
    with Inr assms(1,2) rd inv sync_entries_inv [of ts es fw w1 fw' w' ns] show ?thesis
      by (simp add: FileWatcher_sync_def)
  qed
qed

section \<open>The polling loop under edits\<close>

text \<open>
  What may happen between two ticks: nobody but the watcher writes the outputs (the business containers mount
  them read-only), the names stay in \<open>ns\<close>, and a source that is rewritten gets a modification time later than
  the clock read before.
\<close>

definition edits :: "string \<Rightarrow> string \<Rightarrow> string set \<Rightarrow> (world \<Rightarrow> world) \<Rightarrow> bool" where
  "edits s out ns env \<longleftrightarrow>
     (\<forall>w. set (dir_names w s) \<subseteq> ns \<longrightarrow>
        clock w \<le> clock (env w) \<and> set (dir_names (env w) s) \<subseteq> ns \<and>
        (\<forall>n \<in> ns. fget (env w) (go_Join [out, n]) = fget w (go_Join [out, n]) \<and>
           (fget (env w) (go_Join [s, n]) = fget w (go_Join [s, n]) \<or>
            (\<forall>c m t. fget (env w) (go_Join [s, n]) = Some (File c m t)
               \<longrightarrow> clock w < t \<and> t \<le> clock (env w)))))"

lemma edits_inv:
  assumes "edits (srcDir fw) (outputDir (copier fw)) ns env" and "inj ts" and "watch_inv ts ns fw w"
  shows "watch_inv ts ns fw (env w)"
proof -
  have names: "set (dir_names w (srcDir fw)) \<subseteq> ns" and rec: "recorded_ok ts ns fw w"
    and tm: "times_ok ts ns fw w"
    using assms(3) by (simp_all add: watch_inv_def)
  from assms(1) names have clk: "clock w \<le> clock (env w)"
    and names': "set (dir_names (env w) (srcDir fw)) \<subseteq> ns"
    and out: "\<And>n. n \<in> ns \<Longrightarrow> fget (env w) (go_Join [outputDir (copier fw), n])
        = fget w (go_Join [outputDir (copier fw), n])"
    and src: "\<And>n. n \<in> ns \<Longrightarrow> fget (env w) (go_Join [srcDir fw, n]) = fget w (go_Join [srcDir fw, n]) \<or>
        (\<forall>c m t. fget (env w) (go_Join [srcDir fw, n]) = Some (File c m t)
           \<longrightarrow> clock w < t \<and> t \<le> clock (env w))"
    by (auto simp: edits_def)
  have old: "\<exists>t0 \<le> clock w. h = ts t0" if "n \<in> ns" "fileHashes fw n = Some h" for n h
    using tm that by (simp add: times_ok_def)
  have "recorded_ok ts ns fw (env w)"
    unfolding recorded_ok_def
  proof (intro ballI allI impI)
    fix n c m t
    assume n: "n \<in> ns" and f: "fget (env w) (go_Join [srcDir fw, n]) = Some (File c m t)"
      and h: "fileHashes fw n = Some (ts t)"
    obtain t0 where "t0 \<le> clock w" "ts t = ts t0" using old [OF n h] by auto
    with assms(2) have "t \<le> clock w" by (auto dest: injD)
    with src [OF n] f have "fget w (go_Join [srcDir fw, n]) = Some (File c m t)" by auto
    with rec n h out show
      "\<exists>t'. fget (env w) (go_Join [outputDir (copier fw), n]) = Some (File c 493 t')"
      by (simp add: recorded_ok_def)
  qed
  moreover have "times_ok ts ns fw (env w)"
    unfolding times_ok_def
  proof (intro conjI ballI allI impI)
    fix n nd assume n: "n \<in> ns" and nd: "fget (env w) (go_Join [srcDir fw, n]) = Some nd"
    show "modTime_of nd \<le> clock (env w)"
    proof (cases nd)
      case (File c m t)
      from src [OF n] show ?thesis
      proof
        assume "fget (env w) (go_Join [srcDir fw, n]) = fget w (go_Join [srcDir fw, n])"
        then have "modTime_of nd \<le> clock w" using nd tm n by (simp add: times_ok_def)
        then show ?thesis using clk by simp
      qed (use File nd in auto)
    qed simp
  next
    fix n h assume "n \<in> ns" and "fileHashes fw n = Some h"
    with old clk show "\<exists>t \<le> clock (env w). h = ts t" by (meson le_trans)
  qed
  ultimately show ?thesis using names' by (simp add: watch_inv_def)
qed

lemma Start_loop_inv:
  assumes "Start_loop ts ss fw w = (ret, fw', w')"
    and "publishable (srcDir fw) (outputDir (copier fw)) ns" and "inj ts"
    and "\<forall>env. Tick env \<in> set ss \<longrightarrow> edits (srcDir fw) (outputDir (copier fw)) ns env"
    and "watch_inv ts ns fw w"
  shows "watch_inv ts ns fw' w' \<and> srcDir fw' = srcDir fw \<and> copier fw' = copier fw"
  using assms
proof (induction ts ss fw w rule: Start_loop.induct)
  case (3 ts env ss fw w)
  obtain r fw1 w1 where st: "FileWatcher_sync ts fw (env w) = (r, fw1, w1)" by (metis prod_cases3)
  have e: "edits (srcDir fw) (outputDir (copier fw)) ns env" using "3.prems"(4) by simp
  have inv: "watch_inv ts ns fw1 w1" "srcDir fw1 = srcDir fw" "copier fw1 = copier fw"
    using sync_inv [OF st "3.prems"(2) edits_inv [OF e "3.prems"(3) "3.prems"(5)]] by simp_all
  have "Start_loop ts ss fw1 w1 = (ret, fw', w')" using "3.prems"(1) st by simp
  with "3.IH" [OF st [symmetric] refl] inv "3.prems" show ?case by simp
qed auto

lemma NewFileWatcher_fields [simp]:
  "srcDir (NewFileWatcher s out iv) = s" "outputDir (copier (NewFileWatcher s out iv)) = out"
  "fileHashes (NewFileWatcher s out iv) = Map.empty"
  by (simp_all add: NewFileWatcher_def NewScriptCopier_def)

definition fresh_source :: "string \<Rightarrow> string set \<Rightarrow> world \<Rightarrow> bool" where
  "fresh_source s ns w \<longleftrightarrow> set (dir_names w s) \<subseteq> ns \<and>
     (\<forall>n \<in> ns. \<forall>nd. fget w (go_Join [s, n]) = Some nd \<longrightarrow> modTime_of nd \<le> clock w)"

lemma Start_inv:
  assumes "FileWatcher_Start ts ss (NewFileWatcher s out iv) w = (ret, fw', w')"
    and "publishable s out ns" and "inj ts" and "fresh_source s ns w"
    and "\<forall>env. Tick env \<in> set ss \<longrightarrow> edits s out ns env"
  shows "watch_inv ts ns fw' w' \<and> srcDir fw' = s \<and> outputDir (copier fw') = out"
proof -
  let ?fw = "NewFileWatcher s out iv"
  have "watch_inv ts ns ?fw w"
    using assms(4) by (simp add: watch_inv_def recorded_ok_def times_ok_def fresh_source_def)
  moreover obtain r fw1 w1 where st: "FileWatcher_sync ts ?fw w = (r, fw1, w1)" by (metis prod_cases3)
  ultimately have 1: "watch_inv ts ns fw1 w1" "srcDir fw1 = s" "copier fw1 = copier ?fw"
    using sync_inv [OF st] assms(2) by simp_all
  have "Start_loop ts ss fw1 w1 = (ret, fw', w')"
    using assms(1) st by (simp add: FileWatcher_Start_def)
  from Start_loop_inv [OF this _ assms(3)] 1 assms(2,5) show ?thesis by simp
qed

section \<open>A synchronisation without faults\<close>

definition out_ready :: "string \<Rightarrow> string set \<Rightarrow> world \<Rightarrow> bool" where
  "out_ready out ns w \<longleftrightarrow> sched w = [] \<and> fget w out = Some Dir \<and>
     (\<forall>n \<in> ns. fget w (go_Join [out, n]) \<noteq> Some Dir \<and> fget w (tmp_of (go_Join [out, n])) \<noteq> Some Dir)"

definition up_to_date :: "(nat \<Rightarrow> string) \<Rightarrow> FileWatcher \<Rightarrow> world \<Rightarrow> string \<Rightarrow> bool" where
  "up_to_date ts fw w n \<longleftrightarrow>
     (\<forall>c m t. fget w (go_Join [srcDir fw, n]) = Some (File c m t) \<longrightarrow> fileHashes fw n = Some (ts t))"

lemma copy_ready:
  assumes "publishable s (outputDir c) ns" and "n \<in> ns" and "out_ready (outputDir c) ns w"
    and "is_file (fget w (go_Join [s, n]))"
  shows "\<exists>w'. ScriptCopier_Copy c (go_Join [s, n]) n w = (None, w') \<and> sched w' = []"
proof -
  have d: "abs_dir s" "abs_dir (outputDir c)" "plain_name n"
    using assms(1,2) by (auto simp: publishable_def)
  note ap = publishable_apart [OF assms(1) assms(2) assms(2)]
  have "fget w (go_Join [outputDir c, n]) \<noteq> Some Dir" "fget w (tmp_of (go_Join [outputDir c, n])) \<noteq> Some Dir"
    "fget w (outputDir c) = Some Dir"
    using assms(2,3) by (simp_all add: out_ready_def)
  then have "can_publish w (go_Join [s, n]) (go_Join [outputDir c, n])"
    using assms(4) ap(2) [THEN not_sym] ap(7) d by (simp add: can_publish_def joined)
  with assms(3) show ?thesis
    unfolding ScriptCopier_Copy_def copiers_agree Let_def
    by (intro atomicCopy_progress) (simp_all add: out_ready_def)
qed

lemma sync_entry_ready:
  assumes "sync_entry ts entry (fw, w) = (fw', w')"
    and "publishable (srcDir fw) (outputDir (copier fw)) ns" and "fst entry \<in> ns"
    and "out_ready (outputDir (copier fw)) ns w"
    and "snd entry \<longleftrightarrow> fget w (go_Join [srcDir fw, fst entry]) = Some Dir"
  shows "out_ready (outputDir (copier fw)) ns w' \<and> up_to_date ts fw' w' (fst entry)"
proof (cases "is_file (fget w (go_Join [srcDir fw, fst entry]))")
  case False
  have "sync_entry ts entry (fw, w) = (fw, w)"
    using False assms(4,5)
    by (cases "fget w (go_Join [srcDir fw, fst entry])" rule: is_file.cases)
       (auto simp: sync_entry_def osStat_def with_fault_nil out_ready_def fails_def)
  with assms(1,4) False show ?thesis by (auto simp: up_to_date_def)
next
  case True
  then obtain c m t where f: "fget w (go_Join [srcDir fw, fst entry]) = Some (File c m t)" by auto
  have st: "osStat (go_Join [srcDir fw, fst entry]) w = (Inr (File c m t), w)"
    using assms(4) f by (simp add: osStat_def with_fault_nil out_ready_def)
  obtain w2 where cp: "ScriptCopier_Copy (copier fw) (go_Join [srcDir fw, fst entry]) (fst entry) w
      = (None, w2)" "sched w2 = []"
    using copy_ready [OF assms(2,3,4) True] by blast
  have e: "\<not> snd entry" using assms(5) f by simp
  show ?thesis
  proof (cases "fileHashes fw (fst entry) = Some (ts t)")
    case True
    then have "(fw', w') = (fw, w)"
      using assms(1) st e by (simp add: sync_entry_def getFileHash_def)
    with True f assms(4) show ?thesis by (simp add: up_to_date_def)
  next
    case False
    then have r: "fw' = fw\<lparr>fileHashes := (fileHashes fw)(fst entry \<mapsto> ts t)\<rparr>" "w' = w2"
      using assms(1) st e cp(1) by (simp_all add: sync_entry_def getFileHash_def)
    note ts = publishable_apart(2) [OF assms(2) assms(3) assms(3), THEN not_sym]
    obtain c' t' where w2: "fget w2 = (\<lambda>x. if same_path (go_Join [outputDir (copier fw), fst entry]) x
        then Some (File c' 493 t')
        else if same_path (tmp_of (go_Join [outputDir (copier fw), fst entry])) x then None
        else fget w x)"
      using scp.pub_ok [OF cp(1) ts] by blast
    have "out_ready (outputDir (copier fw)) ns w2"
      using assms(4) cp(2) publishable_apart [OF assms(2) assms(3)] assms(3)
      by (simp add: out_ready_def w2)
    moreover have "up_to_date ts fw' w' (fst entry)"
      using sync_entry_frame(1) [OF assms(1-3) assms(3)] f r(1) by (simp add: up_to_date_def)
    ultimately show ?thesis using r by simp
  qed
qed

lemma sync_entry_keeps:
  assumes "sync_entry ts entry (fw, w) = (fw', w')"
    and "publishable (srcDir fw) (outputDir (copier fw)) ns" and "fst entry \<in> ns" and "n \<in> ns"
    and "up_to_date ts fw w n"
  shows "up_to_date ts fw' w' n"
proof -
  have f: "srcDir fw' = srcDir fw" using sync_entry_fields [OF assms(1)] by simp
  note src = sync_entry_frame(1) [OF assms(1-4)]
  from assms(1) show ?thesis
  proof (cases rule: sync_entry_cases)
    case (copied w1 nd)
    with assms(5) src f show ?thesis by (auto simp: up_to_date_def)
  qed (use assms(5) src f in \<open>auto simp: up_to_date_def\<close>)
qed

definition kinds_ok :: "(string \<times> bool) list \<Rightarrow> FileWatcher \<Rightarrow> world \<Rightarrow> bool" where
  "kinds_ok es fw w \<longleftrightarrow>
     (\<forall>e \<in> set es. snd e \<longleftrightarrow> fget w (go_Join [srcDir fw, fst e]) = Some Dir)"

lemma sync_entries_ready:
  assumes "sync_entries ts es (fw, w) = (fw', w')"
    and "publishable (srcDir fw) (outputDir (copier fw)) ns" and "fst ` set es \<subseteq> ns"
    and "out_ready (outputDir (copier fw)) ns w" and "kinds_ok es fw w" and "D \<subseteq> ns"
    and "\<forall>n \<in> D. up_to_date ts fw w n"
  shows "out_ready (outputDir (copier fw)) ns w' \<and>
    (\<forall>n \<in> D \<union> fst ` set es. up_to_date ts fw' w' n) \<and>
    (\<forall>n. plain_name n \<longrightarrow> fget w' (go_Join [srcDir fw, n]) = fget w (go_Join [srcDir fw, n]))"
  using assms
proof (induction es arbitrary: fw w D)
  case Nil
  then show ?case by (simp add: sync_entries_def)
next
  case (Cons e es)
  obtain fw1 w1 where st: "sync_entry ts e (fw, w) = (fw1, w1)" by fastforce
  have rest: "sync_entries ts es (fw1, w1) = (fw', w')"
    using Cons.prems(1) st by (simp add: sync_entries_def)
  have e: "fst e \<in> ns" "fst ` set es \<subseteq> ns" "snd e \<longleftrightarrow> fget w (go_Join [srcDir fw, fst e]) = Some Dir"
    using Cons.prems(3,5) by (simp_all add: kinds_ok_def)
  have f: "srcDir fw1 = srcDir fw" "copier fw1 = copier fw" using sync_entry_fields [OF st] by simp_all
  note src = sync_entry_src [OF st Cons.prems(2) e(1)]
  have pl: "plain_name n" if "n \<in> ns" for n using Cons.prems(2) that by (simp add: publishable_def)
  have "kinds_ok es fw1 w1"
    using Cons.prems(5) src pl e(2) by (auto simp: kinds_ok_def f subset_iff image_iff)
  moreover have "\<forall>n \<in> insert (fst e) D. up_to_date ts fw1 w1 n"
    using sync_entry_ready [OF st Cons.prems(2) e(1) Cons.prems(4) e(3)]
      sync_entry_keeps [OF st Cons.prems(2) e(1)] Cons.prems(6,7) by auto
  moreover have "out_ready (outputDir (copier fw)) ns w1"
    using sync_entry_ready [OF st Cons.prems(2) e(1) Cons.prems(4) e(3)] by simp
  ultimately show ?case
    using Cons.IH [OF rest, of "insert (fst e) D"] Cons.prems(2,6) e src by (simp add: f)
qed

lemma recorded_up_to_date:
  assumes "recorded_ok ts ns fw w" and "n \<in> ns" and "up_to_date ts fw w n"
    and "fget w (go_Join [srcDir fw, n]) = Some (File c m t)"
  shows "\<exists>t'. fget w (go_Join [outputDir (copier fw), n]) = Some (File c 493 t')"
  using assms by (simp add: recorded_ok_def up_to_date_def)

lemma sync_ready:
  assumes "FileWatcher_sync ts fw w = (r, fw', w')"
    and "publishable (srcDir fw) (outputDir (copier fw)) ns" and "out_ready (outputDir (copier fw)) ns w"
    and "fget w (srcDir fw) = Some Dir" and "set (dir_names w (srcDir fw)) \<subseteq> ns"
  shows "r = None \<and> out_ready (outputDir (copier fw)) ns w' \<and>
    (\<forall>n \<in> set (dir_names w (srcDir fw)). up_to_date ts fw' w' n) \<and>
    (\<forall>n. plain_name n \<longrightarrow> fget w' (go_Join [srcDir fw, n]) = fget w (go_Join [srcDir fw, n]))"
proof -
  let ?es = "map (\<lambda>n. (n, fget w (go_Join [srcDir fw, n]) = Some Dir)) (dir_names w (srcDir fw))"
  have "osReadDir (srcDir fw) w = (Inr ?es, w)"
    using assms(3,4) by (simp add: osReadDir_nil out_ready_def)
  with assms(1) have "r = None" and es: "sync_entries ts ?es (fw, w) = (fw', w')"
    by (simp_all add: FileWatcher_sync_def)
  have "fst ` set ?es = set (dir_names w (srcDir fw))" by force
  with sync_entries_ready [OF es assms(2) _ assms(3), of "{}"] assms(5) \<open>r = None\<close>
  show ?thesis by (simp add: kinds_ok_def)
qed

text \<open>When every source is recorded at its present time, a synchronisation does nothing at all.\<close>

lemma sync_entry_idle:
  assumes "sched w = []" and "up_to_date ts fw w (fst entry)"
    and "snd entry \<longleftrightarrow> fget w (go_Join [srcDir fw, fst entry]) = Some Dir"
  shows "sync_entry ts entry (fw, w) = (fw, w)"
  using assms
  by (cases "fget w (go_Join [srcDir fw, fst entry])" rule: is_file.cases)
     (auto simp: sync_entry_def osStat_def with_fault_nil fails_def up_to_date_def getFileHash_def)

lemma sync_idle:
  assumes "sched w = []" and "fget w (srcDir fw) = Some Dir"
    and "\<forall>n \<in> set (dir_names w (srcDir fw)). up_to_date ts fw w n"
  shows "FileWatcher_sync ts fw w = (None, fw, w)"
proof -
  have "fold (sync_entry ts) (map (\<lambda>n. (n, fget w (go_Join [srcDir fw, n]) = Some Dir)) ns) (fw, w) = (fw, w)"
    if "\<forall>n \<in> set ns. up_to_date ts fw w n" for ns
    using that by (induction ns) (simp_all add: sync_entry_idle [OF assms(1)])
  with assms show ?thesis by (simp add: FileWatcher_sync_def osReadDir_nil sync_entries_def)
qed

lemma sync_entries_fields:
  "sync_entries ts es (fw, w) = (fw', w') \<Longrightarrow> srcDir fw' = srcDir fw \<and> copier fw' = copier fw"
proof (induction es arbitrary: fw w)
  case Nil
  then show ?case by (simp add: sync_entries_def)
next
  case (Cons e es)
  obtain fw1 w1 where st: "sync_entry ts e (fw, w) = (fw1, w1)" by fastforce
  have "sync_entries ts es (fw1, w1) = (fw', w')"
    using Cons.prems st by (simp add: sync_entries_def)
  from Cons.IH [OF this] sync_entry_fields [OF st] show ?case by simp
qed

lemma sync_fields:
  "FileWatcher_sync ts fw w = (r, fw', w') \<Longrightarrow> srcDir fw' = srcDir fw \<and> copier fw' = copier fw"
  by (auto simp: FileWatcher_sync_def dest: sync_entries_fields split: prod.splits sum.splits)

lemma sync_entries_dir:
  assumes "sync_entries ts es (fw, w) = (fw', w')"
    and "publishable (srcDir fw) (outputDir (copier fw)) ns" and "fst ` set es \<subseteq> ns"
    and "out_ready (outputDir (copier fw)) ns w" and "kinds_ok es fw w" and "fget w x = Some Dir"
  shows "fget w' x = Some Dir"
  using assms
proof (induction es arbitrary: fw w)
  case Nil
  then show ?case by (simp add: sync_entries_def)
next
  case (Cons e es)
  obtain fw1 w1 where st: "sync_entry ts e (fw, w) = (fw1, w1)" by fastforce
  have e: "fst e \<in> ns" "fst ` set es \<subseteq> ns" "snd e \<longleftrightarrow> fget w (go_Join [srcDir fw, fst e]) = Some Dir"
    using Cons.prems(3,5) by (simp_all add: kinds_ok_def)
  have f: "srcDir fw1 = srcDir fw" "copier fw1 = copier fw" using sync_entry_fields [OF st] by simp_all
  have "fget w (go_Join [outputDir (copier fw), fst e]) \<noteq> fget w x"
    "fget w (tmp_of (go_Join [outputDir (copier fw), fst e])) \<noteq> fget w x"
    using Cons.prems(4,6) e(1) by (auto simp: out_ready_def)
  then have "\<not> same_path (go_Join [outputDir (copier fw), fst e]) x"
    "\<not> same_path (tmp_of (go_Join [outputDir (copier fw), fst e])) x"
    by (blast dest: fget_same)+
  then have "fget w1 x = fget w x" by (rule sync_entry_off [OF st Cons.prems(2) e(1)])
  moreover have "kinds_ok es fw1 w1"
    using Cons.prems(5) sync_entry_frame(1) [OF st Cons.prems(2) e(1)] e(2)
    by (auto simp: kinds_ok_def f subset_iff image_iff)
  moreover have "out_ready (outputDir (copier fw)) ns w1"
    using sync_entry_ready [OF st Cons.prems(2) e(1) Cons.prems(4) e(3)] by simp
  ultimately show ?case
    using Cons.IH [of fw1 w1] Cons.prems(1,2,6) e(2) st by (simp add: f sync_entries_def)
qed

lemma sync_dir:
  assumes "FileWatcher_sync ts fw w = (r, fw', w')"
    and "publishable (srcDir fw) (outputDir (copier fw)) ns" and "out_ready (outputDir (copier fw)) ns w"
    and "fget w (srcDir fw) = Some Dir" and "set (dir_names w (srcDir fw)) \<subseteq> ns"
  shows "fget w' (srcDir fw) = Some Dir"
proof -
  let ?es = "map (\<lambda>n. (n, fget w (go_Join [srcDir fw, n]) = Some Dir)) (dir_names w (srcDir fw))"
  have "osReadDir (srcDir fw) w = (Inr ?es, w)"
    using assms(3,4) by (simp add: osReadDir_nil out_ready_def)
  with assms(1) have es: "sync_entries ts ?es (fw, w) = (fw', w')" by (simp add: FileWatcher_sync_def)
  have "fst ` set ?es \<subseteq> ns" using assms(5) by force
  with sync_entries_dir [OF es assms(2) _ assms(3) _ assms(4)] show ?thesis
    by (simp add: kinds_ok_def)
qed

section \<open>Properties\<close>

text \<open>
  C18: hot update. A watcher is started on a fresh state and runs through any sequence of ticks, any
  edits of the sources between them and any operating-system failures; then, after one more edit, one
  synchronisation meets no failure. It reports no error and every regular file of the source directory,
  with the content it has now, is in the output directory with mode 0755.
\<close>

theorem watcher_hot_update:
  assumes "inj ts" and "publishable s out ns" and "fresh_source s ns w"
    and "\<forall>env. Tick env \<in> set ss \<longrightarrow> edits s out ns env"
    and "FileWatcher_Start ts ss (NewFileWatcher s out iv) w = (ret, fw1, w1)"
    and "edits s out ns env" and "out_ready out ns (env w1)" and "fget (env w1) s = Some Dir"
    and "FileWatcher_sync ts fw1 (env w1) = (r, fw2, w2)"
  shows "r = None \<and> (\<forall>n \<in> set (dir_names (env w1) s). \<forall>c m t.
      fget (env w1) (go_Join [s, n]) = Some (File c m t) \<longrightarrow>
      (\<exists>t'. fget w2 (go_Join [out, n]) = Some (File c 493 t')))"
proof -
  have fw1: "srcDir fw1 = s" "outputDir (copier fw1) = out" and inv1: "watch_inv ts ns fw1 w1"
    using Start_inv [OF assms(5,2,1,3,4)] by simp_all
  note p = assms(2) [folded fw1]
  have inv: "watch_inv ts ns fw1 (env w1)"
    by (rule edits_inv [OF assms(6) [folded fw1] assms(1) inv1])
  then have names: "set (dir_names (env w1) s) \<subseteq> ns" by (simp add: watch_inv_def fw1)
  have inv2: "watch_inv ts ns fw2 w2" "srcDir fw2 = s" "outputDir (copier fw2) = out"
    using sync_inv [OF assms(9) p inv] by (simp_all add: fw1)
  have rd: "r = None" "\<forall>n \<in> set (dir_names (env w1) s). up_to_date ts fw2 w2 n"
    "\<forall>n. plain_name n \<longrightarrow> fget w2 (go_Join [s, n]) = fget (env w1) (go_Join [s, n])"
    using sync_ready [OF assms(9) p] assms(7,8) names by (simp_all add: fw1)
  have "\<exists>t'. fget w2 (go_Join [out, n]) = Some (File c 493 t')"
    if n: "n \<in> set (dir_names (env w1) s)" and f: "fget (env w1) (go_Join [s, n]) = Some (File c m t)"
    for n c m t
  proof -
    have "n \<in> ns" using n names by blast
    moreover have "plain_name n" using calculation assms(2) by (simp add: publishable_def)
    ultimately show ?thesis
      using recorded_up_to_date [of ts ns fw2 w2 n c m t] inv2 rd(2,3) n f by (simp add: watch_inv_def)
  qed
  with rd(1) show ?thesis by blast
qed

text \<open>
  A synchronisation that meets no failure leaves nothing to do: the next one, with no edit in
  between, returns no error and changes neither the files nor the recorded hashes.
\<close>

theorem watcher_second_sync_idle:
  assumes "publishable (srcDir fw) (outputDir (copier fw)) ns"
    and "out_ready (outputDir (copier fw)) ns w" and "fget w (srcDir fw) = Some Dir"
    and "set (dir_names w (srcDir fw)) \<subseteq> ns"
    and "FileWatcher_sync ts fw w = (r, fw', w')"
  shows "FileWatcher_sync ts fw' w' = (None, fw', w')"
proof -
  note rd = sync_ready [OF assms(5,1-4)]
  have d: "abs_dir (srcDir fw)" using assms(1) by (simp add: publishable_def)
  have f: "srcDir fw' = srcDir fw" using sync_fields [OF assms(5)] by simp
  have "n \<in> set (dir_names w' (srcDir fw)) \<longleftrightarrow> n \<in> set (dir_names w (srcDir fw))" for n
    using rd by (auto simp: dir_names_iff [OF d] joined d)
  with rd show ?thesis
    using sync_dir [OF assms(5,1-4)] by (intro sync_idle) (auto simp: f out_ready_def)
qed

section \<open>Witnesses\<close>

definition demo_world :: world where
  "demo_world = \<lparr>files = [(''/'', Dir), (''/s'', Dir), (''/o'', Dir), (''/s/a'', File ''one'' 420 1)],
     sched = [], clock = 1\<rparr>"

definition demo_time :: "nat \<Rightarrow> string" where
  "demo_time n = replicate n CHR ''t''"

definition demo_edit :: "world \<Rightarrow> world" where
  "demo_edit w = fput ''/s/a'' (File ''two'' 420 (Suc (clock w))) (w\<lparr>clock := Suc (clock w)\<rparr>)"

lemma demo_time_inj: "inj demo_time"
  by (rule injI) (metis demo_time_def length_replicate)

lemma demo_publishable: "publishable ''/s'' ''/o'' {''a''}"
  by (simp add: publishable_def abs_dir_def plain_name_def)

lemma demo_edits: "edits ''/s'' ''/o'' {''a''} demo_edit"
proof -
  have d: "abs_dir ''/s''" by code_simp
  have c: "go_Clean ''/s/a'' = ''/s/a''" "go_Join [''/s'', ''a''] = ''/s/a''"
    "go_Join [''/o'', ''a''] = ''/o/a''" "go_Clean ''/o/a'' = ''/o/a''"
    by code_simp+
  have names: "n = ''a''" if "set (dir_names w ''/s'') \<subseteq> {''a''}" "n \<in> set (dir_names (demo_edit w) ''/s'')"
    for w n
  proof (rule ccontr)
    assume "n \<noteq> ''a''"
    have n: "plain_name n" "fget (demo_edit w) (''/s'' @ slash # n) \<noteq> None"
      using that(2) by (simp_all add: dir_names_iff [OF d])
    have "go_Clean (''/s'' @ slash # n) = ''/s'' @ slash # n" using clean_abs_snoc [OF d n(1)] .
    then have "\<not> same_path ''/s/a'' (''/s'' @ slash # n)" using \<open>n \<noteq> ''a''\<close> c(1) by simp
    then have "fget w (''/s'' @ slash # n) \<noteq> None" using n(2) by (simp add: demo_edit_def)
    with n(1) have "n \<in> set (dir_names w ''/s'')" by (simp add: dir_names_iff [OF d])
    with that(1) \<open>n \<noteq> ''a''\<close> show False by blast
  qed
  have clk: "clock (demo_edit w) = Suc (clock w)" for w by (simp add: demo_edit_def)
  have "fget (demo_edit w) ''/o/a'' = fget w ''/o/a''" for w by (simp add: demo_edit_def c)
  moreover have "fget (demo_edit w) ''/s/a'' = Some (File ''two'' 420 (Suc (clock w)))" for w
    by (simp add: demo_edit_def)
  ultimately show ?thesis using names by (auto simp: edits_def c clk)
qed

lemma demo_fresh: "fresh_source ''/s'' {''a''} demo_world"
proof -
  have 1: "dir_names demo_world ''/s'' = [''a'']" by code_simp
  have 2: "fget demo_world (go_Join [''/s'', ''a'']) = Some (File ''one'' 420 1)" by code_simp
  have 3: "clock demo_world = 1" by code_simp
  show ?thesis by (simp add: fresh_source_def 1 2 3)
qed

lemma demo_ready: "out_ready ''/o'' {''a''} w \<longleftrightarrow> sched w = [] \<and> fget w ''/o'' = Some Dir \<and>
    fget w ''/o/a'' \<noteq> Some Dir \<and> fget w ''/o/a.tmp'' \<noteq> Some Dir"
proof -
  have "go_Join [''/o'', ''a''] = ''/o/a''" by code_simp
  then show ?thesis by (simp add: out_ready_def)
qed

text \<open>The edit between the first synchronisation and the second reaches the output.\<close>

theorem watcher_hot_update_witness:
  "let st = FileWatcher_Start demo_time [Tick demo_edit] (NewFileWatcher ''/s'' ''/o'' 5) demo_world;
       w1 = demo_edit (snd (snd st));
       w2 = snd (snd (FileWatcher_sync demo_time (fst (snd st)) w1))
   in \<exists>t'. fget w2 (go_Join [''/o'', ''a'']) = Some (File ''two'' 493 t')"
proof -
  define st where "st = FileWatcher_Start demo_time [Tick demo_edit] (NewFileWatcher ''/s'' ''/o'' 5) demo_world"
  define w1 where "w1 = snd (snd st)"
  define sy where "sy = FileWatcher_sync demo_time (fst (snd st)) (demo_edit w1)"
  have "sched (demo_edit w1) = [] \<and> fget (demo_edit w1) ''/o'' = Some Dir \<and>
      fget (demo_edit w1) ''/o/a'' \<noteq> Some Dir \<and> fget (demo_edit w1) ''/o/a.tmp'' \<noteq> Some Dir"
    unfolding w1_def st_def by code_simp
  then have rdy: "out_ready ''/o'' {''a''} (demo_edit w1)" unfolding demo_ready .
  have dir: "fget (demo_edit w1) ''/s'' = Some Dir" unfolding w1_def st_def by code_simp
  have n: "''a'' \<in> set (dir_names (demo_edit w1) ''/s'')" unfolding w1_def st_def by code_simp
  have f: "fget (demo_edit w1) (go_Join [''/s'', ''a'']) = Some (File ''two'' 420 3)"
    unfolding w1_def st_def by code_simp
  have "\<forall>env. Tick env \<in> set [Tick demo_edit] \<longrightarrow> edits ''/s'' ''/o'' {''a''} env"
    using demo_edits by simp
  from watcher_hot_update [OF demo_time_inj demo_publishable demo_fresh this _ demo_edits rdy dir,
      of 5 "fst st" "fst (snd st)" "fst sy" "fst (snd sy)" "snd (snd sy)"] n f
  show ?thesis by (simp add: st_def [symmetric] w1_def sy_def Let_def)
qed

theorem watcher_second_sync_idle_witness:
  "let fw = NewFileWatcher ''/s'' ''/o'' 5; sy = FileWatcher_sync demo_time fw demo_world
   in FileWatcher_sync demo_time (fst (snd sy)) (snd (snd sy)) = (None, fst (snd sy), snd (snd sy))"
proof -
  define sy where "sy = FileWatcher_sync demo_time (NewFileWatcher ''/s'' ''/o'' 5) demo_world"
  have "sched demo_world = [] \<and> fget demo_world ''/o'' = Some Dir \<and>
      fget demo_world ''/o/a'' \<noteq> Some Dir \<and> fget demo_world ''/o/a.tmp'' \<noteq> Some Dir"
    by code_simp
  then have rdy: "out_ready ''/o'' {''a''} demo_world" unfolding demo_ready .
  have dir: "fget demo_world ''/s'' = Some Dir" by code_simp
  have names: "set (dir_names demo_world ''/s'') \<subseteq> {''a''}"
    using demo_fresh by (simp add: fresh_source_def)
  from watcher_second_sync_idle [of "NewFileWatcher ''/s'' ''/o'' 5" "{''a''}" demo_world demo_time
      "fst sy" "fst (snd sy)" "snd (snd sy)"] rdy dir names demo_publishable
  show ?thesis by (simp add: sy_def [symmetric])
qed

definition clash_world :: world where
  "clash_world = \<lparr>files = [(''/'', Dir), (''/s'', Dir), (''/o'', Dir), (''/s/a'', File ''one'' 420 1),
     (''/s/a.tmp'', File ''keep'' 420 1)], sched = [], clock = 1\<rparr>"

text \<open>
  A source directory that holds both \<open>a\<close> and \<open>a.tmp\<close>. The first synchronisation publishes both
  files; after an edit of \<open>a\<close> alone the next one uses the published \<open>a.tmp\<close> as its temporary file and
  renames it away, and since the hash of \<open>a.tmp\<close> is still recorded, no later synchronisation restores it.
\<close>

theorem watcher_tmp_clash:
  "let (_, fw1, w1) = FileWatcher_Start demo_time [] (NewFileWatcher ''/s'' ''/o'' 5) clash_world;
       (_, fw2, w2) = FileWatcher_Start demo_time [Tick demo_edit, Tick id, Tick id]
                        (NewFileWatcher ''/s'' ''/o'' 5) clash_world
   in is_file (fget w1 ''/o/a.tmp'') \<and> is_file (fget w2 ''/s/a.tmp'') \<and> is_file (fget w2 ''/o/a'')
      \<and> fget w2 ''/o/a.tmp'' = None"
  by code_simp

end
