(* ===== verification/GoJson.thy ===== *)
theory GoJson
  imports Prelude
begin

text \<open>
  What the code uses of \<open>encoding/json\<close>: decoding a document into a struct. A document is its value tree
  (the byte syntax is left out). A key selects the field of its exact name or, failing that, the one that
  equals it up to ASCII case; unknown keys are ignored, \<open>null\<close> leaves a field as it is, absent fields keep
  their zero value, and a value of the wrong kind is an error.
\<close>

datatype json =
    JNull
  | JBool bool
  | JNum int
  | JStr string
  | JArr "json list"
  | JObj "(string \<times> json) list"

fun json_kind :: "json \<Rightarrow> string" where
  "json_kind JNull = ''null''"
| "json_kind (JBool b) = ''bool''"
| "json_kind (JNum n) = ''number''"
| "json_kind (JStr s) = ''string''"
| "json_kind (JArr xs) = ''array''"
| "json_kind (JObj kvs) = ''object''"

definition type_error :: "json \<Rightarrow> string \<Rightarrow> string \<Rightarrow> goerror" where
  "type_error j field ty =
     ''json: cannot unmarshal '' @ json_kind j @ '' into Go struct field '' @ field @ '' of type '' @ ty"

definition fold_char :: "char \<Rightarrow> char" where
  "fold_char c =
     (if 65 \<le> (of_char c :: nat) \<and> (of_char c :: nat) \<le> 90 then char_of ((of_char c :: nat) + 32) else c)"

definition field_of :: "string list \<Rightarrow> string \<Rightarrow> string option" where
  "field_of names key =
     (if key \<in> set names then Some key
      else find (\<lambda>n. map fold_char n = map fold_char key) names)"

fun decode_string :: "string \<Rightarrow> json \<Rightarrow> string \<Rightarrow> goerror + string" where
  "decode_string field JNull old = Inr old"
| "decode_string field (JStr s) old = Inr s"
| "decode_string field j old = Inl (type_error j field ''string'')"

fun decode_bool :: "string \<Rightarrow> json \<Rightarrow> bool \<Rightarrow> goerror + bool" where
  "decode_bool field JNull old = Inr old"
| "decode_bool field (JBool b) old = Inr b"
| "decode_bool field j old = Inl (type_error j field ''bool'')"

text \<open>An object into a struct: its entries in order, each into the field its key selects.\<close>

fun decode_fields ::
    "string list \<Rightarrow> (string \<Rightarrow> json \<Rightarrow> 'r \<Rightarrow> goerror + 'r) \<Rightarrow> (string \<times> json) list \<Rightarrow> 'r \<Rightarrow> goerror + 'r" where
  "decode_fields names setf [] r = Inr r"
| "decode_fields names setf ((k, j) # kvs) r =
     (case field_of names k of
        None \<Rightarrow> decode_fields names setf kvs r
      | Some f \<Rightarrow>
          (case setf f j r of
             Inl e \<Rightarrow> Inl e
           | Inr r' \<Rightarrow> decode_fields names setf kvs r'))"

fun decode_struct ::
    "string \<Rightarrow> string list \<Rightarrow> (string \<Rightarrow> json \<Rightarrow> 'r \<Rightarrow> goerror + 'r) \<Rightarrow> json \<Rightarrow> 'r \<Rightarrow> goerror + 'r" where
  "decode_struct ty names setf (JObj kvs) r = decode_fields names setf kvs r"
| "decode_struct ty names setf JNull r = Inr r"
| "decode_struct ty names setf j r = Inl (type_error j ty ty)"

fun decode_list :: "(json \<Rightarrow> goerror + 'r) \<Rightarrow> json list \<Rightarrow> goerror + 'r list" where
  "decode_list dec [] = Inr []"
| "decode_list dec (j # js) =
     (case dec j of
        Inl e \<Rightarrow> Inl e
      | Inr r \<Rightarrow> (case decode_list dec js of Inl e \<Rightarrow> Inl e | Inr rs \<Rightarrow> Inr (r # rs)))"

lemma decode_list_map:
  "(\<And>x. x \<in> set xs \<Longrightarrow> dec (enc x) = Inr x) \<Longrightarrow> decode_list dec (map enc xs) = Inr xs"
  by (induction xs) auto

end
