(* ===== verification/Sidecar.thy ===== *)
theory Sidecar
  imports Copier GoJson
begin

text \<open>
  \<open>SidecarManager\<close> of \<open>cmd/sidecar/main.go\<close>: its configuration from the environment, the behaviours it gets
  from the Kubernetes API, the synchronisation of their scripts and the fallback that copies a whole
  directory. The dynamic client of Kubernetes is a parameter: \<open>dcGet\<close> answers a get request (resource,
  namespace, name), \<open>dcMarshalJSON\<close> gives the answer's JSON document.
\<close>

section \<open>Configuration\<close>

type_synonym env = "string \<rightharpoonup> string"

definition os_Getenv :: "env \<Rightarrow> string \<Rightarrow> string" where
  "os_Getenv e key = (case e key of None \<Rightarrow> [] | Some v \<Rightarrow> v)"

definition getEnv :: "env \<Rightarrow> string \<Rightarrow> string \<Rightarrow> string" where
  "getEnv e key defaultValue =
     (let val = os_Getenv e key in if val \<noteq> [] then val else defaultValue)"

record Config =
  BehaviorStubName :: string
  Namespace :: string
  SharedDir :: string
  ScriptMountPath :: string

definition loadConfig :: "env \<Rightarrow> Config" where
  "loadConfig e =
     \<lparr>BehaviorStubName = getEnv e ''BEHAVIOR_STUB_NAME'' [],
      Namespace = getEnv e ''BEHAVIOR_STUB_NAMESPACE'' ''default'',
      SharedDir = getEnv e ''SHARED_DIR'' ''/shared'',
      ScriptMountPath = getEnv e ''SCRIPT_MOUNT_PATH'' ''/src/scripts''\<rparr>"

section \<open>The BehaviorStub as the sidecar reads it\<close>

record SBehavior =
  sbName :: string
  sbTargetPath :: string
  sbScriptPath :: string
  sbEnableLogging :: bool
  sbLogPath :: string

definition zero_SBehavior :: SBehavior where
  "zero_SBehavior = \<lparr>sbName = [], sbTargetPath = [], sbScriptPath = [], sbEnableLogging = False,
     sbLogPath = []\<rparr>"

record SBehaviorStub =
  sbsBehaviors :: "SBehavior list"

definition set_behavior_field :: "string \<Rightarrow> json \<Rightarrow> SBehavior \<Rightarrow> goerror + SBehavior" where
  "set_behavior_field f j b =
     (if f = ''name'' then map_sum id (\<lambda>s. b\<lparr>sbName := s\<rparr>) (decode_string f j (sbName b))
      else if f = ''targetPath'' then
        map_sum id (\<lambda>s. b\<lparr>sbTargetPath := s\<rparr>) (decode_string f j (sbTargetPath b))
      else if f = ''scriptPath'' then
        map_sum id (\<lambda>s. b\<lparr>sbScriptPath := s\<rparr>) (decode_string f j (sbScriptPath b))
      else if f = ''enableLogging'' then
        map_sum id (\<lambda>s. b\<lparr>sbEnableLogging := s\<rparr>) (decode_bool f j (sbEnableLogging b))
      else if f = ''logPath'' then
        map_sum id (\<lambda>s. b\<lparr>sbLogPath := s\<rparr>) (decode_string f j (sbLogPath b))
      else Inr b)"

definition decode_behavior :: "json \<Rightarrow> goerror + SBehavior" where
  "decode_behavior j =
     decode_struct ''Behavior'' [''name'', ''targetPath'', ''scriptPath'', ''enableLogging'', ''logPath'']
       set_behavior_field j zero_SBehavior"

definition set_spec_field :: "string \<Rightarrow> json \<Rightarrow> SBehaviorStub \<Rightarrow> goerror + SBehaviorStub" where
  "set_spec_field f j bs =
     (case j of
        JNull \<Rightarrow> Inr (bs\<lparr>sbsBehaviors := []\<rparr>)
      | JArr js \<Rightarrow> map_sum id (\<lambda>b. bs\<lparr>sbsBehaviors := b\<rparr>) (decode_list decode_behavior js)
      | _ \<Rightarrow> Inl (type_error j f ''[]main.Behavior''))"

definition set_stub_field :: "string \<Rightarrow> json \<Rightarrow> SBehaviorStub \<Rightarrow> goerror + SBehaviorStub" where
  "set_stub_field f j bs = decode_struct ''spec'' [''behaviors''] set_spec_field j bs"

definition json_Unmarshal_stub :: "json \<Rightarrow> goerror + SBehaviorStub" where
  "json_Unmarshal_stub j =
     decode_struct ''BehaviorStub'' [''spec''] set_stub_field j \<lparr>sbsBehaviors = []\<rparr>"

record 'raw dynclient =
  dcGet :: "string \<times> string \<times> string \<Rightarrow> string \<Rightarrow> string \<Rightarrow> goerror + 'raw"
  dcMarshalJSON :: "'raw \<Rightarrow> goerror + json"

record SidecarManager =
  config :: Config
  behaviors :: "SBehavior list"

definition NewSidecarManager :: "Config \<Rightarrow> SidecarManager" where
  "NewSidecarManager c = \<lparr>config = c, behaviors = []\<rparr>"

definition behaviorstub_gvr :: "string \<times> string \<times> string" where
  "behaviorstub_gvr = (''dynastub.example.com'', ''v1'', ''behaviorstubs'')"

definition getBehaviorStub :: "'raw dynclient \<Rightarrow> SidecarManager \<Rightarrow> goerror + SBehaviorStub" where
  "getBehaviorStub dc s =
     (case dcGet dc behaviorstub_gvr (Namespace (config s)) (BehaviorStubName (config s)) of
        Inl err \<Rightarrow> Inl (''failed to get BehaviorStub: '' @ err)
      | Inr obj \<Rightarrow>
          (case dcMarshalJSON dc obj of
             Inl err \<Rightarrow> Inl (''failed to marshal BehaviorStub: '' @ err)
           | Inr data \<Rightarrow>
               (case json_Unmarshal_stub data of
                  Inl err \<Rightarrow> Inl (''failed to unmarshal BehaviorStub: '' @ err)
                | Inr bs \<Rightarrow> Inr bs)))"

section \<open>Synchronisation\<close>

text \<open>The command a target path stands for: its last element without the extension.\<close>

definition targetCommand :: "string \<Rightarrow> string" where
  "targetCommand targetPath =
     (let c = go_Base targetPath in take (length c - length (go_Ext c)) c)"

definition script_src :: "Config \<Rightarrow> SBehavior \<Rightarrow> string" where
  "script_src c b = go_Join [ScriptMountPath c, sbScriptPath b]"

definition script_dst :: "Config \<Rightarrow> SBehavior \<Rightarrow> string" where
  "script_dst c b = go_Join [SharedDir c, targetCommand (sbTargetPath b)]"

definition syncBehaviorScript :: "Config \<Rightarrow> SBehavior \<Rightarrow> world \<Rightarrow> goerror option \<times> world" where
  "syncBehaviorScript c b w =
     (let srcPath = script_src c b; dstPath = script_dst c b in
      case osStat srcPath w of
        (r, w1) \<Rightarrow>
          (if (case r of Inl e \<Rightarrow> is_not_exist e | Inr _ \<Rightarrow> False)
           then (Some (''source script not found: '' @ srcPath), w1)
           else
             (case SidecarManager_atomicCopy srcPath dstPath w1 of
                (Some err, w2) \<Rightarrow> (Some (''failed to copy script: '' @ err), w2)
              | (None, w2) \<Rightarrow> (None, snd (osStat dstPath w2)))))"

definition copy_entry :: "Config \<Rightarrow> string \<times> bool \<Rightarrow> world \<Rightarrow> goerror option \<times> world" where
  "copy_entry c entry w =
     (if snd entry then (None, w)
      else SidecarManager_atomicCopy (go_Join [ScriptMountPath c, fst entry])
             (go_Join [SharedDir c, fst entry]) w)"

definition syncAllFromDirectory :: "Config \<Rightarrow> world \<Rightarrow> goerror option \<times> world" where
  "syncAllFromDirectory c w =
     (case osMkdirAll (SharedDir c) w of
        (Inl err, w1) \<Rightarrow> (Some (''failed to create shared directory: '' @ oserr_string err), w1)
      | (Inr _, w1) \<Rightarrow>
          (case osReadDir (ScriptMountPath c) w1 of
             (Inl err, w2) \<Rightarrow> (Some (''failed to read source directory: '' @ oserr_string err), w2)
           | (Inr entries, w2) \<Rightarrow> (None, snd (for_continue (copy_entry c) entries w2))))"

definition SyncAllScripts ::
    "'raw dynclient \<Rightarrow> SidecarManager \<Rightarrow> world \<Rightarrow> goerror option \<times> SidecarManager \<times> world" where
  "SyncAllScripts dc s w =
     (case getBehaviorStub dc s of
        Inl err \<Rightarrow> (case syncAllFromDirectory (config s) w of (r, w1) \<Rightarrow> (r, s, w1))
      | Inr bs \<Rightarrow>
          (let s1 = s\<lparr>behaviors := sbsBehaviors bs\<rparr> in
           case osMkdirAll (SharedDir (config s1)) w of
             (Inl err, w1) \<Rightarrow>
               (Some (''failed to create shared directory: '' @ oserr_string err), s1, w1)
           | (Inr _, w1) \<Rightarrow>
               (case for_continue (syncBehaviorScript (config s1)) (behaviors s1) w1 of
                  (successCount, w2) \<Rightarrow> (None, s1, w2))))"

definition cleanupScripts :: "SidecarManager \<Rightarrow> world \<Rightarrow> world" where
  "cleanupScripts s w = snd (osRemoveAll (SharedDir (config s)) w)"

section \<open>The publisher interface\<close>

lemma sync_script_ok:
  assumes "syncBehaviorScript c b w = (None, w')" and "\<not> same_path (tmp_of (script_dst c b)) (script_src c b)"
  shows "\<exists>ct m t t'. fget w (script_src c b) = Some (File ct m t) \<and>
    fget w' = (\<lambda>x. if same_path (script_dst c b) x then Some (File ct 493 t')
                    else if same_path (tmp_of (script_dst c b)) x then None else fget w x)"
proof -
  obtain r w1 w2 where st: "osStat (script_src c b) w = (r, w1)"
    and cp: "SidecarManager_atomicCopy (script_src c b) (script_dst c b) w1 = (None, w2)"
    and w': "w' = snd (osStat (script_dst c b) w2)"
    using assms(1)
    by (auto simp: syncBehaviorScript_def Let_def split: prod.splits if_splits option.splits)
  have 1: "fget w1 = fget w" using st by (rule osStat_frame)
  have 2: "fget w' = fget w2" unfolding w' by (rule osStat_frame [OF prod.collapse [symmetric]])
  from atomicCopy_ok [OF cp assms(2)] show ?thesis unfolding 1 2 .
qed

lemma sync_script_err:
  assumes "syncBehaviorScript c b w = (Some e, w')" and "\<not> same_path (tmp_of (script_dst c b)) x"
  shows "fget w' x = fget w x"
proof -
  obtain r w1 where st: "osStat (script_src c b) w = (r, w1)" by fastforce
  have w1: "fget w1 = fget w" using st by (rule osStat_frame)
  have "w' = w1 \<or> (\<exists>e'. SidecarManager_atomicCopy (script_src c b) (script_dst c b) w1 = (Some e', w'))"
    using assms(1) st
    by (auto simp: syncBehaviorScript_def Let_def split: prod.splits if_splits option.splits)
  with atomicCopy_err [OF _ assms(2)] w1 show ?thesis by auto
qed

interpretation syn: publisher "syncBehaviorScript c" "script_src c" "script_dst c" for c :: Config
  by unfold_locales (rule sync_script_ok sync_script_err; assumption)+

interpretation dir: publisher
    "\<lambda>n. SidecarManager_atomicCopy (go_Join [ScriptMountPath c, n]) (go_Join [SharedDir c, n])"
    "\<lambda>n. go_Join [ScriptMountPath c, n]" "\<lambda>n. go_Join [SharedDir c, n]" for c :: Config
  by unfold_locales (rule atomicCopy_ok atomicCopy_err; assumption)+

section \<open>Creating the shared directory\<close>

lemma osMkdirAll_old: "osMkdirAll p w = (r, w') \<Longrightarrow> fget w x \<noteq> None \<Longrightarrow> fget w' x = fget w x"
  by (auto simp: osMkdirAll_def fails_def elim!: with_fault_cases dest!: mk_dirs_frame [of _ _ _ _ x]
      split: prod.splits option.splits)

lemma osMkdirAll_new: "osMkdirAll p w = (r, w') \<Longrightarrow> fget w' x = fget w x \<or> fget w' x = Some Dir"
  by (auto simp: osMkdirAll_def fails_def elim!: with_fault_cases dest!: mk_dirs_new [of _ _ _ _ x]
      split: prod.splits option.splits)

lemma abs_dir_ancestor: "abs_dir d \<Longrightarrow> d \<in> set (ancestors d)"
proof -
  assume "abs_dir d"
  then obtain s where d: "d = slash # s" by (cases d) (auto simp: abs_dir_def)
  let ?es = "split_char slash s"
  have "length ?es \<in> set [1..<Suc (length ?es)]" by (cases ?es) (auto simp del: upt_Suc)
  moreover have "d = slash # join_char slash (take (length ?es) ?es)" using d by simp
  ultimately have "d \<in> (\<lambda>i. slash # join_char slash (take i ?es)) ` set [1..<Suc (length ?es)]"
    by (rule rev_image_eqI)
  then show ?thesis unfolding d by (simp only: ancestors_def list.case if_True simp_thms set_map)
qed

lemma osMkdirAll_ok:
  assumes "osMkdirAll d w = (Inr u, w')" and "abs_dir d"
  shows "fget w' d = Some Dir"
  using assms abs_dir_ancestor [OF assms(2)]
  by (auto simp: osMkdirAll_def fails_def elim!: with_fault_cases dest!: mk_dirs_ok
      split: prod.splits option.splits)

section \<open>Where the scripts of a BehaviorStub go\<close>

text \<open>
  The conditions under which the scripts of a stub do not get in each other's way: absolute directory
  names, commands that are plain names, no command that is another one's temporary file, and no script
  that lies in the shared directory.
\<close>

abbreviation command :: "SBehavior \<Rightarrow> string" where
  "command b \<equiv> targetCommand (sbTargetPath b)"

definition stub_ok :: "Config \<Rightarrow> SBehavior list \<Rightarrow> bool" where
  "stub_ok c bs \<longleftrightarrow> abs_dir (SharedDir c) \<and>
     (\<forall>b \<in> set bs. plain_name (command b) \<and> \<not> under (SharedDir c) (go_Clean (script_src c b)) \<and>
        tmp_of (command b) \<notin> command ` set bs)"

lemma under_child: "under d (d @ slash # n)"
  by (simp add: under_def)

lemma stub_paths:
  assumes "stub_ok c bs" and "b \<in> set bs"
  shows "script_dst c b = SharedDir c @ slash # command b"
    and "go_Clean (script_dst c b) = SharedDir c @ slash # command b"
    and "go_Clean (tmp_of (script_dst c b)) = SharedDir c @ slash # tmp_of (command b)"
    and "go_Dir (script_dst c b) = SharedDir c" and "go_Dir (tmp_of (script_dst c b)) = SharedDir c"
    and "plain_name (command b)" and "abs_dir (SharedDir c)"
proof -
  have d: "abs_dir (SharedDir c)" "plain_name (command b)" using assms by (auto simp: stub_ok_def)
  show 1: "script_dst c b = SharedDir c @ slash # command b"
    unfolding script_dst_def by (rule joined(1) [OF d])
  show "go_Clean (script_dst c b) = SharedDir c @ slash # command b"
    and "go_Clean (tmp_of (script_dst c b)) = SharedDir c @ slash # tmp_of (command b)"
    and "go_Dir (script_dst c b) = SharedDir c" and "go_Dir (tmp_of (script_dst c b)) = SharedDir c"
    unfolding 1 by (rule joined(2,3,5,6) [OF d])+
  show "plain_name (command b)" "abs_dir (SharedDir c)" by (rule d)+
qed

lemma stub_apart:
  assumes "stub_ok c bs"
  shows "syn.apart c bs"
  unfolding syn.apart_def
proof (intro ballI conjI)
  fix i j assume i: "i \<in> set bs" and j: "j \<in> set bs"
  note pi = stub_paths [OF assms i] and pj = stub_paths [OF assms j]
  have u: "\<not> under (SharedDir c) (go_Clean (script_src c i))" using assms i by (simp add: stub_ok_def)
  show "\<not> same_path (script_src c i) (script_dst c j)"
    and "\<not> same_path (script_src c i) (tmp_of (script_dst c j))"
    using u under_child unfolding pj(2,3) by metis+
  have "tmp_of (command j) \<notin> command ` set bs" using assms j by (simp add: stub_ok_def)
  then have "command i \<noteq> tmp_of (command j)" using i by (metis imageI)
  then show "\<not> same_path (script_dst c i) (tmp_of (script_dst c j))"
    unfolding pi(2) pj(3) by simp
qed

lemma SyncAllScripts_fetched:
  assumes "getBehaviorStub dc s = Inr bs"
  shows "SyncAllScripts dc s w =
    (case osMkdirAll (SharedDir (config s)) w of
       (Inl err, w1) \<Rightarrow> (Some (''failed to create shared directory: '' @ oserr_string err),
                        s\<lparr>behaviors := sbsBehaviors bs\<rparr>, w1)
     | (Inr u, w1) \<Rightarrow> (None, s\<lparr>behaviors := sbsBehaviors bs\<rparr>,
                      snd (for_continue (syncBehaviorScript (config s)) (sbsBehaviors bs) w1)))"
  using assms by (simp add: SyncAllScripts_def Let_def case_prod_beta split: prod.split sum.split)

lemma published_before:
  "published w1 s n \<Longrightarrow> fget w1 s = fget w s \<or> fget w1 s = Some Dir \<Longrightarrow> published w s n"
  by (auto simp: published_def)

lemma ancestors_abs: "abs_dir d \<Longrightarrow> a \<in> set (ancestors d) \<Longrightarrow> abs_dir a"
proof -
  assume "abs_dir d" and a: "a \<in> set (ancestors d)"
  then obtain es where d: "d = slash # join_char slash es" "es \<noteq> []" "\<forall>e \<in> set es. plain_name e"
    by (elim abs_dirE)
  then have sp: "split_char slash (join_char slash es) = es" by (intro split_join) auto
  from a obtain i where i: "1 \<le> i" "i \<le> length es" "a = slash # join_char slash (take i es)"
    unfolding d(1) by (auto simp: ancestors_def sp simp del: upt_Suc)
  then have "split_char slash (join_char slash (take i es)) = take i es"
    using d by (intro split_join) (auto dest: in_set_takeD)
  with i d show "abs_dir a" by (auto simp: abs_dir_def dest: in_set_takeD)
qed

lemma join_char_take: "length (join_char c (take i es)) \<le> length (join_char c es)"
proof (induction c es arbitrary: i rule: join_char.induct)
  case (3 c x y ys)
  show ?case using 3 [of "i - 1"]
    by (cases i; cases "i - 1") (auto split: nat.splits)
qed (auto simp: take_Cons' )

lemma ancestors_shorter: "abs_dir d \<Longrightarrow> a \<in> set (ancestors d) \<Longrightarrow> length a \<le> length d"
proof -
  assume "abs_dir d" and a: "a \<in> set (ancestors d)"
  then obtain t where d: "d = slash # t" by (elim abs_dirE) simp
  with a obtain i where "a = slash # join_char slash (take i (split_char slash t))"
    by (auto simp: ancestors_def simp del: upt_Suc)
  then show ?thesis using join_char_take [of slash i "split_char slash t"] d by simp
qed

lemma mk_dirs_other:
  "mk_dirs as w = (r, w') \<Longrightarrow> \<forall>a \<in> set as. \<not> same_path a x \<Longrightarrow> fget w' x = fget w x"
  by (induction as arbitrary: w) (auto split: option.splits node.splits)

lemma osMkdirAll_other:
  assumes "osMkdirAll d w = (r, w')" and "abs_dir d" and "go_Clean x \<notin> set (ancestors d)"
  shows "fget w' x = fget w x"
proof -
  have "\<forall>a \<in> set (ancestors d). \<not> same_path a x"
    using ancestors_abs [OF assms(2)] assms(3) by (metis clean_abs_dir)
  with assms(1,2) show ?thesis
    by (auto simp: osMkdirAll_def fails_def elim!: with_fault_cases dest!: mk_dirs_other [of _ _ _ _ x]
      split: prod.splits option.splits)
qed

lemma mk_dirs_possible:
  "\<forall>a \<in> set as. \<not> is_file (fget w a) \<Longrightarrow> \<exists>w'. mk_dirs as w = (None, w') \<and> sched w' = sched w"
proof (induction as arbitrary: w)
  case Nil
  then show ?case by simp
next
  case (Cons a as)
  have "\<forall>b \<in> set as. \<not> is_file (fget (fput a Dir w) b)" using Cons.prems by simp
  note 1 = Cons.IH [OF this]
  have "\<forall>b \<in> set as. \<not> is_file (fget w b)" using Cons.prems by simp
  note 2 = Cons.IH [OF this]
  show ?case
  proof (cases "fget w a")
    case None
    with 1 show ?thesis by simp
  next
    case (Some nd)
    with 2 Cons.prems show ?thesis by (cases nd) simp_all
  qed
qed

lemma osMkdirAll_possible:
  assumes "sched w = []" and "abs_dir d" and "\<forall>a \<in> set (ancestors d). \<not> is_file (fget w a)"
  shows "\<exists>w'. osMkdirAll d w = (Inr (), w') \<and> sched w' = []"
  using mk_dirs_possible [OF assms(3)] assms(1,2) by (auto simp: osMkdirAll_def with_fault_nil)

section \<open>Properties of the synchronisation\<close>

lemma sync_stub_effect:
  assumes "getBehaviorStub dc s = Inr stub" and "stub_ok (config s) (sbsBehaviors stub)"
    and "\<forall>b \<in> set (sbsBehaviors stub). \<not> same_path (tmp_of (script_dst (config s) b)) x"
    and "SyncAllScripts dc s w = (r, s', w')"
  shows "fget w' x = fget w x \<or>
    (fget w x = None \<and> fget w' x = Some Dir \<and> go_Clean x \<in> set (ancestors (SharedDir (config s)))) \<or>
    (\<exists>b \<in> set (sbsBehaviors stub). same_path (script_dst (config s) b) x \<and>
       published w (script_src (config s) b) (fget w' x))"
proof -
  let ?d = "SharedDir (config s)" and ?loop = "for_continue (syncBehaviorScript (config s)) (sbsBehaviors stub)"
  obtain m w1 where mk: "osMkdirAll ?d w = (m, w1)" by fastforce
  have d: "abs_dir ?d" using assms(2) by (simp add: stub_ok_def)
  have made: "fget w1 x = fget w x \<or>
      (fget w x = None \<and> fget w1 x = Some Dir \<and> go_Clean x \<in> set (ancestors ?d))"
    using osMkdirAll_new [OF mk, of x] osMkdirAll_old [OF mk, of x] osMkdirAll_other [OF mk d, of x] by metis
  show ?thesis
  proof (cases m)
    case (Inl e)
    with assms(4) mk have "w' = w1" by (simp add: SyncAllScripts_fetched [OF assms(1)])
    with made show ?thesis by blast
  next
    case (Inr u)
    with assms(4) mk have w': "w' = snd (?loop w1)" by (simp add: SyncAllScripts_fetched [OF assms(1)])
    have "published w1 (script_src (config s) b) n \<Longrightarrow> published w (script_src (config s) b) n" for b n
      using published_before [OF _ osMkdirAll_new [OF mk]] .
    with syn.continue_all_or_nothing [OF stub_apart [OF assms(2)] assms(3), of w1] made
    show ?thesis unfolding w' by metis
  qed
qed

text \<open>
  C8: every file the synchronisation touches is published in one piece. Whatever calls the operating
  system fails and wherever it fails them, afterwards each path that is not a temporary name is as it was,
  or is a directory newly made on the way to the shared directory, or is the destination of one of the
  behaviours of the stub and holds a complete copy, with mode 0755, of its source script.
\<close>

theorem sync_scripts_all_or_nothing:
  assumes "getBehaviorStub dc s = Inr stub" and "stub_ok (config s) (sbsBehaviors stub)"
    and "\<forall>b \<in> set (sbsBehaviors stub). \<not> same_path (tmp_of (script_dst (config s) b)) x"
    and "SyncAllScripts dc s w = (r, s', w')"
  shows "fget w' x = fget w x \<or>
    (fget w x = None \<and> fget w' x = Some Dir \<and> go_Clean x \<in> set (ancestors (SharedDir (config s)))) \<or>
    (\<exists>b \<in> set (sbsBehaviors stub). same_path (script_dst (config s) b) x \<and>
       published w (script_src (config s) b) (fget w' x))"
  by (rule sync_stub_effect [OF assms])

text \<open>What may stand in the way of a synchronisation that meets no failure.\<close>

definition shared_ready :: "Config \<Rightarrow> SBehavior list \<Rightarrow> world \<Rightarrow> bool" where
  "shared_ready c bs w \<longleftrightarrow> sched w = [] \<and>
     (\<forall>a \<in> set (ancestors (SharedDir c)). \<not> is_file (fget w a)) \<and>
     (\<forall>b \<in> set bs. fget w (script_dst c b) \<noteq> Some Dir \<and> fget w (tmp_of (script_dst c b)) \<noteq> Some Dir)"

definition sync_room :: "Config \<Rightarrow> SBehavior list \<Rightarrow> world \<Rightarrow> bool" where
  "sync_room c bs w \<longleftrightarrow> sched w = [] \<and> fget w (SharedDir c) = Some Dir \<and>
     (\<forall>b \<in> set bs. fget w (script_dst c b) \<noteq> Some Dir \<and> fget w (tmp_of (script_dst c b)) \<noteq> Some Dir)"

lemma sync_script_nil: "sched w = [] \<Longrightarrow> sched (snd (syncBehaviorScript c b w)) = []"
  by (auto simp: syncBehaviorScript_def Let_def nil_frame split: prod.splits sum.splits option.splits
      dest!: nil_step) (metis atomicCopy_nil nil_frame(1) snd_conv)+

lemma sync_script_dir:
  "syncBehaviorScript c b w = (r, w') \<Longrightarrow> fget w' x = Some Dir \<Longrightarrow> fget w x = Some Dir"
  by (auto simp: syncBehaviorScript_def Let_def split: prod.splits sum.splits option.splits if_splits
      dest!: dir_step(1) atomicCopy_dir)
    (metis atomicCopy_dir dir_step(1) prod.collapse)+

lemma sync_room_step:
  assumes "stub_ok c bs" and "b \<in> set bs" and "sync_room c bs w"
  shows "sync_room c bs (snd (syncBehaviorScript c b w))"
proof -
  obtain r w' where p: "syncBehaviorScript c b w = (r, w')" by fastforce
  note path = stub_paths [OF assms(1,2)]
  have "\<not> same_path (tmp_of (script_dst c b)) (script_src c b)"
    using syn.apartD(4) [OF stub_apart [OF assms(1)] assms(2,2)] .
  moreover have "\<not> same_path (script_dst c b) (SharedDir c)" "\<not> same_path (tmp_of (script_dst c b)) (SharedDir c)"
    unfolding path(2,3) clean_abs_dir [OF path(7)] by simp_all
  ultimately have "fget w' (SharedDir c) = fget w (SharedDir c)" by (rule syn.pub_frame [OF p])
  moreover have "sched w' = []" using sync_script_nil [of w c b] assms(3) p by (simp add: sync_room_def)
  ultimately show ?thesis using assms(3) sync_script_dir [OF p] by (auto simp: sync_room_def p)
qed

lemma sync_room_progress:
  assumes "stub_ok c bs" and "b \<in> set bs" and "sync_room c bs w" and "is_file (fget w (script_src c b))"
  shows "fst (syncBehaviorScript c b w) = None"
proof -
  note path = stub_paths [OF assms(1,2)]
  have "\<not> same_path (tmp_of (script_dst c b)) (script_src c b)"
    using syn.apartD(4) [OF stub_apart [OF assms(1)] assms(2,2)] .
  moreover have "\<not> same_path (tmp_of (script_dst c b)) (SharedDir c)"
    unfolding path(3) clean_abs_dir [OF path(7)] by simp
  ultimately have "can_publish w (script_src c b) (script_dst c b)"
    using assms by (simp add: can_publish_def sync_room_def path(4,5))
  then obtain w2 where "SidecarManager_atomicCopy (script_src c b) (script_dst c b) w = (None, w2)"
    using atomicCopy_progress [of w "script_src c b" "script_dst c b"] assms(3)
    unfolding sync_room_def by blast
  moreover have "osStat (script_src c b) w = (Inr (the (fget w (script_src c b))), w)"
    using assms(3,4) by (auto simp: osStat_def with_fault_nil sync_room_def)
  ultimately show ?thesis by (simp add: syncBehaviorScript_def)
qed

lemma sync_complete:
  assumes "getBehaviorStub dc s = Inr stub" and "stub_ok (config s) (sbsBehaviors stub)"
    and "distinct (map command (sbsBehaviors stub))"
    and "shared_ready (config s) (sbsBehaviors stub) w"
    and "SyncAllScripts dc s w = (r, s', w')"
  shows "r = None \<and> behaviors s' = sbsBehaviors stub \<and>
    (\<forall>b \<in> set (sbsBehaviors stub). is_file (fget w (script_src (config s) b)) \<longrightarrow>
       published w (script_src (config s) b) (fget w' (script_dst (config s) b)))"
proof -
  let ?c = "config s" and ?bs = "sbsBehaviors stub"
  let ?loop = "for_continue (syncBehaviorScript ?c) ?bs"
  have d: "abs_dir (SharedDir ?c)" using assms(2) by (simp add: stub_ok_def)
  obtain w1 where mk: "osMkdirAll (SharedDir ?c) w = (Inr (), w1)" and nil: "sched w1 = []"
    using osMkdirAll_possible [OF _ d, of w] assms(4) unfolding shared_ready_def by blast
  have out: "r = None \<and> behaviors s' = ?bs" and w': "w' = snd (?loop w1)"
    using assms(5) mk by (auto simp: SyncAllScripts_fetched [OF assms(1)])
  have same: "fget w1 x = fget w x \<or> fget w1 x = Some Dir" for x using osMkdirAll_new [OF mk] .
  have keep: "fget w1 x = fget w x" if "is_file (fget w x)" for x
    using that osMkdirAll_old [OF mk, of x] by (cases "fget w x") simp_all
  have under: "go_Clean (SharedDir ?c @ slash # n) \<notin> set (ancestors (SharedDir ?c))" if "plain_name n" for n
    using ancestors_shorter [OF d] that d by (fastforce simp: clean_abs_snoc)
  have "fget w1 (script_dst ?c b) = fget w (script_dst ?c b)"
    "fget w1 (tmp_of (script_dst ?c b)) = fget w (tmp_of (script_dst ?c b))" if "b \<in> set ?bs" for b
    using osMkdirAll_other [OF mk d] under stub_paths [OF assms(2) that] plain_tmp
    by (simp_all add: clean_abs_snoc)
  then have "sync_room ?c ?bs w1"
    using assms(4) nil osMkdirAll_ok [OF mk d] by (simp add: sync_room_def shared_ready_def)
  moreover have "distinct (map (go_Clean \<circ> script_dst ?c) ?bs)"
    using assms(3) stub_paths(2) [OF assms(2)] by (auto simp: distinct_map inj_on_def)
  ultimately have "\<forall>b \<in> set ?bs. is_file (fget w1 (script_src ?c b)) \<longrightarrow>
      published w1 (script_src ?c b) (fget w' (script_dst ?c b))"
    unfolding w'
    by (intro syn.continue_progress [where R = "sync_room ?c ?bs"] stub_apart [OF assms(2)]
        sync_room_step [OF assms(2)] sync_room_progress [OF assms(2)])
  with out keep published_before [OF _ same] show ?thesis by metis
qed

text \<open>
  C9: one synchronisation that meets no failure publishes every script it can. It returns no error, keeps
  the list of behaviours, and each behaviour whose script is a regular file gets a complete executable
  copy under its command; a behaviour whose script is missing leaves the others alone.
\<close>

theorem sync_scripts_complete:
  assumes "getBehaviorStub dc s = Inr stub" and "stub_ok (config s) (sbsBehaviors stub)"
    and "distinct (map command (sbsBehaviors stub))"
    and "shared_ready (config s) (sbsBehaviors stub) w"
    and "SyncAllScripts dc s w = (r, s', w')"
  shows "r = None \<and> behaviors s' = sbsBehaviors stub \<and>
    (\<forall>b \<in> set (sbsBehaviors stub). is_file (fget w (script_src (config s) b)) \<longrightarrow>
       published w (script_src (config s) b) (fget w' (script_dst (config s) b)))"
  by (rule sync_complete [OF assms])

text \<open>
  C39: the command of a target path is its last element up to its last dot: a path whose last element is a
  plain name without a dot stands for that name, and one with an extension for the name before it.
\<close>

theorem targetCommand_spec:
  assumes "slash \<notin> set n" and "n \<noteq> []" and "slash \<notin> set e" and "dot \<notin> set e"
  shows "targetCommand (d @ slash # n @ dot # e) = n \<and>
    (dot \<notin> set n \<longrightarrow> targetCommand (d @ slash # n) = n)"
proof -
  have "go_Base (d @ slash # n @ dot # e) = n @ dot # e" using assms by (intro base_abs) auto
  moreover have "go_Ext (n @ dot # e) = dot # e" using assms(1,3,4) by (rule ext_dot)
  moreover have "go_Base (d @ slash # n) = n" using assms(1,2) by (rule base_abs)
  ultimately show ?thesis by (simp add: targetCommand_def Let_def ext_none)
qed

text \<open>The fallback is the loop over the regular files of the script directory.\<close>

lemma for_continue_entries:
  "snd (for_continue (copy_entry c) es w) = snd (for_continue
     (\<lambda>n. SidecarManager_atomicCopy (go_Join [ScriptMountPath c, n]) (go_Join [SharedDir c, n]))
     (map fst (filter (\<lambda>e. \<not> snd e) es)) w)"
proof (induction es arbitrary: w)
  case Nil
  then show ?case by simp
next
  case (Cons e es)
  have snd_for: "snd (for_continue b (j # js) v) = snd (for_continue b js (snd (b j v)))"
    for b :: "'j \<Rightarrow> 'w \<Rightarrow> goerror option \<times> 'w" and j js v
    by (simp split: option.split prod.split)
  show ?case by (simp only: snd_for Cons.IH filter.simps) (simp add: snd_for copy_entry_def del: for_continue.simps)
qed

lemma dir_apart:
  "publishable (ScriptMountPath c) (SharedDir c) N \<Longrightarrow> set ns \<subseteq> N \<Longrightarrow> dir.apart c ns"
  by (auto simp: dir.apart_def publishable_apart subset_iff)

lemma regular_entries:
  assumes "osReadDir d w1 = (Inr es, w2)" and "abs_dir d"
    and "\<And>x. fget w1 x = fget w x \<or> fget w1 x = Some Dir"
  shows "set (map fst (filter (\<lambda>e. \<not> snd e) es)) \<subseteq> set (dir_names w d)"
proof
  fix n assume "n \<in> set (map fst (filter (\<lambda>e. \<not> snd e) es))"
  then have n: "n \<in> set (dir_names w1 d)" "fget w1 (go_Join [d, n]) \<noteq> Some Dir"
    unfolding osReadDir_ok(1) [OF assms(1)] by auto
  then have "plain_name n" "fget w1 (d @ slash # n) \<noteq> None" by (simp_all add: dir_names_iff [OF assms(2)])
  moreover from this n have "fget w (d @ slash # n) = fget w1 (d @ slash # n)"
    using assms(3) [of "d @ slash # n"] by (auto simp: joined(1) [OF assms(2)])
  ultimately show "n \<in> set (dir_names w d)" by (simp add: dir_names_iff [OF assms(2)])
qed

lemma sync_fallback_effect:
  assumes "getBehaviorStub dc s = Inl err"
    and "publishable (ScriptMountPath (config s)) (SharedDir (config s)) ns"
    and "set (dir_names w (ScriptMountPath (config s))) \<subseteq> ns"
    and "\<forall>n \<in> ns. \<not> same_path (tmp_of (go_Join [SharedDir (config s), n])) x"
    and "SyncAllScripts dc s w = (r, s', w')"
  shows "fget w' x = fget w x \<or>
    (fget w x = None \<and> fget w' x = Some Dir \<and> go_Clean x \<in> set (ancestors (SharedDir (config s)))) \<or>
    (\<exists>n \<in> ns. same_path (go_Join [SharedDir (config s), n]) x \<and>
       published w (go_Join [ScriptMountPath (config s), n]) (fget w' x))"
proof -
  let ?c = "config s"
  obtain m w1 where mk: "osMkdirAll (SharedDir ?c) w = (m, w1)" by fastforce
  obtain l w2 where ls: "osReadDir (ScriptMountPath ?c) w1 = (l, w2)" by fastforce
  have d: "abs_dir (SharedDir ?c)" "abs_dir (ScriptMountPath ?c)" using assms(2) by (simp_all add: publishable_def)
  have new: "fget w1 y = fget w y \<or> fget w1 y = Some Dir" for y using osMkdirAll_new [OF mk] .
  have made: "fget w1 x = fget w x \<or>
      (fget w x = None \<and> fget w1 x = Some Dir \<and> go_Clean x \<in> set (ancestors (SharedDir ?c)))"
    using new [of x] osMkdirAll_old [OF mk, of x] osMkdirAll_other [OF mk d(1), of x] by metis
  have w2: "fget w2 = fget w1" using ls by (rule osReadDir_frame)
  show ?thesis
  proof (cases "\<exists>u es. m = Inr u \<and> l = Inr es")
    case False
    with assms(5) mk ls have "fget w' = fget w1" using w2 made
      by (cases m; cases l) (auto simp: SyncAllScripts_def syncAllFromDirectory_def assms(1))
    with made show ?thesis unfolding \<open>fget w' = fget w1\<close> by blast
  next
    case True
    then obtain u es where ul: "m = Inr u" "l = Inr es" by blast
    let ?ns = "map fst (filter (\<lambda>e. \<not> snd e) es)"
    have sub: "set ?ns \<subseteq> ns" using regular_entries [OF _ d(2) new, of es w2] ls ul assms(3) by blast
    have "w' = snd (for_continue (copy_entry ?c) es w2)"
      using assms(5) mk ls ul by (auto simp: SyncAllScripts_def syncAllFromDirectory_def assms(1))
    moreover have "\<forall>n \<in> set ?ns. \<not> same_path (tmp_of (go_Join [SharedDir ?c, n])) x"
      using sub assms(4) by blast
    ultimately have "fget w' x = fget w2 x \<or> (\<exists>n \<in> set ?ns. same_path (go_Join [SharedDir ?c, n]) x \<and>
        published w2 (go_Join [ScriptMountPath ?c, n]) (fget w' x))"
      using dir.continue_all_or_nothing [OF dir_apart [OF assms(2) sub], of x w2]
      by (simp only: for_continue_entries)
    then show ?thesis
    proof
      assume "fget w' x = fget w2 x"
      with made w2 show ?thesis by metis
    next
      assume "\<exists>n \<in> set ?ns. same_path (go_Join [SharedDir ?c, n]) x \<and>
        published w2 (go_Join [ScriptMountPath ?c, n]) (fget w' x)"
      then obtain n where n: "n \<in> ns" "same_path (go_Join [SharedDir ?c, n]) x"
        and "published w1 (go_Join [ScriptMountPath ?c, n]) (fget w' x)"
        using sub unfolding published_def w2 by blast
      from published_before [OF this(3) new] n show ?thesis by blast
    qed
  qed
qed

text \<open>
  C30: the fallback without a stub. Whatever calls the operating system fails, each path that is not a
  temporary name is as it was, or is a directory newly made on the way to the shared directory, or holds a
  complete executable copy of the file of its name in the script directory.
\<close>

theorem sync_fallback_all_or_nothing:
  assumes "getBehaviorStub dc s = Inl err"
    and "publishable (ScriptMountPath (config s)) (SharedDir (config s)) ns"
    and "set (dir_names w (ScriptMountPath (config s))) \<subseteq> ns"
    and "\<forall>n \<in> ns. \<not> same_path (tmp_of (go_Join [SharedDir (config s), n])) x"
    and "SyncAllScripts dc s w = (r, s', w')"
  shows "fget w' x = fget w x \<or>
    (fget w x = None \<and> fget w' x = Some Dir \<and> go_Clean x \<in> set (ancestors (SharedDir (config s)))) \<or>
    (\<exists>n \<in> ns. same_path (go_Join [SharedDir (config s), n]) x \<and>
       published w (go_Join [ScriptMountPath (config s), n]) (fget w' x))"
  by (rule sync_fallback_effect [OF assms])

section \<open>Witnesses\<close>

definition demo_stub :: json where
  "demo_stub = JObj [(''kind'', JStr ''BehaviorStub''),
     (''spec'', JObj [(''behaviors'', JArr
        [JObj [(''name'', JStr ''l''), (''targetPath'', JStr ''/bin/ls''), (''scriptPath'', JStr ''ls.sh'')],
         JObj [(''name'', JStr ''c''), (''targetPath'', JStr ''/bin/cat''), (''scriptPath'', JStr ''none'')]])])]"

definition demo_client :: "json dynclient" where
  "demo_client = \<lparr>dcGet = (\<lambda>gvr ns name. if ns = ''default'' then Inr demo_stub else Inl ''not found''),
     dcMarshalJSON = Inr\<rparr>"

definition demo_manager :: "SidecarManager" where
  "demo_manager = NewSidecarManager (loadConfig Map.empty)"

definition lost_manager :: "SidecarManager" where
  "lost_manager = NewSidecarManager (loadConfig [''BEHAVIOR_STUB_NAMESPACE'' \<mapsto> ''other''])"

definition demo_behaviors :: "SBehavior list" where
  "demo_behaviors = [\<lparr>sbName = ''l'', sbTargetPath = ''/bin/ls'', sbScriptPath = ''ls.sh'', sbEnableLogging = False, sbLogPath = []\<rparr>,
     \<lparr>sbName = ''c'', sbTargetPath = ''/bin/cat'', sbScriptPath = ''none'', sbEnableLogging = False, sbLogPath = []\<rparr>]"

definition demo_files :: "(errno \<times> nat) option list \<Rightarrow> world" where
  "demo_files fs = \<lparr>files = [(''/'', Dir), (''/src'', Dir), (''/src/scripts'', Dir),
     (''/src/scripts/ls.sh'', File ''one'' 420 1)], sched = fs, clock = 1\<rparr>"

lemma demo_fetched: "getBehaviorStub demo_client demo_manager = Inr \<lparr>sbsBehaviors = demo_behaviors\<rparr>"
  by code_simp

lemma demo_stub_ok: "stub_ok (config demo_manager) demo_behaviors"
  by code_simp

text \<open>A write error in the copy leaves the command unpublished.\<close>

theorem sync_scripts_all_or_nothing_witness:
  "let w = demo_files [None, None, None, None, Some (ENOSPC, 2)];
       w' = snd (snd (SyncAllScripts demo_client demo_manager w))
   in fget w' ''/shared/ls'' = None \<or> published w ''/src/scripts/ls.sh'' (fget w' ''/shared/ls'')"
proof -
  define sy where "sy = SyncAllScripts demo_client demo_manager (demo_files [None, None, None, None, Some (ENOSPC, 2)])"
  have apart: "\<forall>b \<in> set (sbsBehaviors \<lparr>sbsBehaviors = demo_behaviors\<rparr>).
      \<not> same_path (tmp_of (script_dst (config demo_manager) b)) ''/shared/ls''"
    by code_simp
  have paths: "script_src (config demo_manager) b = ''/src/scripts/ls.sh''"
    if "b \<in> set demo_behaviors" "same_path (script_dst (config demo_manager) b) ''/shared/ls''" for b
  proof -
    have "\<forall>b \<in> set demo_behaviors. same_path (script_dst (config demo_manager) b) ''/shared/ls'' \<longrightarrow>
        script_src (config demo_manager) b = ''/src/scripts/ls.sh''" by code_simp
    with that show ?thesis by blast
  qed
  have new: "fget (demo_files fs) ''/shared/ls'' = None" for fs by code_simp
  have anc: "go_Clean ''/shared/ls'' \<notin> set (ancestors (SharedDir (config demo_manager)))" by code_simp
  have run: "SyncAllScripts demo_client demo_manager (demo_files [None, None, None, None, Some (ENOSPC, 2)])
      = (fst sy, fst (snd sy), snd (snd sy))"
    by (simp add: sy_def)
  from sync_scripts_all_or_nothing [OF demo_fetched, unfolded SBehaviorStub.simps, OF demo_stub_ok
      apart [unfolded SBehaviorStub.simps] run] anc paths new
  show ?thesis unfolding sy_def [symmetric] Let_def by metis
qed

theorem sync_scripts_complete_witness:
  "let sy = SyncAllScripts demo_client demo_manager (demo_files [])
   in fst sy = None \<and> published (demo_files []) ''/src/scripts/ls.sh'' (fget (snd (snd sy)) ''/shared/ls'')"
proof -
  define sy where "sy = SyncAllScripts demo_client demo_manager (demo_files [])"
  have d: "distinct (map command demo_behaviors)" by code_simp
  have r: "shared_ready (config demo_manager) demo_behaviors (demo_files [])" by code_simp
  have p: "script_src (config demo_manager) (hd demo_behaviors) = ''/src/scripts/ls.sh''"
    "script_dst (config demo_manager) (hd demo_behaviors) = ''/shared/ls''"
    "hd demo_behaviors \<in> set demo_behaviors" "is_file (fget (demo_files []) ''/src/scripts/ls.sh'')"
    by code_simp+
  have run: "SyncAllScripts demo_client demo_manager (demo_files []) = (fst sy, fst (snd sy), snd (snd sy))"
    by (simp add: sy_def)
  from sync_scripts_complete [OF demo_fetched, unfolded SBehaviorStub.simps, OF demo_stub_ok d r run]
  have "fst sy = None" "\<forall>b \<in> set demo_behaviors. is_file (fget (demo_files []) (script_src (config demo_manager) b)) \<longrightarrow>
      published (demo_files []) (script_src (config demo_manager) b) (fget (snd (snd sy)) (script_dst (config demo_manager) b))"
    by blast+
  with p show ?thesis unfolding sy_def [symmetric] Let_def by metis
qed

theorem targetCommand_spec_witness:
  "targetCommand ''/bin/ls'' = ''ls'' \<and> targetCommand ''/sbin/mkfs.ext4'' = ''mkfs''"
  using targetCommand_spec [of "''ls''" "''ext4''" "''/bin''"] targetCommand_spec [of "''mkfs''" "''ext4''" "''/sbin''"]
  by simp

theorem sync_fallback_all_or_nothing_witness:
  "let w = demo_files []; w' = snd (snd (SyncAllScripts demo_client lost_manager w))
   in fget w' ''/shared/ls.sh'' = None \<or> published w ''/src/scripts/ls.sh'' (fget w' ''/shared/ls.sh'')"
proof -
  define sy where "sy = SyncAllScripts demo_client lost_manager (demo_files [])"
  have get: "getBehaviorStub demo_client lost_manager = Inl ''failed to get BehaviorStub: not found''"
    by code_simp
  have mounts: "ScriptMountPath (config lost_manager) = ''/src/scripts''" "SharedDir (config lost_manager) = ''/shared''"
    by code_simp+
  have p: "publishable ''/src/scripts'' ''/shared'' {''ls.sh''}"
    by (simp add: publishable_def abs_dir_def plain_name_def)
  have names: "set (dir_names (demo_files []) ''/src/scripts'') \<subseteq> {''ls.sh''}" by code_simp
  have apart: "\<forall>n \<in> {''ls.sh''}. \<not> same_path (tmp_of (go_Join [''/shared'', n])) ''/shared/ls.sh''" by code_simp
  have x: "fget (demo_files []) ''/shared/ls.sh'' = None" "go_Clean ''/shared/ls.sh'' \<notin> set (ancestors ''/shared'')"
    "go_Join [''/src/scripts'', ''ls.sh''] = ''/src/scripts/ls.sh''"
    by code_simp+
  have run: "SyncAllScripts demo_client lost_manager (demo_files []) = (fst sy, fst (snd sy), snd (snd sy))"
    by (simp add: sy_def)
  from sync_fallback_all_or_nothing [OF get, unfolded mounts, OF p names apart run] x
  show ?thesis unfolding sy_def [symmetric] Let_def by (simp only: ball_simps bex_simps) metis
qed

end
