(* ===== verification/WatchLoop.thy ===== *)
theory WatchLoop
  imports Sidecar
begin

text \<open>
  The running sidecar of \<open>cmd/sidecar/main.go\<close>: the goroutine that watches the \<open>BehaviorStub\<close>
  (\<open>WatchBehaviorStub\<close>) with its fallback (\<open>WatchScripts\<close>), next to \<open>main\<close>, which waits for a
  signal. Steps of the goroutine, of \<open>main\<close> and of the rest of the system interleave freely; one step of
  the goroutine is one turn of its \<open>for\<close> loop. The set \<open>D\<close> holds the answers the API server may give
  at some time, \<open>C\<close> the contents that count as whole scripts.
\<close>

section \<open>Events\<close>

text \<open>
  An event has a type and an object. A receive from a closed channel gives the zero event, whose type is
  the empty string.
\<close>

type_synonym watch_event = string

definition watch_Added :: watch_event where "watch_Added = ''ADDED''"
definition watch_Modified :: watch_event where "watch_Modified = ''MODIFIED''"
definition watch_Deleted :: watch_event where "watch_Deleted = ''DELETED''"
definition watch_Error :: watch_event where "watch_Error = ''ERROR''"

record channel =
  pending :: "watch_event list"
  closed :: bool

text \<open>\<open>None\<close>: the receive blocks.\<close>

definition chan_recv :: "channel \<Rightarrow> (watch_event \<times> channel) option" where
  "chan_recv ch =
     (case pending ch of
        e # es \<Rightarrow> Some (e, ch\<lparr>pending := es\<rparr>)
      | [] \<Rightarrow> if closed ch then Some ([], ch) else None)"

definition handleEvent ::
    "'raw dynclient \<Rightarrow> watch_event \<Rightarrow> SidecarManager \<times> world \<Rightarrow> SidecarManager \<times> world" where
  "handleEvent dc ty st =
     (if ty = watch_Added \<or> ty = watch_Modified
      then (case SyncAllScripts dc (fst st) (snd st) of (r, s', w') \<Rightarrow> (s', w'))
      else if ty = watch_Deleted then (fst st, cleanupScripts (fst st) (snd st))
      else if ty = watch_Error then st
      else st)"

definition pollTick :: "'raw dynclient \<Rightarrow> SidecarManager \<times> world \<Rightarrow> SidecarManager \<times> world" where
  "pollTick dc st = (case SyncAllScripts dc (fst st) (snd st) of (r, s', w') \<Rightarrow> (s', w'))"

section \<open>The process\<close>

datatype goroutine = Watching | Polling | Finished
datatype main_pc = Waiting | Cancelled | Exited

record proc =
  manager :: SidecarManager
  os :: world
  chan :: channel
  routine :: goroutine
  mainpc :: main_pc

definition readyMarkerFile :: string where
  "readyMarkerFile = ''/tmp/dynastub-ready''"

text \<open>
  The goroutine of \<open>main\<close>: the watch call is made first; an error of it is the only one that
  \<open>WatchBehaviorStub\<close> returns, and it starts the polling loop.
\<close>

definition startWatch :: "goerror option \<Rightarrow> channel \<Rightarrow> SidecarManager \<Rightarrow> world \<Rightarrow> proc" where
  "startWatch watchErr ch s w =
     \<lparr>manager = s, os = w, chan = ch,
      routine = (case watchErr of None \<Rightarrow> Watching | Some err \<Rightarrow> Polling), mainpc = Waiting\<rparr>"

definition ctxDone :: "proc \<Rightarrow> bool" where
  "ctxDone p \<longleftrightarrow> mainpc p \<noteq> Waiting"

definition with_state :: "proc \<Rightarrow> SidecarManager \<times> world \<Rightarrow> proc" where
  "with_state p st = p\<lparr>manager := fst st, os := snd st\<rparr>"

text \<open>
  What the rest of the system may do to the files: anything outside the shared directory, as long as the
  sources stay whole scripts and the script directory keeps the names \<open>ok\<close> allows.
\<close>

definition environment :: "(world \<Rightarrow> bool) \<Rightarrow> Config \<Rightarrow> world \<Rightarrow> world \<Rightarrow> bool" where
  "environment ok c w w' \<longleftrightarrow>
     ok w' \<and> (\<forall>x. under (SharedDir c) (go_Clean x) \<longrightarrow> fget w' x = fget w x)"

inductive proc_step :: "'raw dynclient set \<Rightarrow> (world \<Rightarrow> bool) \<Rightarrow> proc \<Rightarrow> proc \<Rightarrow> bool" for D ok where
  watch_event: "mainpc p \<noteq> Exited \<Longrightarrow> routine p = Watching \<Longrightarrow> chan_recv (chan p) = Some (ty, ch) \<Longrightarrow>
     dc \<in> D \<Longrightarrow>
     proc_step D ok p (with_state (p\<lparr>chan := ch\<rparr>) (handleEvent dc ty (manager p, os p)))"
| watch_done: "mainpc p \<noteq> Exited \<Longrightarrow> routine p = Watching \<Longrightarrow> ctxDone p \<Longrightarrow>
     proc_step D ok p (p\<lparr>routine := Finished\<rparr>)"
| poll_tick: "mainpc p \<noteq> Exited \<Longrightarrow> routine p = Polling \<Longrightarrow> dc \<in> D \<Longrightarrow>
     proc_step D ok p (with_state p (pollTick dc (manager p, os p)))"
| poll_done: "mainpc p \<noteq> Exited \<Longrightarrow> routine p = Polling \<Longrightarrow> ctxDone p \<Longrightarrow>
     proc_step D ok p (p\<lparr>routine := Finished\<rparr>)"
| signal: "mainpc p = Waiting \<Longrightarrow> proc_step D ok p (p\<lparr>mainpc := Cancelled\<rparr>)"
| exit: "mainpc p = Cancelled \<Longrightarrow>
     proc_step D ok p (p\<lparr>mainpc := Exited, os := snd (osRemove readyMarkerFile (os p))\<rparr>)"
| server_event: "\<not> closed (chan p) \<Longrightarrow>
     proc_step D ok p (p\<lparr>chan := (chan p)\<lparr>pending := pending (chan p) @ [ty]\<rparr>\<rparr>)"
| server_close: "proc_step D ok p (p\<lparr>chan := (chan p)\<lparr>closed := True\<rparr>\<rparr>)"
| edit: "environment ok (config (manager p)) (os p) w' \<Longrightarrow> proc_step D ok p (p\<lparr>os := w'\<rparr>)"

inductive_cases proc_stepE: "proc_step D ok p p'"

inductive reach :: "'raw dynclient set \<Rightarrow> (world \<Rightarrow> bool) \<Rightarrow> proc \<Rightarrow> proc \<Rightarrow> bool" for D ok p0 where
  here: "reach D ok p0 p0"
| step: "reach D ok p0 p \<Longrightarrow> proc_step D ok p p' \<Longrightarrow> reach D ok p0 p'"

lemma reach_inv:
  assumes "reach D ok p0 p" and "I p0" and "\<And>q q'. I q \<Longrightarrow> proc_step D ok q q' \<Longrightarrow> I q'"
  shows "I p"
  using assms(1) by induction (auto intro: assms(2,3))

lemma with_state_fields [simp]:
  "chan (with_state p st) = chan p" "routine (with_state p st) = routine p"
  "mainpc (with_state p st) = mainpc p" "manager (with_state p st) = fst st" "os (with_state p st) = snd st"
  by (simp_all add: with_state_def)

text \<open>The main goroutine only moves forward: from waiting to cancelled to exited.\<close>

fun pc_rank :: "main_pc \<Rightarrow> nat" where
  "pc_rank Waiting = 0"
| "pc_rank Cancelled = 1"
| "pc_rank Exited = 2"

instantiation main_pc :: linorder
begin

definition less_eq_main_pc :: "main_pc \<Rightarrow> main_pc \<Rightarrow> bool" where
  "less_eq_main_pc a b \<longleftrightarrow> pc_rank a \<le> pc_rank b"

definition less_main_pc :: "main_pc \<Rightarrow> main_pc \<Rightarrow> bool" where
  "less_main_pc a b \<longleftrightarrow> pc_rank a < pc_rank b"

instance
proof
  fix a b c :: main_pc
  show "a < b \<longleftrightarrow> a \<le> b \<and> \<not> b \<le> a" by (auto simp: less_eq_main_pc_def less_main_pc_def)
  show "a \<le> a" by (simp add: less_eq_main_pc_def)
  show "a \<le> b \<Longrightarrow> b \<le> c \<Longrightarrow> a \<le> c" by (simp add: less_eq_main_pc_def)
  show "a \<le> b \<Longrightarrow> b \<le> a \<Longrightarrow> a = b" by (cases a; cases b) (simp_all add: less_eq_main_pc_def)
  show "a \<le> b \<or> b \<le> a" by (auto simp: less_eq_main_pc_def)
qed

end

lemmas pc_order = less_eq_main_pc_def less_main_pc_def

lemma proc_step_forward: "proc_step D ok p p' \<Longrightarrow> mainpc p \<le> mainpc p'"
  by (erule proc_stepE) (simp_all add: pc_order)

lemma exited_step:
  "proc_step D ok p p' \<Longrightarrow> mainpc p = Exited \<Longrightarrow>
     mainpc p' = Exited \<and> manager p' = manager p \<and> routine p' = routine p \<and>
     (os p' = os p \<or> environment ok (config (manager p)) (os p) (os p'))"
  by (erule proc_stepE) simp_all

section \<open>Whole scripts only\<close>

lemma under_iff: "under d q \<longleftrightarrow> q = d \<or> (\<exists>r. q = d @ slash # r)"
proof -
  have "take (Suc (length d)) q = d @ [slash] \<longleftrightarrow> (\<exists>r. q = d @ slash # r)"
  proof
    assume "take (Suc (length d)) q = d @ [slash]"
    then have "q = (d @ [slash]) @ drop (Suc (length d)) q" by (metis append_take_drop_id)
    then show "\<exists>r. q = d @ slash # r" by auto
  qed auto
  then show ?thesis by (simp add: under_def)
qed

lemma under_trans: "under a b \<Longrightarrow> under b c \<Longrightarrow> under a c"
  by (auto simp: under_iff)

lemma under_child_cases:
  assumes "under m (d @ slash # n)" and "slash \<notin> set n"
  shows "m = d @ slash # n \<or> under m d"
proof -
  from assms(1) consider "m = d @ slash # n" | r where "d @ slash # n = m @ slash # r"
    by (auto simp: under_iff)
  then show ?thesis
  proof cases
    case 2
    then obtain us where "d = m @ us \<and> us @ slash # n = slash # r \<or> d @ us = m \<and> slash # n = us @ slash # r"
      by (auto simp: append_eq_append_conv2)
    with assms(2) show ?thesis by (cases us) (auto simp: under_iff)
  qed simp
qed

lemma ancestor_under: "abs_dir d \<Longrightarrow> a \<in> set (ancestors d) \<Longrightarrow> under a d"
proof -
  assume "abs_dir d" and a: "a \<in> set (ancestors d)"
  then obtain t where d: "d = slash # t" by (elim abs_dirE) simp
  let ?es = "split_char slash t"
  from a d obtain i where i: "1 \<le> i" "i \<le> length ?es" "a = slash # join_char slash (take i ?es)"
    by (auto simp: ancestors_def simp del: upt_Suc)
  have "join_char c xs @ (if ys = [] then [] else c # join_char c ys) = join_char c (xs @ ys)"
    if "xs \<noteq> []" for c xs ys
    using that by (induction c xs rule: join_char.induct) (auto split: if_splits simp: neq_Nil_conv)
  from this [of "take i ?es" slash "drop i ?es"] i
  have "t = join_char slash (take i ?es) @ (if drop i ?es = [] then [] else slash # join_char slash (drop i ?es))"
    by (cases i) auto
  then show "under a d" unfolding d i(3) under_iff by (auto split: if_splits)
qed

definition tmp_name :: "string \<Rightarrow> bool" where
  "tmp_name n \<longleftrightarrow> drop (length n - 4) n = ''.tmp''"

lemma tmp_name_tmp [simp]: "tmp_name (tmp_of n)"
  by (simp add: tmp_name_def)

definition dirs_apart :: "Config \<Rightarrow> bool" where
  "dirs_apart c \<longleftrightarrow> abs_dir (ScriptMountPath c) \<and> abs_dir (SharedDir c) \<and>
     \<not> under (ScriptMountPath c) (SharedDir c) \<and> \<not> under (SharedDir c) (ScriptMountPath c)"

definition stub_safe :: "Config \<Rightarrow> SBehavior list \<Rightarrow> bool" where
  "stub_safe c bs \<longleftrightarrow> stub_ok c bs \<and>
     (\<forall>b \<in> set bs. under (ScriptMountPath c) (go_Clean (script_src c b)) \<and> \<not> tmp_name (command b))"

definition client_safe :: "Config \<Rightarrow> 'raw dynclient \<Rightarrow> bool" where
  "client_safe c dc \<longleftrightarrow> (case getBehaviorStub dc (NewSidecarManager c) of
     Inl e \<Rightarrow> True | Inr stub \<Rightarrow> stub_safe c (sbsBehaviors stub))"

definition sources_ok :: "string set \<Rightarrow> Config \<Rightarrow> world \<Rightarrow> bool" where
  "sources_ok C c w \<longleftrightarrow>
     (\<forall>x ct m t. under (ScriptMountPath c) (go_Clean x) \<longrightarrow> fget w x = Some (File ct m t) \<longrightarrow> ct \<in> C) \<and>
     (\<forall>n. plain_name n \<longrightarrow> fget w (ScriptMountPath c @ slash # n) \<noteq> None \<longrightarrow> \<not> tmp_name n)"

definition scripts_whole :: "string set \<Rightarrow> Config \<Rightarrow> world \<Rightarrow> bool" where
  "scripts_whole C c w \<longleftrightarrow> (\<forall>n ct m t. plain_name n \<longrightarrow> \<not> tmp_name n \<longrightarrow>
     fget w (SharedDir c @ slash # n) = Some (File ct m t) \<longrightarrow> ct \<in> C \<and> m = 493)"

lemma getBehaviorStub_config: "config s = config s' \<Longrightarrow> getBehaviorStub dc s = getBehaviorStub dc s'"
  by (simp add: getBehaviorStub_def)

lemma SyncAllScripts_config: "SyncAllScripts dc s w = (r, s', w') \<Longrightarrow> config s' = config s"
  by (auto simp: SyncAllScripts_def Let_def split: sum.splits prod.splits)

lemma dirs_apart_fallback:
  assumes "dirs_apart c" and "sources_ok C c w"
  shows "publishable (ScriptMountPath c) (SharedDir c) (set (dir_names w (ScriptMountPath c)))"
    and "n \<in> set (dir_names w (ScriptMountPath c)) \<Longrightarrow> \<not> tmp_name n"
proof -
  have d: "abs_dir (ScriptMountPath c)" using assms(1) by (simp add: dirs_apart_def)
  show nt: "\<not> tmp_name n" if "n \<in> set (dir_names w (ScriptMountPath c))" for n
    using that assms(2) by (auto simp: dir_names_iff [OF d] sources_ok_def)
  have "ScriptMountPath c \<noteq> SharedDir c" using assms(1) by (auto simp: dirs_apart_def under_iff)
  moreover have "tmp_of n \<notin> set (dir_names w (ScriptMountPath c))" for n
    using nt [of "tmp_of n"] tmp_name_tmp by blast
  ultimately show "publishable (ScriptMountPath c) (SharedDir c) (set (dir_names w (ScriptMountPath c)))"
    using assms(1) by (auto simp: publishable_def dirs_apart_def dir_names_iff [OF d])
qed

text \<open>What a synchronisation does to a path, whether it uses the stub or the fallback.\<close>

lemma sync_effect:
  assumes "dirs_apart c" and "sources_ok C c w" and "client_safe c dc" and "config s = c"
    and "SyncAllScripts dc s w = (r, s', w')"
    and "\<forall>n. plain_name n \<longrightarrow> go_Clean x \<noteq> SharedDir c @ slash # tmp_of n"
  shows "fget w' x = fget w x \<or>
    (fget w x = None \<and> fget w' x = Some Dir \<and> go_Clean x \<in> set (ancestors (SharedDir c))) \<or>
    (\<exists>q n. under (ScriptMountPath c) (go_Clean q) \<and> plain_name n \<and> \<not> tmp_name n \<and>
       go_Clean x = SharedDir c @ slash # n \<and> published w q (fget w' x))"
proof (cases "getBehaviorStub dc s")
  case (Inr stub)
  then have safe: "stub_safe c (sbsBehaviors stub)"
    using assms(3,4) getBehaviorStub_config [of s "NewSidecarManager c" dc]
    by (simp add: client_safe_def NewSidecarManager_def)
  then have ok: "stub_ok c (sbsBehaviors stub)" by (simp add: stub_safe_def)
  have "\<forall>b \<in> set (sbsBehaviors stub). \<not> same_path (tmp_of (script_dst c b)) x"
    using assms(6) stub_paths(3,6) [OF ok] by metis
  from sync_stub_effect [OF Inr, of x w r s' w'] this ok assms(4,5) show ?thesis
    using safe stub_paths(2,6) [OF ok] unfolding stub_safe_def by metis
next
  case (Inl e)
  let ?ns = "set (dir_names w (ScriptMountPath c))"
  note pub = dirs_apart_fallback [OF assms(1,2)]
  have d: "abs_dir (SharedDir c)" "abs_dir (ScriptMountPath c)" using assms(1) by (simp_all add: dirs_apart_def)
  have pl: "plain_name n" if "n \<in> ?ns" for n using pub(1) that by (simp add: publishable_def)
  have "\<forall>n \<in> ?ns. \<not> same_path (tmp_of (go_Join [SharedDir c, n])) x"
    using assms(6) pl joined(1,3) [OF d(1)] by metis
  moreover have "under (ScriptMountPath c) (go_Clean (go_Join [ScriptMountPath c, n]))" if "n \<in> ?ns" for n
    using joined(1,2) [OF d(2) pl [OF that]] under_child by simp
  ultimately show ?thesis
    using sync_fallback_effect [OF Inl, of ?ns w x r s' w'] pub pl assms(4,5) joined(1,2) [OF d(1)]
    by (metis order_refl)
qed

lemma mount_apart:
  assumes "dirs_apart c" and "under (ScriptMountPath c) y"
  shows "y \<notin> set (ancestors (SharedDir c))" and "slash \<notin> set n \<Longrightarrow> y \<noteq> SharedDir c @ slash # n"
proof -
  have d: "abs_dir (SharedDir c)" "\<not> under (ScriptMountPath c) (SharedDir c)"
    "\<not> under (SharedDir c) (ScriptMountPath c)"
    using assms(1) by (simp_all add: dirs_apart_def)
  show "y \<notin> set (ancestors (SharedDir c))"
    using ancestor_under [OF d(1)] under_trans [OF assms(2)] d(2) by blast
  show "y \<noteq> SharedDir c @ slash # n" if "slash \<notin> set n"
    using under_child_cases [of "ScriptMountPath c" "SharedDir c" n] that assms(2) d(2,3) under_child by metis
qed

lemma sync_keeps_sources:
  assumes "dirs_apart c" and "sources_ok C c w" and "client_safe c dc" and "config s = c"
    and "SyncAllScripts dc s w = (r, s', w')" and "under (ScriptMountPath c) (go_Clean x)"
  shows "fget w' x = fget w x"
proof -
  have "slash \<notin> set n \<and> slash \<notin> set (tmp_of n)" if "plain_name n" for n
    using plain_noslash [OF that] by simp
  then have "\<forall>n. plain_name n \<longrightarrow> go_Clean x \<noteq> SharedDir c @ slash # tmp_of n \<and> go_Clean x \<noteq> SharedDir c @ slash # n"
    using mount_apart(2) [OF assms(1,6)] by blast
  with sync_effect [OF assms(1-5), of x] mount_apart(1) [OF assms(1,6)] show ?thesis by blast
qed

lemma sync_keeps_whole:
  assumes "dirs_apart c" and "sources_ok C c w" and "client_safe c dc" and "config s = c"
    and "SyncAllScripts dc s w = (r, s', w')" and "scripts_whole C c w"
  shows "sources_ok C c w'" and "scripts_whole C c w'"
proof -
  have d: "abs_dir (SharedDir c)" "abs_dir (ScriptMountPath c)" using assms(1) by (simp_all add: dirs_apart_def)
  have "under (ScriptMountPath c) (go_Clean (ScriptMountPath c @ slash # n))" if "plain_name n" for n
    using clean_abs_snoc [OF d(2) that] under_child by simp
  with sync_keeps_sources [OF assms(1-5)] show "sources_ok C c w'"
    using assms(2) unfolding sources_ok_def by metis
  show "scripts_whole C c w'"
    unfolding scripts_whole_def
  proof (intro allI impI)
    fix n ct m t
    assume n: "plain_name n" "\<not> tmp_name n" and f: "fget w' (SharedDir c @ slash # n) = Some (File ct m t)"
    have cl: "go_Clean (SharedDir c @ slash # n) = SharedDir c @ slash # n" by (rule clean_abs_snoc [OF d(1) n(1)])
    have "\<forall>k. plain_name k \<longrightarrow> go_Clean (SharedDir c @ slash # n) \<noteq> SharedDir c @ slash # tmp_of k"
      unfolding cl using n(2) tmp_name_tmp by blast
    from sync_effect [OF assms(1-5) this] f
    consider "fget w (SharedDir c @ slash # n) = Some (File ct m t)"
      | q where "under (ScriptMountPath c) (go_Clean q)" "published w q (Some (File ct m t))"
      by auto
    then show "ct \<in> C \<and> m = 493"
    proof cases
      case 1
      with assms(6) n show ?thesis by (auto simp: scripts_whole_def)
    next
      case 2
      with assms(2) show ?thesis by (auto simp: sources_ok_def published_def)
    qed
  qed
qed

lemma cleanup_keeps_whole:
  assumes "sources_ok C c w" and "scripts_whole C c w"
  shows "sources_ok C c (cleanupScripts s w)" and "scripts_whole C c (cleanupScripts s w)"
proof -
  have 1: "fget (cleanupScripts s w) x = fget w x \<or> fget (cleanupScripts s w) x = None" for x
    using osRemoveAll_effect [of "SharedDir (config s)" w "fst (osRemoveAll (SharedDir (config s)) w)"
        "cleanupScripts s w" x]
    by (auto simp: cleanupScripts_def)
  from assms(1) show "sources_ok C c (cleanupScripts s w)"
    unfolding sources_ok_def using 1 by (metis option.distinct(1))
  from assms(2) show "scripts_whole C c (cleanupScripts s w)"
    unfolding scripts_whole_def using 1 by (metis option.distinct(1))
qed

text \<open>The invariant of the process.\<close>

definition proc_inv :: "string set \<Rightarrow> Config \<Rightarrow> proc \<Rightarrow> bool" where
  "proc_inv C c p \<longleftrightarrow> config (manager p) = c \<and> sources_ok C c (os p) \<and> scripts_whole C c (os p)"

lemma scripts_whole_cong:
  assumes "abs_dir (SharedDir c)" and "\<forall>x. under (SharedDir c) (go_Clean x) \<longrightarrow> fget w' x = fget w x"
    and "scripts_whole C c w"
  shows "scripts_whole C c w'"
  using assms unfolding scripts_whole_def by (metis clean_abs_snoc under_child)

lemma osRemove_keeps_whole:
  assumes "sources_ok C c w" and "scripts_whole C c w"
  shows "sources_ok C c (snd (osRemove p w))" and "scripts_whole C c (snd (osRemove p w))"
proof -
  have 1: "fget (snd (osRemove p w)) x = fget w x \<or> fget (snd (osRemove p w)) x = None" for x
    using osRemove_any [of p w "fst (osRemove p w)" "snd (osRemove p w)"] by (auto split: if_splits)
  from assms(1) show "sources_ok C c (snd (osRemove p w))"
    unfolding sources_ok_def using 1 by (metis option.distinct(1))
  from assms(2) show "scripts_whole C c (snd (osRemove p w))"
    unfolding scripts_whole_def using 1 by (metis option.distinct(1))
qed

lemma sync_turn_inv:
  assumes "dirs_apart c" and "client_safe c dc" and "proc_inv C c p"
  shows "proc_inv C c (with_state (p\<lparr>chan := ch\<rparr>) (pollTick dc (manager p, os p)))"
proof -
  obtain r s' w' where sy: "SyncAllScripts dc (manager p) (os p) = (r, s', w')" by (cases "SyncAllScripts dc (manager p) (os p)") auto
  have p: "config (manager p) = c" "sources_ok C c (os p)" "scripts_whole C c (os p)"
    using assms(3) by (simp_all add: proc_inv_def)
  from sync_keeps_whole [OF assms(1) p(2) assms(2) p(1) sy p(3)] SyncAllScripts_config [OF sy] p(1)
  show ?thesis by (simp add: proc_inv_def pollTick_def sy)
qed

lemma handleEvent_sync: "ty = watch_Added \<or> ty = watch_Modified \<Longrightarrow> handleEvent dc ty st = pollTick dc st"
  by (simp only: handleEvent_def pollTick_def if_True)

lemma handleEvent_cleanup: "handleEvent dc watch_Deleted st = (fst st, cleanupScripts (fst st) (snd st))"
  by (simp add: handleEvent_def watch_Added_def watch_Modified_def watch_Deleted_def)

lemma handleEvent_ignore: "ty \<notin> {watch_Added, watch_Modified, watch_Deleted} \<Longrightarrow> handleEvent dc ty st = st"
  by (simp add: handleEvent_def)

lemma handleEvent_cases:
  obtains (sync) "ty = watch_Added \<or> ty = watch_Modified" "handleEvent dc ty st = pollTick dc st"
  | (cleanup) "ty = watch_Deleted" "handleEvent dc ty st = (fst st, cleanupScripts (fst st) (snd st))"
  | (ignore) "ty \<notin> {watch_Added, watch_Modified, watch_Deleted}" "handleEvent dc ty st = st"
  using handleEvent_sync handleEvent_cleanup handleEvent_ignore by (metis empty_iff insert_iff)

lemma event_turn_inv:
  assumes "dirs_apart c" and "client_safe c dc" and "proc_inv C c p"
  shows "proc_inv C c (with_state (p\<lparr>chan := ch\<rparr>) (handleEvent dc ty (manager p, os p)))"
proof (cases rule: handleEvent_cases [of ty dc "(manager p, os p)"])
  case sync
  with sync_turn_inv [OF assms] show ?thesis by simp
next
  case cleanup
  with cleanup_keeps_whole assms(3) show ?thesis by (simp add: proc_inv_def)
next
  case ignore
  with assms(3) show ?thesis by (simp add: proc_inv_def)
qed

lemma proc_step_inv:
  assumes "dirs_apart c" and "\<forall>dc \<in> D. client_safe c dc" and "proc_inv C c p"
    and "proc_step D (sources_ok C c) p p'"
  shows "proc_inv C c p'"
  using assms(4)
proof (cases rule: proc_step.cases)
  case (watch_event ty ch dc)
  then have "client_safe c dc" using assms(2) by blast
  from event_turn_inv [OF assms(1) this assms(3)] watch_event show ?thesis by simp
next
  case (poll_tick dc)
  with sync_turn_inv [OF assms(1) _ assms(3), of dc "chan p"] assms(2) show ?thesis by simp
next
  case exit
  with osRemove_keeps_whole assms(3) show ?thesis by (simp add: proc_inv_def)
next
  case (edit w')
  have "abs_dir (SharedDir c)" using assms(1) by (simp add: dirs_apart_def)
  with edit assms(3) scripts_whole_cong [of c w' "os p" C] show ?thesis
    by (simp add: proc_inv_def environment_def)
qed (use assms(3) in \<open>simp_all add: proc_inv_def\<close>)

section \<open>Properties of the running sidecar\<close>

text \<open>
  A command a container can run from the shared directory is always a whole script. In every state the
  running sidecar can reach, through any events, polls, signals, edits of the sources and failures of
  system calls, each file of the shared directory whose name is no temporary name has mode 0755 and one of
  the contents that the sources had.
\<close>

theorem sidecar_scripts_whole:
  assumes "dirs_apart c" and "\<forall>dc \<in> D. client_safe c dc" and "sources_ok C c w" and "scripts_whole C c w"
    and "reach D (sources_ok C c) (startWatch watchErr ch (NewSidecarManager c) w) p"
    and "plain_name n" and "\<not> tmp_name n" and "fget (os p) (SharedDir c @ slash # n) = Some (File ct m t)"
  shows "ct \<in> C \<and> m = 493"
proof -
  have "proc_inv C c (startWatch watchErr ch (NewSidecarManager c) w)"
    using assms(3,4) by (simp add: proc_inv_def startWatch_def NewSidecarManager_def)
  with assms(5) have "proc_inv C c p"
    by (rule reach_inv) (rule proc_step_inv [OF assms(1,2)])
  with assms(6-8) show ?thesis by (auto simp: proc_inv_def scripts_whole_def)
qed

text \<open>
  The polling loop runs only when the first watch call fails. Once the watch is established, no event
  and no end of the event stream ever starts it.
\<close>

theorem fallback_only_at_start:
  assumes "reach D ok (startWatch None ch s w) p"
  shows "routine p \<noteq> Polling"
proof -
  have "routine (startWatch None ch s w) \<noteq> Polling" by (simp add: startWatch_def)
  with assms show ?thesis
    by (rule reach_inv [where I = "\<lambda>p. routine p \<noteq> Polling"]) (auto elim: proc_step.cases)
qed

definition deaf :: "proc \<Rightarrow> bool" where
  "deaf p \<longleftrightarrow> closed (chan p) \<and> pending (chan p) = [] \<and> routine p \<noteq> Polling"

lemma deaf_step:
  assumes "deaf p" and "proc_step D ok p p'" and "\<not> under (SharedDir (config (manager p))) readyMarkerFile"
  shows "deaf p' \<and> manager p' = manager p \<and>
    (\<forall>x. under (SharedDir (config (manager p))) (go_Clean x) \<longrightarrow> fget (os p') x = fget (os p) x)"
  using assms(2)
proof (cases rule: proc_step.cases)
  case (watch_event ty ch dc)
  then have "ty = []" "ch = chan p" using assms(1) by (simp_all add: chan_recv_def deaf_def)
  moreover have "[] \<notin> {watch_Added, watch_Modified, watch_Deleted}"
    by (simp add: watch_Added_def watch_Modified_def watch_Deleted_def)
  ultimately show ?thesis using watch_event assms(1) handleEvent_ignore [of "[]" dc "(manager p, os p)"]
    by (simp add: deaf_def)
next
  case exit
  have "go_Clean readyMarkerFile = readyMarkerFile" by code_simp
  with assms(3) have "fget (snd (osRemove readyMarkerFile (os p))) x = fget (os p) x"
    if "under (SharedDir (config (manager p))) (go_Clean x)" for x
    using that osRemove_any [of readyMarkerFile "os p" "fst (osRemove readyMarkerFile (os p))"
        "snd (osRemove readyMarkerFile (os p))"]
    by (auto split: if_splits)
  with exit assms(1) show ?thesis by (simp add: deaf_def)
qed (use assms(1) in \<open>auto simp: deaf_def environment_def\<close>)


text \<open>
  The shutdown is orderly and final. The main goroutine never moves back, and from the state in which it
  has exited no synchronisation happens any more: the shared directory stays as it is, whatever events still
  arrive.
\<close>

theorem shutdown_is_final:
  assumes "reach D ok p p'"
  shows "mainpc p \<le> mainpc p' \<and>
    (mainpc p = Exited \<longrightarrow> manager p' = manager p \<and> routine p' = routine p \<and>
      (\<forall>x. under (SharedDir (config (manager p))) (go_Clean x) \<longrightarrow> fget (os p') x = fget (os p) x))"
  using assms
proof induction
  case here
  then show ?case by simp
next
  case (step q q')
  have "mainpc q = Exited" if "mainpc p = Exited"
    using step.IH that by (cases "mainpc q") (simp_all add: pc_order)
  with step.IH exited_step [OF step.hyps(2)] order_trans [OF _ proc_step_forward [OF step.hyps(2)]]
  show ?case by (auto simp: environment_def)
qed

section \<open>Witnesses\<close>

definition demo_config :: Config where
  "demo_config = loadConfig Map.empty"

lemma demo_dirs: "SharedDir demo_config = ''/shared'' \<and> ScriptMountPath demo_config = ''/src/scripts''"
  by code_simp

lemma demo_dirs_apart: "dirs_apart demo_config"
  by code_simp

lemma demo_client_safe: "\<forall>dc \<in> {demo_client}. client_safe demo_config dc"
proof -
  have "client_safe demo_config demo_client" by code_simp
  then show ?thesis by simp
qed

lemma fget_in: "fget w x = Some nd \<Longrightarrow> (go_Clean x, nd) \<in> set (files w)"
  by (auto simp: fget_def dest: map_of_SomeD)

text \<open>Both conditions can be read off the list of files.\<close>

lemma sources_ok_files:
  assumes "\<forall>e \<in> set (files w). case snd e of File ct m t \<Rightarrow> ct \<in> C | Dir \<Rightarrow> True"
    and "\<forall>n \<in> set (dir_names w (ScriptMountPath c)). \<not> tmp_name n" and "abs_dir (ScriptMountPath c)"
  shows "sources_ok C c w"
proof -
  have "ct \<in> C" if "fget w x = Some (File ct m t)" for x ct m t
    using bspec [OF assms(1) fget_in [OF that]] by simp
  moreover have "\<not> tmp_name n" if "plain_name n" "fget w (ScriptMountPath c @ slash # n) \<noteq> None" for n
    using assms(2) that dir_names_iff [OF assms(3), of n w] by blast
  ultimately show ?thesis unfolding sources_ok_def by metis
qed

lemma scripts_whole_files:
  assumes "\<forall>e \<in> set (files w). \<not> under (SharedDir c) (fst e)" and "abs_dir (SharedDir c)"
  shows "scripts_whole C c w"
proof -
  have "fget w (SharedDir c @ slash # n) \<noteq> Some nd" if "plain_name n" for n nd
    using assms(1) fget_in [of w "SharedDir c @ slash # n" nd] under_child [of "SharedDir c" n]
    unfolding clean_abs_snoc [OF assms(2) that] by fastforce
  then show ?thesis unfolding scripts_whole_def by metis
qed

lemma demo_sources_ok: "sources_ok {''one''} demo_config (demo_files [])"
  by (rule sources_ok_files) code_simp+

lemma demo_scripts_whole: "scripts_whole {''one''} demo_config (demo_files [])"
  by (rule scripts_whole_files) code_simp+

definition demo_start :: proc where
  "demo_start = startWatch None \<lparr>pending = [watch_Added], closed = False\<rparr> (NewSidecarManager demo_config) (demo_files [])"

definition demo_next :: proc where
  "demo_next = with_state (demo_start\<lparr>chan := \<lparr>pending = [], closed = False\<rparr>\<rparr>)
     (handleEvent demo_client watch_Added (manager demo_start, os demo_start))"

lemma demo_reach: "reach {demo_client} ok demo_start demo_next"
proof -
  have "proc_step {demo_client} ok demo_start demo_next"
    unfolding demo_next_def by (rule proc_step.watch_event) (simp_all add: demo_start_def startWatch_def chan_recv_def)
  with reach.here show ?thesis by (rule reach.step)
qed

theorem sidecar_scripts_whole_witness:
  "\<exists>ct m t. fget (os demo_next) ''/shared/ls'' = Some (File ct m t) \<and> ct \<in> {''one''} \<and> m = 493"
proof -
  have n: "plain_name ''ls''" "\<not> tmp_name ''ls''" by (simp add: plain_name_def) code_simp
  have f: "fget (os demo_next) (''/shared'' @ slash # ''ls'') = Some (File ''one'' 493 1)" by code_simp
  from sidecar_scripts_whole [OF demo_dirs_apart demo_client_safe demo_sources_ok demo_scripts_whole
      demo_reach [unfolded demo_start_def] n] f
  show ?thesis by (simp add: demo_dirs)
qed

theorem fallback_only_at_start_witness: "routine demo_next \<noteq> Polling"
  using fallback_only_at_start [OF demo_reach [unfolded demo_start_def]] .

definition demo_deaf :: proc where
  "demo_deaf = demo_start\<lparr>chan := \<lparr>pending = [], closed = True\<rparr>\<rparr>"


theorem shutdown_is_final_witness: "Waiting \<le> Exited \<and> mainpc demo_start \<le> mainpc demo_next"
  using shutdown_is_final [OF demo_reach [of "\<lambda>w. True"]] by (simp add: pc_order)

end
