(* ===== verification/KubeTypes.thy ===== *)
theory KubeTypes
  imports Prelude "HOL-Library.Word"
begin

text \<open>
  The Kubernetes objects the operator reads and writes: the custom resource of
  \<open>api/v1/behavior_stub_types.go\<close> and, of the core types, the fields the code touches. What the code only
  carries along (the other fields of a container, of a volume source, of an environment source) is one opaque
  field. The API server is a parameter of the model, a record of functions on an abstract cluster state.
\<close>

type_synonym int32 = "32 word"
type_synonym int64 = "64 word"
type_synonym labels = "(string \<times> string) list"

section \<open>Metadata and selectors\<close>

record ObjectMeta =
  mName :: string
  mNamespace :: string
  mLabels :: labels
  mGeneration :: int64
  mResourceVersion :: string

record Requirement =
  rqKey :: string
  rqOperator :: string
  rqValues :: "string list"

record LabelSelector =
  MatchLabels :: labels
  MatchExpressions :: "Requirement list"

section \<open>Pods\<close>

record EnvVar =
  evName :: string
  evValue :: string
  evValueFrom :: "string option"

record VolumeMount =
  vmName :: string
  vmMountPath :: string
  vmReadOnly :: bool

record ResourceRequirements =
  Limits :: "(string \<times> string) list"
  Requests :: "(string \<times> string) list"

definition no_resources :: ResourceRequirements where
  "no_resources = \<lparr>Limits = [], Requests = []\<rparr>"

record Container =
  cName :: string
  cImage :: string
  cImagePullPolicy :: string
  cVolumeMounts :: "VolumeMount list"
  cEnv :: "EnvVar list"
  cResources :: ResourceRequirements
  cRestartPolicy :: "string option"
  cRest :: string

datatype VolumeSource = EmptyDir | HostPathVolume string | OtherVolume string

record Volume =
  vName :: string
  vSource :: VolumeSource

record PodSpec =
  Volumes :: "Volume list"
  InitContainers :: "Container list"
  Containers :: "Container list"

record Pod =
  podMeta :: ObjectMeta
  podSpec :: PodSpec

section \<open>The BehaviorStub resource\<close>

record ScriptVolume =
  HostPath :: string
  MountPath :: string

record Behavior =
  bName :: string
  TargetPath :: string
  ScriptPath :: string
  bEnableLogging :: bool
  LogPath :: string

record AdvancedConfig =
  aEnableLogging :: bool
  SyncIntervalSeconds :: int64

record BehaviorStubSpec =
  TargetSelector :: LabelSelector
  SidecarImage :: string
  SidecarResources :: "ResourceRequirements option"
  scriptVolume :: ScriptVolume
  Behaviors :: "Behavior list"
  Advanced :: "AdvancedConfig option"

record Condition =
  cdType :: string
  cdStatus :: string
  ObservedGeneration :: int64
  LastTransitionTime :: string
  Reason :: string
  Message :: string

record BehaviorStubStatus =
  Phase :: string
  InjectedPods :: int32
  TotalPods :: int32
  LastUpdateTime :: "string option"
  Conditions :: "Condition list"

record BehaviorStub =
  bsMeta :: ObjectMeta
  Spec :: BehaviorStubSpec
  Status :: BehaviorStubStatus

section \<open>Errors of the API server\<close>

text \<open>The classes that \<open>errors.IsNotFound\<close>, \<open>IsConflict\<close> and \<open>IsAlreadyExists\<close> tell apart.\<close>

datatype kerror =
    NotFound goerror
  | Conflict goerror
  | AlreadyExists goerror
  | OtherError goerror

fun IsNotFound :: "kerror \<Rightarrow> bool" where
  "IsNotFound (NotFound m) = True"
| "IsNotFound _ = False"

fun IsConflict :: "kerror \<Rightarrow> bool" where
  "IsConflict (Conflict m) = True"
| "IsConflict _ = False"

fun IsAlreadyExists :: "kerror \<Rightarrow> bool" where
  "IsAlreadyExists (AlreadyExists m) = True"
| "IsAlreadyExists _ = False"

fun kerror_string :: "kerror \<Rightarrow> goerror" where
  "kerror_string (NotFound m) = m"
| "kerror_string (Conflict m) = m"
| "kerror_string (AlreadyExists m) = m"
| "kerror_string (OtherError m) = m"

fun_cases IsNotFoundE: "IsNotFound e"
fun_cases IsConflictE: "IsConflict e"

section \<open>The client of the operator\<close>

text \<open>
  The operations of the controller-runtime client on the objects the operator uses, and the clock.
  \<open>kcSelector\<close> is \<open>metav1.LabelSelectorAsSelector\<close> followed by \<open>Matches\<close>.
\<close>

record 'k kclient =
  kcSelector :: "LabelSelector \<Rightarrow> kerror + (labels \<Rightarrow> bool)"
  kcGetStub :: "string \<times> string \<Rightarrow> 'k \<Rightarrow> (kerror + BehaviorStub) \<times> 'k"
  kcListStubs :: "string \<Rightarrow> 'k \<Rightarrow> (kerror + BehaviorStub list) \<times> 'k"
  kcListPods :: "string \<Rightarrow> (labels \<Rightarrow> bool) \<Rightarrow> 'k \<Rightarrow> (kerror + Pod list) \<times> 'k"
  kcUpdateStatus :: "BehaviorStub \<Rightarrow> 'k \<Rightarrow> kerror option \<times> 'k"
  kcNow :: "'k \<Rightarrow> string"

section \<open>The first BehaviorStub that selects a pod\<close>

text \<open>
  The webhook and the controller share the contract: the first stub in list order whose selector is valid
  and matches. A provider is a search \<open>sel\<close> over a list for the selector function and the labels.
\<close>

locale stub_search =
  fixes search :: "(LabelSelector \<Rightarrow> kerror + (labels \<Rightarrow> bool)) \<Rightarrow> labels \<Rightarrow> BehaviorStub list \<Rightarrow> BehaviorStub option"
  assumes search_Nil: "search sel ls [] = None"
    and search_Cons: "search sel ls (bs # bss) =
      (case sel (TargetSelector (Spec bs)) of
         Inl err \<Rightarrow> search sel ls bss
       | Inr matches \<Rightarrow> if matches ls then Some bs else search sel ls bss)"
begin

definition selects :: "(LabelSelector \<Rightarrow> kerror + (labels \<Rightarrow> bool)) \<Rightarrow> labels \<Rightarrow> BehaviorStub \<Rightarrow> bool" where
  "selects sel ls bs \<longleftrightarrow> (\<exists>matches. sel (TargetSelector (Spec bs)) = Inr matches \<and> matches ls)"

lemma search_find: "search sel ls bss = find (selects sel ls) bss"
  by (induction bss) (auto simp: search_Nil search_Cons selects_def split: sum.splits)

lemma search_Some:
  "search sel ls bss = Some bs \<longleftrightarrow>
     (\<exists>us vs. bss = us @ bs # vs \<and> selects sel ls bs \<and> (\<forall>u \<in> set us. \<not> selects sel ls u))"
proof -
  have "find P xs = Some y \<longleftrightarrow> (\<exists>us vs. xs = us @ y # vs \<and> P y \<and> (\<forall>u \<in> set us. \<not> P u))"
    for P :: "BehaviorStub \<Rightarrow> bool" and xs y
  proof (induction xs)
    case (Cons x xs)
    show ?case
    proof (cases "P x")
      case True
      then show ?thesis by (auto simp: Cons_eq_append_conv)
    next
      case False
      with Cons.IH show ?thesis by (auto simp: Cons_eq_append_conv) (metis list.set_intros(2) set_ConsD)
    qed
  qed simp
  then show ?thesis by (simp add: search_find)
qed

lemma search_None: "search sel ls bss = None \<longleftrightarrow> (\<forall>bs \<in> set bss. \<not> selects sel ls bs)"
  by (auto simp: search_find find_None_iff)

end

end
