(* ===== verification/Webhook.thy ===== *)
theory Webhook
  imports KubeTypes GoPath
begin

text \<open>
  \<open>internal/webhook/pod_webhook.go\<close>: the mutating admission webhook. The codec of admission requests is a
  parameter: \<open>admNewDecoder\<close> is \<open>admission.NewDecoder\<close>, \<open>admDecode\<close> the decoder's \<open>Decode\<close> of a raw
  object, \<open>admMarshal\<close> the JSON encoder.
\<close>

section \<open>The injection\<close>

definition shared_name :: string where "shared_name = ''dynastub-shared''"
definition scripts_name :: string where "scripts_name = ''dynastub-scripts''"
definition sidecar_name :: string where "sidecar_name = ''dynastub-sidecar''"
definition bin_dir :: string where "bin_dir = ''/dynastub/bin''"
definition default_path :: string where
  "default_path = ''/usr/local/sbin:/usr/local/bin:/usr/sbin:/usr/bin:/sbin:/bin''"

definition emptyDirVolume :: Volume where
  "emptyDirVolume = \<lparr>vName = shared_name, vSource = EmptyDir\<rparr>"

definition hostPathVolume :: "BehaviorStub \<Rightarrow> Volume" where
  "hostPathVolume bs = \<lparr>vName = scripts_name, vSource = HostPathVolume (HostPath (scriptVolume (Spec bs)))\<rparr>"

definition sidecarContainer :: "BehaviorStub \<Rightarrow> Container" where
  "sidecarContainer bs =
     (let sidecarImage = (if SidecarImage (Spec bs) = [] then ''dynastub-sidecar:latest''
                          else SidecarImage (Spec bs))
      in \<lparr>cName = sidecar_name, cImage = sidecarImage, cImagePullPolicy = ''IfNotPresent'',
          cVolumeMounts =
            [\<lparr>vmName = shared_name, vmMountPath = bin_dir, vmReadOnly = False\<rparr>,
             \<lparr>vmName = scripts_name, vmMountPath = MountPath (scriptVolume (Spec bs)), vmReadOnly = True\<rparr>],
          cEnv =
            [\<lparr>evName = ''BEHAVIOR_STUB_NAME'', evValue = mName (bsMeta bs), evValueFrom = None\<rparr>,
             \<lparr>evName = ''BEHAVIOR_STUB_NAMESPACE'', evValue = mNamespace (bsMeta bs), evValueFrom = None\<rparr>,
             \<lparr>evName = ''SHARED_DIR'', evValue = bin_dir, evValueFrom = None\<rparr>,
             \<lparr>evName = ''SCRIPT_MOUNT_PATH'', evValue = MountPath (scriptVolume (Spec bs)), evValueFrom = None\<rparr>],
          cResources = (case SidecarResources (Spec bs) of None \<Rightarrow> no_resources | Some r \<Rightarrow> r),
          cRestartPolicy = Some ''Always'', cRest = []\<rparr>)"

definition path_prefix :: string where
  "path_prefix = ''/dynastub/bin:''"

definition update_path :: "EnvVar list \<Rightarrow> EnvVar list" where
  "update_path es =
     upsert (\<lambda>e. evName e = ''PATH'') (\<lambda>e. e\<lparr>evValue := path_prefix @ evValue e\<rparr>)
       \<lparr>evName = ''PATH'', evValue = path_prefix @ default_path, evValueFrom = None\<rparr> es"

definition businessContainer :: "Container \<Rightarrow> Container" where
  "businessContainer c =
     (if cName c = sidecar_name then c
      else c\<lparr>cVolumeMounts := cVolumeMounts c @ [\<lparr>vmName = shared_name, vmMountPath = bin_dir, vmReadOnly = True\<rparr>],
             cEnv := update_path (cEnv c)\<rparr>)"

definition injectSidecar :: "Pod \<Rightarrow> BehaviorStub \<Rightarrow> Pod" where
  "injectSidecar pod bs =
     (let spec1 = (podSpec pod)\<lparr>Volumes := Volumes (podSpec pod) @ [emptyDirVolume]\<rparr>;
          spec2 = spec1\<lparr>Volumes := Volumes spec1 @ [hostPathVolume bs]\<rparr>;
          spec3 = spec2\<lparr>InitContainers := InitContainers spec2 @ [sidecarContainer bs]\<rparr>;
          spec4 = spec3\<lparr>Containers := map businessContainer (Containers spec3)\<rparr>
      in pod\<lparr>podSpec := spec4\<rparr>)"

text \<open>The update of the PATH entry provides the interface of a keyed list.\<close>

interpretation path: keyed_upsert evName "''PATH''" update_path
  unfolding update_path_def by (rule keyed_upsertI) simp_all

section \<open>The search for a stub\<close>

fun webhook_search ::
    "(LabelSelector \<Rightarrow> kerror + (labels \<Rightarrow> bool)) \<Rightarrow> labels \<Rightarrow> BehaviorStub list \<Rightarrow> BehaviorStub option" where
  "webhook_search sel ls [] = None"
| "webhook_search sel ls (bs # bss) =
     (case sel (TargetSelector (Spec bs)) of
        Inl err \<Rightarrow> webhook_search sel ls bss
      | Inr selector \<Rightarrow> if selector ls then Some bs else webhook_search sel ls bss)"

interpretation wh: stub_search webhook_search
  by unfold_locales simp_all

definition findMatchingBehaviorStub ::
    "'k kclient \<Rightarrow> Pod \<Rightarrow> 'k \<Rightarrow> (kerror + BehaviorStub option) \<times> 'k" where
  "findMatchingBehaviorStub kc pod k =
     (case kcListStubs kc (mNamespace (podMeta pod)) k of
        (Inl err, k1) \<Rightarrow> (Inl err, k1)
      | (Inr items, k1) \<Rightarrow> (Inr (webhook_search (kcSelector kc) (mLabels (podMeta pod)) items), k1))"

section \<open>The handler\<close>

record ('dec, 'raw) admission =
  admNewDecoder :: 'dec
  admDecode :: "'dec \<Rightarrow> 'raw \<Rightarrow> goerror + Pod"
  admMarshal :: "Pod \<Rightarrow> goerror + 'raw"

record 'dec PodMutator =
  Decoder :: "'dec option"

datatype 'raw response =
    Errored nat goerror
  | Allowed string
  | PatchResponseFromRaw 'raw 'raw

definition Handle ::
    "('dec, 'raw) admission \<Rightarrow> 'k kclient \<Rightarrow> 'raw \<Rightarrow> 'dec PodMutator \<Rightarrow> 'k \<Rightarrow>
     'raw response \<times> 'dec PodMutator \<times> 'k" where
  "Handle adm kc raw m k =
     (let m1 = (if Decoder m = None then m\<lparr>Decoder := Some (admNewDecoder adm)\<rparr> else m) in
      case admDecode adm (the (Decoder m1)) raw of
        Inl err \<Rightarrow> (Errored 400 err, m1, k)
      | Inr pod \<Rightarrow>
        (case findMatchingBehaviorStub kc pod k of
           (Inl err, k1) \<Rightarrow> (Errored 500 (kerror_string err), m1, k1)
         | (Inr None, k1) \<Rightarrow> (Allowed ''No matching BehaviorStub found'', m1, k1)
         | (Inr (Some behaviorStub), k1) \<Rightarrow>
           (case admMarshal adm (injectSidecar pod behaviorStub) of
              Inl err \<Rightarrow> (Errored 500 err, m1, k1)
            | Inr marshaledPod \<Rightarrow> (PatchResponseFromRaw raw marshaledPod, m1, k1))))"

definition InjectDecoder :: "'dec \<Rightarrow> 'dec PodMutator \<Rightarrow> goerror option \<times> 'dec PodMutator" where
  "InjectDecoder d m = (None, m\<lparr>Decoder := Some d\<rparr>)"

section \<open>The environment a container sees\<close>

text \<open>Of several entries with one name, the last one counts.\<close>

definition env_value :: "EnvVar list \<Rightarrow> string \<rightharpoonup> string" where
  "env_value es = map_of (rev (map (\<lambda>e. (evName e, evValue e)) es))"

lemma env_value_Nil [simp]: "env_value [] n = None"
  by (simp add: env_value_def)

lemma env_value_snoc [simp]: "env_value (es @ [e]) n = (if evName e = n then Some (evValue e) else env_value es n)"
  by (simp add: env_value_def)

lemma env_value_distinct:
  "distinct (map evName es) \<Longrightarrow> e \<in> set es \<Longrightarrow> env_value es (evName e) = Some (evValue e)"
proof -
  assume d: "distinct (map evName es)" and e: "e \<in> set es"
  have "map fst (rev (map (\<lambda>e. (evName e, evValue e)) es)) = rev (map evName es)"
    by (simp add: rev_map o_def)
  then have "distinct (map fst (rev (map (\<lambda>e. (evName e, evValue e)) es)))" using d by simp
  moreover have "(evName e, evValue e) \<in> set (rev (map (\<lambda>e. (evName e, evValue e)) es))" using e by auto
  ultimately show ?thesis unfolding env_value_def by (rule map_of_is_SomeI)
qed

lemma env_value_mid:
  "env_value (us @ e # vs) n = (case env_value vs n of Some v \<Rightarrow> Some v
     | None \<Rightarrow> if evName e = n then Some (evValue e) else env_value us n)"
  by (simp add: env_value_def map_of_append map_add_def split: option.split)

lemma env_value_None: "n \<notin> evName ` set es \<Longrightarrow> env_value es n = None"
  by (force simp: env_value_def map_of_eq_None_iff)

lemma inject_fields:
  "Volumes (podSpec (injectSidecar pod bs)) = Volumes (podSpec pod) @ [emptyDirVolume, hostPathVolume bs]"
  "InitContainers (podSpec (injectSidecar pod bs)) = InitContainers (podSpec pod) @ [sidecarContainer bs]"
  "Containers (podSpec (injectSidecar pod bs)) = map businessContainer (Containers (podSpec pod))"
  "podMeta (injectSidecar pod bs) = podMeta pod"
  by (simp_all add: injectSidecar_def Let_def)

lemma business_name [simp]: "cName (businessContainer c) = cName c"
  by (simp add: businessContainer_def)

lemma sidecar_named [simp]: "cName (sidecarContainer bs) = sidecar_name"
  by (simp add: sidecarContainer_def Let_def)

lemma update_path_cases:
  obtains (absent) "''PATH'' \<notin> evName ` set es"
      "update_path es = es @ [\<lparr>evName = ''PATH'', evValue = path_prefix @ default_path, evValueFrom = None\<rparr>]"
  | (present) us e vs where "es = us @ e # vs" "evName e = ''PATH''" "\<forall>u \<in> set us. evName u \<noteq> ''PATH''"
      "update_path es = us @ e\<lparr>evValue := path_prefix @ evValue e\<rparr> # vs"
proof (cases rule: upsert_cases [of es "\<lambda>e. evName e = ''PATH''" "\<lambda>e. e\<lparr>evValue := path_prefix @ evValue e\<rparr>"
      "\<lparr>evName = ''PATH'', evValue = path_prefix @ default_path, evValueFrom = None\<rparr>"])
  case absent
  then show thesis by (intro that(1)) (auto simp: update_path_def)
next
  case (present us e vs)
  then show thesis by (intro that(2)) (simp_all add: update_path_def)
qed

lemma update_path_value:
  assumes "distinct (map evName es)"
  shows "env_value (update_path es) ''PATH'' =
    Some (path_prefix @ (case env_value es ''PATH'' of None \<Rightarrow> default_path | Some v \<Rightarrow> v))"
proof (cases es rule: update_path_cases)
  case absent
  then show ?thesis by (simp add: env_value_None)
next
  case (present us e vs)
  have "env_value es ''PATH'' = Some (evValue e)"
    using env_value_distinct [OF assms, of e] present by simp
  moreover have "distinct (map evName (update_path es))" using assms by (rule path.distinct_ups)
  then have "env_value (update_path es) ''PATH'' = Some (path_prefix @ evValue e)"
    using env_value_distinct [of "update_path es" "e\<lparr>evValue := path_prefix @ evValue e\<rparr>"] present by simp
  ultimately show ?thesis by simp
qed

lemma update_path_others: "n \<noteq> ''PATH'' \<Longrightarrow> env_value (update_path es) n = env_value es n"
  by (cases es rule: update_path_cases) (simp_all add: env_value_mid)

lemma business_fields:
  "cName (businessContainer c) = cName c \<and> cImage (businessContainer c) = cImage c \<and>
   cResources (businessContainer c) = cResources c \<and>
   (if cName c = ''dynastub-sidecar'' then businessContainer c = c
    else cVolumeMounts (businessContainer c) = cVolumeMounts c @
           [\<lparr>vmName = ''dynastub-shared'', vmMountPath = ''/dynastub/bin'', vmReadOnly = True\<rparr>] \<and>
         filter (\<lambda>e. evName e \<noteq> ''PATH'') (cEnv (businessContainer c)) = filter (\<lambda>e. evName e \<noteq> ''PATH'') (cEnv c) \<and>
         ''PATH'' \<in> evName ` set (cEnv (businessContainer c)))"
proof (cases "cName c = sidecar_name")
  case True
  then show ?thesis by (simp add: businessContainer_def sidecar_name_def)
next
  case False
  moreover have "filter (\<lambda>e. evName e \<noteq> ''PATH'') (update_path es) = filter (\<lambda>e. evName e \<noteq> ''PATH'') es"
    and "''PATH'' \<in> evName ` set (update_path es)" for es
    by (rule path.ups_others path.key_in_ups)+
  ultimately show ?thesis
    by (simp add: businessContainer_def sidecar_name_def shared_name_def bin_dir_def)
qed

section \<open>Properties\<close>


lemma inject_container:
  assumes "c \<in> set (Containers (podSpec pod))" and "cName c \<noteq> ''dynastub-sidecar''"
    and "distinct (map evName (cEnv c))"
  shows "\<exists>c' \<in> set (Containers (podSpec (injectSidecar pod bs))). cName c' = cName c \<and>
    env_value (cEnv c') ''PATH'' = Some (''/dynastub/bin:'' @
      (case env_value (cEnv c) ''PATH'' of
         None \<Rightarrow> ''/usr/local/sbin:/usr/local/bin:/usr/sbin:/usr/bin:/sbin:/bin'' | Some v \<Rightarrow> v)) \<and>
    (\<forall>n. n \<noteq> ''PATH'' \<longrightarrow> env_value (cEnv c') n = env_value (cEnv c) n)"
proof
  show "businessContainer c \<in> set (Containers (podSpec (injectSidecar pod bs)))"
    using assms(1) by (simp add: inject_fields)
  have "cEnv (businessContainer c) = update_path (cEnv c)"
    using assms(2) by (simp add: businessContainer_def sidecar_name_def)
  with update_path_value [OF assms(3)] update_path_others
  show "cName (businessContainer c) = cName c \<and>
    env_value (cEnv (businessContainer c)) ''PATH'' = Some (''/dynastub/bin:'' @
      (case env_value (cEnv c) ''PATH'' of
         None \<Rightarrow> ''/usr/local/sbin:/usr/local/bin:/usr/sbin:/usr/bin:/sbin:/bin'' | Some v \<Rightarrow> v)) \<and>
    (\<forall>n. n \<noteq> ''PATH'' \<longrightarrow> env_value (cEnv (businessContainer c)) n = env_value (cEnv c) n)"
    by (simp only: business_name path_prefix_def default_path_def) blast
qed

text \<open>
  C16: the commands are hijacked. In an injected pod, whose business containers name no variable twice, each
  business container runs with a PATH that starts with the shared directory, followed by its own PATH or, when
  it sets none, by the default one; every other variable is as it was.
\<close>

theorem inject_path:
  assumes "c \<in> set (Containers (podSpec pod))" and "cName c \<noteq> ''dynastub-sidecar''"
    and "distinct (map evName (cEnv c))"
  shows "\<exists>c' \<in> set (Containers (podSpec (injectSidecar pod bs))). cName c' = cName c \<and>
    env_value (cEnv c') ''PATH'' = Some (''/dynastub/bin:'' @
      (case env_value (cEnv c) ''PATH'' of
         None \<Rightarrow> ''/usr/local/sbin:/usr/local/bin:/usr/sbin:/usr/bin:/sbin:/bin'' | Some v \<Rightarrow> v)) \<and>
    (\<forall>n. n \<noteq> ''PATH'' \<longrightarrow> env_value (cEnv c') n = env_value (cEnv c) n)"
  by (rule inject_container [OF assms])

text \<open>
  Injection is not idempotent. A pod that is injected a second time, as on an update request, has two
  volumes of the same name, which no valid pod has.
\<close>

theorem inject_twice:
  "\<not> distinct (map vName (Volumes (podSpec (injectSidecar (injectSidecar pod bs) bs'))))"
  by (simp add: inject_fields emptyDirVolume_def hostPathVolume_def)

text \<open>
  With two PATH entries only the first is changed, and the container does not see it: the last entry
  counts, so the commands are not hijacked.
\<close>

theorem inject_path_twice:
  "env_value (update_path [\<lparr>evName = ''PATH'', evValue = ''/a'', evValueFrom = None\<rparr>,
     \<lparr>evName = ''PATH'', evValue = ''/b'', evValueFrom = None\<rparr>]) ''PATH'' = Some ''/b''"
  by code_simp

text \<open>
  C21: the answer of the webhook. An object that does not decode is refused with 400; a failing list or an
  encoder that fails gives 500; without a matching stub the pod is allowed as it is; otherwise the answer is
  the patch from the object of the request to the injected pod. A missing decoder is created once and kept.
\<close>

theorem handle_answer:
  "(case Handle adm kc raw m k of (resp, m', k') \<Rightarrow>
     Decoder m' = Some (case Decoder m of None \<Rightarrow> admNewDecoder adm | Some d \<Rightarrow> d) \<and>
     (case admDecode adm (the (Decoder m')) raw of
        Inl err \<Rightarrow> resp = Errored 400 err \<and> k' = k
      | Inr pod \<Rightarrow>
          (case kcListStubs kc (mNamespace (podMeta pod)) k of
             (Inl err, k1) \<Rightarrow> resp = Errored 500 (kerror_string err) \<and> k' = k1
           | (Inr stubs, k1) \<Rightarrow> k' = k1 \<and>
               (case find (\<lambda>bs. case kcSelector kc (TargetSelector (Spec bs)) of
                             Inl e \<Rightarrow> False | Inr matches \<Rightarrow> matches (mLabels (podMeta pod))) stubs of
                  None \<Rightarrow> resp = Allowed ''No matching BehaviorStub found''
                | Some bs \<Rightarrow>
                    (case admMarshal adm (injectSidecar pod bs) of
                       Inl err \<Rightarrow> resp = Errored 500 err
                     | Inr out \<Rightarrow> resp = PatchResponseFromRaw raw out)))))"
proof -
  have sel: "wh.selects sel ls = (\<lambda>bs. case sel (TargetSelector (Spec bs)) of
      Inl e \<Rightarrow> False | Inr matches \<Rightarrow> matches ls)" for sel ls
    by (auto simp: wh.selects_def fun_eq_iff split: sum.splits)
  show ?thesis
    unfolding sel [symmetric] wh.search_find [symmetric]
    by (auto simp: Handle_def findMatchingBehaviorStub_def Let_def split: sum.splits prod.splits option.splits)
qed

section \<open>Witness\<close>

definition demo_pod :: Pod where
  "demo_pod = \<lparr>podMeta = \<lparr>mName = ''p'', mNamespace = ''default'', mLabels = [], mGeneration = 1, mResourceVersion = []\<rparr>,
     podSpec = \<lparr>Volumes = [], InitContainers = [], Containers =
       [\<lparr>cName = ''app'', cImage = ''img'', cImagePullPolicy = [], cVolumeMounts = [],
         cEnv = [\<lparr>evName = ''PATH'', evValue = ''/bin'', evValueFrom = None\<rparr>],
         cResources = no_resources, cRestartPolicy = None, cRest = []\<rparr>]\<rparr>\<rparr>"

definition demo_bs :: BehaviorStub where
  "demo_bs = \<lparr>bsMeta = \<lparr>mName = ''bs'', mNamespace = ''default'', mLabels = [], mGeneration = 1, mResourceVersion = []\<rparr>,
     Spec = \<lparr>TargetSelector = \<lparr>MatchLabels = [], MatchExpressions = []\<rparr>, SidecarImage = [], SidecarResources = None,
       scriptVolume = \<lparr>HostPath = ''/scripts'', MountPath = ''/src/scripts''\<rparr>, Behaviors = [], Advanced = None\<rparr>,
     Status = \<lparr>Phase = [], InjectedPods = 0, TotalPods = 0, LastUpdateTime = None, Conditions = []\<rparr>\<rparr>"

theorem inject_path_witness:
  "\<exists>c' \<in> set (Containers (podSpec (injectSidecar demo_pod demo_bs))).
     env_value (cEnv c') ''PATH'' = Some ''/dynastub/bin:/bin''"
proof -
  let ?c = "hd (Containers (podSpec demo_pod))"
  have c: "?c \<in> set (Containers (podSpec demo_pod))" "cName ?c \<noteq> ''dynastub-sidecar''"
    "distinct (map evName (cEnv ?c))" "env_value (cEnv ?c) ''PATH'' = Some ''/bin''"
    by code_simp+
  from inject_path [OF c(1-3), of demo_bs] c(4) show ?thesis by auto
qed

end
