(* ===== verification/Controller.thy ===== *)
theory Controller
  imports KubeTypes Webhook
begin

text \<open>
  \<open>internal/controller/behavior_stub_controller.go\<close>: the reconciler that counts the injected pods of a
  \<open>BehaviorStub\<close> and writes its status. Counters are 32-bit words, as in the code.
\<close>

section \<open>The status\<close>

text \<open>\<open>isPodInjected\<close>: the containers first, then the init containers.\<close>

fun has_sidecar :: "Container list \<Rightarrow> bool" where
  "has_sidecar [] = False"
| "has_sidecar (c # cs) = (if cName c = ''dynastub-sidecar'' then True else has_sidecar cs)"

definition isPodInjected :: "Pod \<Rightarrow> bool" where
  "isPodInjected pod =
     (if has_sidecar (Containers (podSpec pod)) then True
      else if has_sidecar (InitContainers (podSpec pod)) then True
      else False)"

definition ready_condition :: "string \<Rightarrow> int64 \<Rightarrow> string \<Rightarrow> Condition" where
  "ready_condition phase generation now =
     (let condition = \<lparr>cdType = ''Ready'', cdStatus = ''False'', ObservedGeneration = generation,
            LastTransitionTime = now, Reason = ''Reconciling'', Message = ''BehaviorStub is being reconciled''\<rparr>
      in if phase = ''Running''
         then condition\<lparr>cdStatus := ''True'', Reason := ''Running'',
                Message := ''All target pods have been injected''\<rparr>
         else if phase = ''Partial''
         then condition\<lparr>cdStatus := ''False'', Reason := ''Partial'',
                Message := ''Some target pods have been injected''\<rparr>
         else condition)"

definition upsert_condition :: "Condition \<Rightarrow> Condition list \<Rightarrow> Condition list" where
  "upsert_condition condition cs = upsert (\<lambda>c. cdType c = cdType condition) (\<lambda>c. condition) condition cs"

text \<open>The update of the conditions provides the interface of a keyed list.\<close>

interpretation cond: keyed_upsert cdType "cdType condition" "upsert_condition condition" for condition :: Condition
  unfolding upsert_condition_def by (rule keyed_upsertI) simp_all

definition with_status :: "string \<Rightarrow> string \<Rightarrow> int32 \<Rightarrow> int32 \<Rightarrow> BehaviorStub \<Rightarrow> BehaviorStub" where
  "with_status now phase injected totals bs =
     (let st1 = (Status bs)\<lparr>Phase := phase, InjectedPods := injected, TotalPods := totals\<rparr>;
          st2 = st1\<lparr>LastUpdateTime := Some now\<rparr>;
          condition = ready_condition phase (mGeneration (bsMeta bs)) now
      in bs\<lparr>Status := st2\<lparr>Conditions := upsert_condition condition (Conditions st2)\<rparr>\<rparr>)"

definition updateStatus ::
    "'k kclient \<Rightarrow> BehaviorStub \<Rightarrow> string \<Rightarrow> int32 \<Rightarrow> int32 \<Rightarrow> 'k \<Rightarrow> kerror option \<times> 'k" where
  "updateStatus kc bs phase injected totals k =
     kcUpdateStatus kc (with_status (kcNow kc k) phase injected totals bs) k"

text \<open>The retry loop; the first argument is the number of attempts left.\<close>

fun retry_loop ::
    "nat \<Rightarrow> 'k kclient \<Rightarrow> string \<times> string \<Rightarrow> string \<Rightarrow> int32 \<Rightarrow> int32 \<Rightarrow> 'k \<Rightarrow> kerror option \<times> 'k" where
  "retry_loop 0 kc req phase injected totals k =
     (Some (OtherError ''failed to update status after 3 retries''), k)"
| "retry_loop (Suc n) kc req phase injected totals k =
     (case kcGetStub kc req k of
        (Inl err, k1) \<Rightarrow> (Some err, k1)
      | (Inr bs, k1) \<Rightarrow>
          (case updateStatus kc bs phase injected totals k1 of
             (Some err, k2) \<Rightarrow>
               (if IsConflict err then retry_loop n kc req phase injected totals k2 else (Some err, k2))
           | (None, k2) \<Rightarrow> (None, k2)))"

definition updateStatusWithRetry ::
    "'k kclient \<Rightarrow> string \<times> string \<Rightarrow> string \<Rightarrow> int32 \<Rightarrow> int32 \<Rightarrow> 'k \<Rightarrow> kerror option \<times> 'k" where
  "updateStatusWithRetry = retry_loop 3"

section \<open>Reconcile\<close>

record Result =
  RequeueAfter :: nat

definition phase_of :: "int32 \<Rightarrow> int32 \<Rightarrow> string" where
  "phase_of injectedPods totalPods =
     (if sint totalPods > 0
      then (if injectedPods = totalPods then ''Running''
            else if sint injectedPods > 0 then ''Partial''
            else ''Pending'')
      else ''Pending'')"

definition count_injected :: "Pod list \<Rightarrow> int32" where
  "count_injected pods = foldl (\<lambda>n pod. if isPodInjected pod then n + 1 else n) 0 pods"

definition Reconcile ::
    "'k kclient \<Rightarrow> string \<times> string \<Rightarrow> 'k \<Rightarrow> (Result \<times> kerror option) \<times> 'k" where
  "Reconcile kc req k =
     (case kcGetStub kc req k of
        (Inl err, k1) \<Rightarrow>
          (if IsNotFound err then ((\<lparr>RequeueAfter = 0\<rparr>, None), k1) else ((\<lparr>RequeueAfter = 0\<rparr>, Some err), k1))
      | (Inr bs, k1) \<Rightarrow>
          (case kcSelector kc (TargetSelector (Spec bs)) of
             Inl err \<Rightarrow>
               (case updateStatus kc bs ''Failed'' 0 0 k1 of (_, k2) \<Rightarrow> ((\<lparr>RequeueAfter = 0\<rparr>, Some err), k2))
           | Inr selector \<Rightarrow>
               (case kcListPods kc (fst req) selector k1 of
                  (Inl err, k2) \<Rightarrow> ((\<lparr>RequeueAfter = 0\<rparr>, Some err), k2)
                | (Inr pods, k2) \<Rightarrow>
                    (let totalPods = of_nat (length pods);
                         injectedPods = count_injected pods;
                         phase = phase_of injectedPods totalPods
                     in case updateStatusWithRetry kc req phase injectedPods totalPods k2 of
                          (Some err, k3) \<Rightarrow> ((\<lparr>RequeueAfter = 0\<rparr>, Some err), k3)
                        | (None, k3) \<Rightarrow> ((\<lparr>RequeueAfter = 5\<rparr>, None), k3)))))"

section \<open>GetBehaviorStubByPod\<close>

fun by_pod_search ::
    "(LabelSelector \<Rightarrow> kerror + (labels \<Rightarrow> bool)) \<Rightarrow> labels \<Rightarrow> BehaviorStub list \<Rightarrow> BehaviorStub option" where
  "by_pod_search sel ls [] = None"
| "by_pod_search sel ls (bs # bss) =
     (case sel (TargetSelector (Spec bs)) of
        Inl err \<Rightarrow> by_pod_search sel ls bss
      | Inr selector \<Rightarrow> if selector ls then Some bs else by_pod_search sel ls bss)"

interpretation bp: stub_search by_pod_search
  by unfold_locales simp_all

definition GetBehaviorStubByPod ::
    "'k kclient \<Rightarrow> Pod \<Rightarrow> 'k \<Rightarrow> (kerror + BehaviorStub option) \<times> 'k" where
  "GetBehaviorStubByPod kc pod k =
     (case kcListStubs kc (mNamespace (podMeta pod)) k of
        (Inl err, k1) \<Rightarrow> (Inl err, k1)
      | (Inr items, k1) \<Rightarrow> (Inr (by_pod_search (kcSelector kc) (mLabels (podMeta pod)) items), k1))"

section \<open>Lemmas\<close>

lemma has_sidecar_iff: "has_sidecar cs \<longleftrightarrow> ''dynastub-sidecar'' \<in> cName ` set cs"
  by (induction cs) auto

lemma isPodInjected_iff:
  "isPodInjected pod \<longleftrightarrow>
     ''dynastub-sidecar'' \<in> cName ` set (Containers (podSpec pod) @ InitContainers (podSpec pod))"
  by (auto simp: isPodInjected_def has_sidecar_iff)

lemma count_injected_eq: "count_injected pods = of_nat (length (filter isPodInjected pods))"
proof -
  have "foldl (\<lambda>n pod. if isPodInjected pod then n + 1 else n) a pods = a + of_nat (length (filter isPodInjected pods))"
    for a :: int32
    by (induction pods arbitrary: a) auto
  then show ?thesis by (simp add: count_injected_def)
qed

lemma sint_of_small: "n < 2 ^ 31 \<Longrightarrow> sint (of_nat n :: int32) = int n"
  by (simp add: signed_of_nat signed_take_bit_int_eq_self)

lemma of_nat_small_eq:
  "m < 2 ^ 31 \<Longrightarrow> n < 2 ^ 31 \<Longrightarrow> (of_nat m :: int32) = of_nat n \<longleftrightarrow> m = n"
  by (metis of_nat_eq_iff sint_of_small)

text \<open>The phase as the status means it.\<close>

definition phase_spec :: "Pod list \<Rightarrow> string" where
  "phase_spec pods =
     (if pods \<noteq> [] \<and> (\<forall>pod \<in> set pods. isPodInjected pod) then ''Running''
      else if \<exists>pod \<in> set pods. isPodInjected pod then ''Partial''
      else ''Pending'')"

lemma phase_of_spec:
  assumes "length pods < 2 ^ 31"
  shows "phase_of (count_injected pods) (of_nat (length pods)) = phase_spec pods"
proof -
  have le: "length (filter isPodInjected pods) < 2 ^ 31"
    using le_less_trans [OF length_filter_le assms] .
  have eq: "length (filter isPodInjected pods) = length pods \<longleftrightarrow> (\<forall>pod \<in> set pods. isPodInjected pod)"
    by (metis filter_True length_filter_less less_irrefl)
  have pos: "length (filter isPodInjected pods) > 0 \<longleftrightarrow> (\<exists>pod \<in> set pods. isPodInjected pod)"
    by (auto simp: filter_empty_conv)
  show ?thesis
    unfolding phase_of_def phase_spec_def count_injected_eq sint_of_small [OF assms] sint_of_small [OF le]
      of_nat_small_eq [OF le assms] eq
    using pos by (cases pods) auto
qed

lemma upsert_condition_one:
  assumes "distinct (map cdType cs)"
  shows "filter (\<lambda>c. cdType c = cdType condition) (upsert_condition condition cs) = [condition]"
proof (cases rule: upsert_cases [of cs "\<lambda>c. cdType c = cdType condition" "\<lambda>c. condition" condition])
  case absent
  then show ?thesis by (simp add: upsert_condition_def filter_empty_conv)
next
  case (present us c vs)
  have "cdType c \<notin> cdType ` set vs" using assms unfolding present(1) by simp
  then have "\<forall>v \<in> set vs. cdType v \<noteq> cdType condition" unfolding present(2) by (metis imageI)
  then have "filter (\<lambda>c. cdType c = cdType condition) vs = []" "filter (\<lambda>c. cdType c = cdType condition) us = []"
    using present(3) by (simp_all add: filter_empty_conv)
  then show ?thesis unfolding upsert_condition_def present(4) by simp
qed

text \<open>One attempt of the retry loop, and whether it asks for another one.\<close>

definition attempt ::
    "'k kclient \<Rightarrow> string \<times> string \<Rightarrow> string \<Rightarrow> int32 \<Rightarrow> int32 \<Rightarrow> 'k \<Rightarrow> kerror option \<times> 'k" where
  "attempt kc req phase injected totals k = retry_loop 1 kc req phase injected totals k"

definition conflicted ::
    "'k kclient \<Rightarrow> string \<times> string \<Rightarrow> string \<Rightarrow> int32 \<Rightarrow> int32 \<Rightarrow> 'k \<Rightarrow> bool" where
  "conflicted kc req phase injected totals k \<longleftrightarrow>
     (case kcGetStub kc req k of
        (Inl err, k1) \<Rightarrow> False
      | (Inr bs, k1) \<Rightarrow>
          (case updateStatus kc bs phase injected totals k1 of
             (Some err, k2) \<Rightarrow> IsConflict err
           | (None, k2) \<Rightarrow> False))"

lemma retry_loop_Suc:
  "retry_loop (Suc n) kc req phase injected totals k =
     (if conflicted kc req phase injected totals k
      then retry_loop n kc req phase injected totals (snd (attempt kc req phase injected totals k))
      else attempt kc req phase injected totals k)"
  by (auto simp: conflicted_def attempt_def numeral_2_eq_2 split: sum.splits prod.splits option.splits)

lemma retry_loop_result:
  "\<exists>i \<le> n. let ks = (\<lambda>j. ((\<lambda>s. snd (attempt kc req phase injected totals s)) ^^ j) k) in
     (\<forall>j < i. conflicted kc req phase injected totals (ks j)) \<and>
     (if i = n
      then retry_loop n kc req phase injected totals k =
             (Some (OtherError ''failed to update status after 3 retries''), ks n)
      else \<not> conflicted kc req phase injected totals (ks i) \<and>
           retry_loop n kc req phase injected totals k = attempt kc req phase injected totals (ks i))"
proof (induction n arbitrary: k)
  case 0
  then show ?case by simp
next
  case (Suc n)
  let ?c = "conflicted kc req phase injected totals" and ?a = "attempt kc req phase injected totals"
  let ?f = "\<lambda>s. snd (?a s)"
  show ?case
  proof (cases "?c k")
    case False
    then show ?thesis by (intro exI [of _ 0]) (simp add: retry_loop_Suc del: retry_loop.simps)
  next
    case True
    obtain i where i: "i \<le> n" "\<forall>j < i. ?c ((?f ^^ j) (?f k))"
      "if i = n
       then retry_loop n kc req phase injected totals (?f k) =
             (Some (OtherError ''failed to update status after 3 retries''), (?f ^^ n) (?f k))
       else \<not> ?c ((?f ^^ i) (?f k)) \<and> retry_loop n kc req phase injected totals (?f k) = ?a ((?f ^^ i) (?f k))"
      using Suc.IH [of "?f k"] by (auto simp: Let_def)
    have eq: "(?f ^^ j) (?f k) = (?f ^^ Suc j) k" for j by (simp only: funpow_Suc_right o_apply)
    have "?c ((?f ^^ j) k)" if "j < Suc i" for j
      using that i(2) True unfolding eq by (cases j) simp_all
    then show ?thesis
      using i(1,3) True unfolding eq
      by (intro exI [of _ "Suc i"]) (simp add: retry_loop_Suc Let_def del: retry_loop.simps split: if_splits)
  qed
qed

lemma retry_loop_success:
  "retry_loop n kc req phase injected totals k = (None, k') \<Longrightarrow>
     \<exists>k1 bs k2. kcGetStub kc req k1 = (Inr bs, k2) \<and> updateStatus kc bs phase injected totals k2 = (None, k')"
proof (induction n arbitrary: k)
  case (Suc n)
  then show ?case by (auto split: prod.splits sum.splits option.splits if_splits)
qed simp

section \<open>Properties\<close>

text \<open>
  C29: the reconciler recognises what the webhook injects: every pod the webhook has injected counts as
  injected, whatever its containers.
\<close>

theorem injected_pod_is_counted: "isPodInjected (injectSidecar pod bs)"
  by (simp add: isPodInjected_iff inject_fields sidecar_name_def)

text \<open>
  C19: the phase. For any list of less than 2 ^ 31 pods the reconciler computes Running when there are pods
  and all are injected, Partial when some but not all are, Pending otherwise, and its 32-bit counters are the
  true numbers.
\<close>

theorem phase_is_right:
  assumes "length pods < 2 ^ 31"
  shows "phase_of (count_injected pods) (of_nat (length pods)) =
      (if pods \<noteq> [] \<and> (\<forall>pod \<in> set pods. isPodInjected pod) then ''Running''
       else if \<exists>pod \<in> set pods. isPodInjected pod then ''Partial'' else ''Pending'') \<and>
    sint (count_injected pods) = int (length (filter isPodInjected pods)) \<and>
    sint (of_nat (length pods) :: int32) = int (length pods)"
  using phase_of_spec [OF assms] sint_of_small [OF assms]
    sint_of_small [OF le_less_trans [OF length_filter_le assms]]
  by (simp add: phase_spec_def count_injected_eq)

text \<open>
  C25: a status update changes the status only and keeps the conditions of other types. When the conditions
  have distinct types before, there is afterwards exactly one Ready condition; it is True exactly for the
  phase Running and carries the observed generation.
\<close>

theorem status_update:
  assumes "distinct (map cdType (Conditions (Status bs)))"
  shows "let bs' = with_status now phase injected totals bs in
    bsMeta bs' = bsMeta bs \<and> Spec bs' = Spec bs \<and>
    Phase (Status bs') = phase \<and> InjectedPods (Status bs') = injected \<and> TotalPods (Status bs') = totals \<and>
    filter (\<lambda>c. cdType c \<noteq> ''Ready'') (Conditions (Status bs')) =
      filter (\<lambda>c. cdType c \<noteq> ''Ready'') (Conditions (Status bs)) \<and>
    (\<exists>c. filter (\<lambda>c. cdType c = ''Ready'') (Conditions (Status bs')) = [c] \<and>
       (cdStatus c = ''True'' \<longleftrightarrow> phase = ''Running'') \<and> ObservedGeneration c = mGeneration (bsMeta bs))"
proof -
  let ?c = "ready_condition phase (mGeneration (bsMeta bs)) now" and ?cs = "Conditions (Status bs)"
  let ?up = "upsert_condition ?c ?cs"
  have k: "cdType ?c = ''Ready''" by (simp add: ready_condition_def Let_def)
  have c: "(cdStatus ?c = ''True'' \<longleftrightarrow> phase = ''Running'') \<and> ObservedGeneration ?c = mGeneration (bsMeta bs)"
    by (simp add: ready_condition_def Let_def)
  have others: "filter (\<lambda>c. cdType c \<noteq> ''Ready'') ?up = filter (\<lambda>c. cdType c \<noteq> ''Ready'') ?cs"
    using cond.ups_others [of ?c ?cs] unfolding k .
  have one: "filter (\<lambda>c. cdType c = ''Ready'') ?up = [?c]"
    unfolding k [symmetric] by (rule upsert_condition_one [OF assms])
  have fields: "Conditions (Status (with_status now phase injected totals bs)) = ?up"
    "bsMeta (with_status now phase injected totals bs) = bsMeta bs"
    "Spec (with_status now phase injected totals bs) = Spec bs"
    "Phase (Status (with_status now phase injected totals bs)) = phase"
    "InjectedPods (Status (with_status now phase injected totals bs)) = injected"
    "TotalPods (Status (with_status now phase injected totals bs)) = totals"
    by (simp_all add: with_status_def Let_def)
  show ?thesis unfolding Let_def fields using others one c by blast
qed

text \<open>
  C28: the status is written with at most three attempts. There is a number of attempts, at most three, that
  all met a conflict; either it is three and the error says so, or the next attempt met none and its result,
  success or error, is returned.
\<close>

theorem update_with_retry:
  "\<exists>i \<le> 3. let ks = (\<lambda>j. ((\<lambda>s. snd (attempt kc req phase injected totals s)) ^^ j) k) in
     (\<forall>j < i. conflicted kc req phase injected totals (ks j)) \<and>
     (if i = 3
      then updateStatusWithRetry kc req phase injected totals k =
             (Some (OtherError ''failed to update status after 3 retries''), ks 3)
      else \<not> conflicted kc req phase injected totals (ks i) \<and>
           updateStatusWithRetry kc req phase injected totals k = attempt kc req phase injected totals (ks i))"
  unfolding updateStatusWithRetry_def by (rule retry_loop_result)

text \<open>
  The transition time is no transition time: each update sets it, whether the status of the condition changes or not,
  so that the object the API server keeps changes with every reconciliation.
\<close>

theorem transition_time_always_new:
  assumes "distinct (map cdType (Conditions (Status bs)))"
  shows "\<exists>c c'. filter (\<lambda>c. cdType c = ''Ready'') (Conditions (Status (with_status t phase injected totals bs))) = [c] \<and>
    filter (\<lambda>c. cdType c = ''Ready'')
      (Conditions (Status (with_status t' phase injected totals (with_status t phase injected totals bs)))) = [c'] \<and>
    cdStatus c' = cdStatus c \<and> LastTransitionTime c = t \<and> LastTransitionTime c' = t'"
proof -
  let ?c = "\<lambda>t. ready_condition phase (mGeneration (bsMeta bs)) t"
  let ?cs = "upsert_condition (?c t) (Conditions (Status bs))"
  have k: "cdType (?c s) = ''Ready''" "LastTransitionTime (?c s) = s" "cdStatus (?c t') = cdStatus (?c t)" for s
    by (simp_all add: ready_condition_def Let_def)
  have st: "Conditions (Status (with_status t phase injected totals bs)) = ?cs"
    "Conditions (Status (with_status t' phase injected totals (with_status t phase injected totals bs))) =
       upsert_condition (?c t') ?cs"
    by (simp_all add: with_status_def Let_def)
  have 1: "filter (\<lambda>c. cdType c = ''Ready'') ?cs = [?c t]"
    unfolding k(1) [of t, symmetric] by (rule upsert_condition_one [OF assms])
  have "distinct (map cdType ?cs)" by (rule cond.distinct_ups [OF assms])
  then have 2: "filter (\<lambda>c. cdType c = ''Ready'') (upsert_condition (?c t') ?cs) = [?c t']"
    unfolding k(1) [of t', symmetric] by (rule upsert_condition_one)
  show ?thesis unfolding st by (intro exI conjI) (rule 1, rule 2, rule k(3), rule k(2), rule k(2))
qed

text \<open>
  The webhook and the controller agree on the stub a pod belongs to, for every client and every pod.
\<close>

theorem searches_agree: "GetBehaviorStubByPod kc pod k = findMatchingBehaviorStub kc pod k"
proof -
  have "by_pod_search = webhook_search"
    by (intro ext) (simp only: bp.search_find wh.search_find)
  then show ?thesis by (simp only: GetBehaviorStubByPod_def findMatchingBehaviorStub_def)
qed

text \<open>
  A reconciliation that returns no error has done its work. Either the stub is gone and nothing is asked
  for, or the pods its selector chooses in its namespace were listed, the last write to the API server stored
  in the then current stub the phase and the counts of exactly these pods, and the next run is in 5 seconds.
\<close>

theorem reconcile_success:
  assumes "Reconcile kc req k = ((res, None), k')"
    and "\<forall>ns sel s pods s'. kcListPods kc ns sel s = (Inr pods, s') \<longrightarrow> length pods < 2 ^ 31"
  shows "(\<exists>m. kcGetStub kc req k = (Inl (NotFound m), k') \<and> RequeueAfter res = 0) \<or>
    (\<exists>bs k1 sel pods k2 k3 bs' k4.
       kcGetStub kc req k = (Inr bs, k1) \<and> kcSelector kc (TargetSelector (Spec bs)) = Inr sel \<and>
       kcListPods kc (fst req) sel k1 = (Inr pods, k2) \<and> kcGetStub kc req k3 = (Inr bs', k4) \<and>
       kcUpdateStatus kc (with_status (kcNow kc k4) (phase_spec pods)
           (of_nat (length (filter isPodInjected pods))) (of_nat (length pods)) bs') k4 = (None, k') \<and>
       RequeueAfter res = 5)"
proof -
  obtain g k1 where get: "kcGetStub kc req k = (g, k1)" by fastforce
  show ?thesis
  proof (cases g)
    case (Inl err)
    with assms(1) get show ?thesis by (cases err) (auto simp: Reconcile_def)
  next
    case (Inr bs)
    obtain sel where sel: "kcSelector kc (TargetSelector (Spec bs)) = Inr sel"
      using assms(1) get Inr by (auto simp: Reconcile_def split: sum.splits prod.splits)
    obtain pods k2 where pods: "kcListPods kc (fst req) sel k1 = (Inr pods, k2)"
      using assms(1) get Inr sel by (auto simp: Reconcile_def split: sum.splits prod.splits)
    then have ph: "phase_of (count_injected pods) (of_nat (length pods)) = phase_spec pods"
      using assms(2) by (intro phase_of_spec) blast
    have w: "updateStatusWithRetry kc req (phase_spec pods) (count_injected pods) (of_nat (length pods)) k2 = (None, k')"
      and res: "RequeueAfter res = 5"
      using assms(1) get Inr sel pods
      by (auto simp: Reconcile_def Let_def ph split: prod.splits option.splits)
    from retry_loop_success [OF w [unfolded updateStatusWithRetry_def]]
    obtain k3 bs' k4 where "kcGetStub kc req k3 = (Inr bs', k4)"
      "updateStatus kc bs' (phase_spec pods) (count_injected pods) (of_nat (length pods)) k4 = (None, k')"
      by blast
    with get Inr sel pods res show ?thesis
      unfolding updateStatus_def count_injected_eq by blast
  qed
qed

section \<open>Witnesses\<close>

text \<open>An API server with one stub and one pod; another writer makes the first status update conflict.\<close>

definition demo_kc :: "(BehaviorStub \<times> nat) kclient" where
  "demo_kc = \<lparr>kcSelector = (\<lambda>s. Inr (\<lambda>l. True)), kcGetStub = (\<lambda>req k. (Inr (fst k), k)),
     kcListStubs = (\<lambda>ns k. (Inr [fst k], k)),
     kcListPods = (\<lambda>ns sel k. (Inr [injectSidecar demo_pod demo_bs, demo_pod], k)),
     kcUpdateStatus = (\<lambda>bs k. if snd k = 0 then (None, (bs, 0)) else (Some (Conflict ''changed''), (fst k, snd k - 1))),
     kcNow = (\<lambda>k. ''now'')\<rparr>"

theorem phase_is_right_witness:
  "phase_of (count_injected [demo_pod, injectSidecar demo_pod demo_bs]) 2 = ''Partial''"
proof -
  have "\<not> isPodInjected demo_pod" "isPodInjected (injectSidecar demo_pod demo_bs)" by code_simp+
  then show ?thesis using phase_is_right [of "[demo_pod, injectSidecar demo_pod demo_bs]"] by simp
qed

theorem status_update_witness:
  "\<exists>c. filter (\<lambda>c. cdType c = ''Ready'') (Conditions (Status (with_status ''now'' ''Running'' 1 1 demo_bs))) = [c]
     \<and> cdStatus c = ''True''"
proof -
  have "distinct (map cdType (Conditions (Status demo_bs)))" by code_simp
  from status_update [OF this, of "''now''" "''Running''" 1 1] show ?thesis by (auto simp: Let_def)
qed

theorem update_with_retry_witness:
  "fst (updateStatusWithRetry demo_kc (''default'', ''bs'') ''Running'' 1 1 (demo_bs, 2)) = None"
proof -
  let ?ks = "\<lambda>j. ((\<lambda>s. snd (attempt demo_kc (''default'', ''bs'') ''Running'' 1 1 s)) ^^ j) (demo_bs, 2)"
  let ?c = "\<lambda>j. conflicted demo_kc (''default'', ''bs'') ''Running'' 1 1 (?ks j)"
  have c: "?c 0" "?c 1" "\<not> ?c 2" "fst (attempt demo_kc (''default'', ''bs'') ''Running'' 1 1 (?ks 2)) = None"
    by code_simp+
  note run = update_with_retry [of demo_kc "(''default'', ''bs'')" "''Running''" 1 1 "(demo_bs, 2)"]
  obtain i where i0: "i \<le> 3 \<and> (\<forall>j < i. ?c j) \<and>
     (if i = 3
      then updateStatusWithRetry demo_kc (''default'', ''bs'') ''Running'' 1 1 (demo_bs, 2) =
             (Some (OtherError ''failed to update status after 3 retries''), ?ks 3)
      else \<not> ?c i \<and> updateStatusWithRetry demo_kc (''default'', ''bs'') ''Running'' 1 1 (demo_bs, 2) =
             attempt demo_kc (''default'', ''bs'') ''Running'' 1 1 (?ks i))"
    using run unfolding Let_def by (rule exE)
  then have i: "i \<le> 3" "\<forall>j < i. ?c j" by blast+
  have r: "\<not> ?c i \<and> updateStatusWithRetry demo_kc (''default'', ''bs'') ''Running'' 1 1 (demo_bs, 2) =
      attempt demo_kc (''default'', ''bs'') ''Running'' 1 1 (?ks i)" if "i \<noteq> 3"
    using i0 [THEN conjunct2, THEN conjunct2] unfolding if_not_P [OF that] .
  have n3: "i \<noteq> 3"
  proof
    assume "i = 3"
    then have "?c 2" by (intro i(2) [rule_format]) simp
    with c(3) show False by blast
  qed
  have nc: "\<not> ?c i" using r [OF n3] by (rule conjunct1)
  have "i \<noteq> 0"
  proof
    assume eq: "i = 0"
    from nc [unfolded eq] c(1) show False by (rule notE)
  qed
  moreover have "i \<noteq> 1"
  proof
    assume eq: "i = 1"
    from nc [unfolded eq] c(2) show False by (rule notE)
  qed
  ultimately have i2: "i = 2" using i(1) n3 by linarith
  have e: "updateStatusWithRetry demo_kc (''default'', ''bs'') ''Running'' 1 1 (demo_bs, 2) =
      attempt demo_kc (''default'', ''bs'') ''Running'' 1 1 (?ks i)"
    using r [OF n3] by (rule conjunct2)
  show ?thesis unfolding e i2 by (rule c(4))
qed

theorem reconcile_success_witness:
  "snd (fst (Reconcile demo_kc (''default'', ''bs'') (demo_bs, 2))) = None \<and>
   RequeueAfter (fst (fst (Reconcile demo_kc (''default'', ''bs'') (demo_bs, 2)))) = 5"
proof -
  define out where "out = Reconcile demo_kc (''default'', ''bs'') (demo_bs, 2)"
  have none: "snd (fst out) = None" unfolding out_def by code_simp
  then have run: "Reconcile demo_kc (''default'', ''bs'') (demo_bs, 2) = ((fst (fst out), None), snd out)"
    by (metis out_def prod.collapse)
  have "\<forall>ns sel s pods s'. kcListPods demo_kc ns sel s = (Inr pods, s') \<longrightarrow> length pods < 2 ^ 31"
    by (auto simp: demo_kc_def)
  from reconcile_success [OF run this] none show ?thesis
    unfolding out_def [symmetric] by (auto simp: demo_kc_def)
qed

end
