(* ===== verification/KubeApi.thy ===== *)
theory KubeApi
  imports KubeTypes "HOL-Library.AList"
begin

text \<open>
  What the certificate tools use of the Kubernetes API: secrets and webhook configurations, as far as the code
  reads or writes them, and the client as a record of functions on an abstract cluster state. The laws a
  client is assumed to obey (\<open>lawful\<close>) are those of an object store: a read that succeeds gives the stored
  object, a write that succeeds stores exactly its object, a call that fails changes nothing.
\<close>

type_synonym bytes = "8 word list"
type_synonym object_key = "string \<times> string"

section \<open>Objects\<close>

text \<open>\<open>None\<close> is the nil map: an existing secret may carry no data at all.\<close>

record Secret =
  sName :: string
  sData :: "(string \<times> bytes) list option"
  sType :: string

record ServiceReference =
  srName :: string
  srNamespace :: string
  srPath :: "string option"
  srPort :: "int32 option"

record WebhookClientConfig =
  ccService :: "ServiceReference option"
  ccCABundle :: bytes

record WebhookRule =
  wrOperations :: "string list"
  wrAPIGroups :: "string list"
  wrAPIVersions :: "string list"
  wrResources :: "string list"
  wrScope :: "string option"

record Webhook =
  whName :: string
  whClientConfig :: WebhookClientConfig
  whRules :: "WebhookRule list"
  whNamespaceSelector :: "LabelSelector option"
  whFailurePolicy :: "string option"
  whSideEffects :: "string option"
  whAdmissionReviewVersions :: "string list"
  whTimeoutSeconds :: "int32 option"

record WebhookConfiguration =
  wcName :: string
  wcLabels :: labels
  wcWebhooks :: "Webhook list"

definition data_get :: "(string \<times> bytes) list option \<Rightarrow> string \<Rightarrow> bytes option" where
  "data_get d key = (case d of None \<Rightarrow> None | Some kvs \<Rightarrow> map_of kvs key)"

section \<open>The client\<close>

record ('o, 'k) store =
  stGet :: "object_key \<Rightarrow> 'k \<Rightarrow> (kerror + 'o) \<times> 'k"
  stCreate :: "object_key \<Rightarrow> 'o \<Rightarrow> 'k \<Rightarrow> kerror option \<times> 'k"
  stUpdate :: "object_key \<Rightarrow> 'o \<Rightarrow> 'k \<Rightarrow> kerror option \<times> 'k"
  stDelete :: "object_key \<Rightarrow> 'k \<Rightarrow> kerror option \<times> 'k"

text \<open>The store \<open>st\<close> keeps the objects that \<open>view\<close> shows in a cluster state.\<close>

definition lawful :: "('o, 'k) store \<Rightarrow> ('k \<Rightarrow> object_key \<Rightarrow> 'o option) \<Rightarrow> bool" where
  "lawful st view \<longleftrightarrow>
     (\<forall>key k r k'. stGet st key k = (r, k') \<longrightarrow> view k' = view k \<and>
        (case r of Inr obj \<Rightarrow> view k key = Some obj
         | Inl e \<Rightarrow> IsNotFound e \<longrightarrow> view k key = None)) \<and>
     (\<forall>key obj k r k'. stCreate st key obj k = (r, k') \<longrightarrow>
        (case r of None \<Rightarrow> view k key = None \<and> view k' = (view k)(key \<mapsto> obj) | Some e \<Rightarrow> view k' = view k)) \<and>
     (\<forall>key obj k r k'. stUpdate st key obj k = (r, k') \<longrightarrow>
        (case r of None \<Rightarrow> view k key \<noteq> None \<and> view k' = (view k)(key \<mapsto> obj) | Some e \<Rightarrow> view k' = view k)) \<and>
     (\<forall>key k r k'. stDelete st key k = (r, k') \<longrightarrow>
        (case r of None \<Rightarrow> view k' = (view k)(key := None) | Some e \<Rightarrow> view k' = view k))"

lemma lawful_get:
  assumes "lawful st view" and "stGet st key k = (r, k')"
  shows "view k' = view k" and "r = Inr obj \<Longrightarrow> view k key = Some obj"
    and "r = Inl e \<Longrightarrow> IsNotFound e \<Longrightarrow> view k key = None"
proof -
  have L: "view k' = view k \<and> (case r of Inr obj \<Rightarrow> view k key = Some obj | Inl e \<Rightarrow> IsNotFound e \<longrightarrow> view k key = None)"
    using assms unfolding lawful_def by blast
  from L show "view k' = view k"
    by simp
  from L show "r = Inr obj \<Longrightarrow> view k key = Some obj"
    by simp
  from L show "r = Inl e \<Longrightarrow> IsNotFound e \<Longrightarrow> view k key = None"
    by simp
qed

lemma lawful_create:
  assumes "lawful st view" and "stCreate st key obj k = (r, k')"
  shows "r = None \<Longrightarrow> view k' = (view k)(key \<mapsto> obj)" and "r = None \<Longrightarrow> view k key = None"
    and "r = Some e \<Longrightarrow> view k' = view k"
proof -
  have L: "case r of None \<Rightarrow> view k key = None \<and> view k' = (view k)(key \<mapsto> obj) | Some e \<Rightarrow> view k' = view k"
    using assms unfolding lawful_def by blast
  from L show "r = None \<Longrightarrow> view k' = (view k)(key \<mapsto> obj)"
    by simp
  from L show "r = None \<Longrightarrow> view k key = None"
    by simp
  from L show "r = Some e \<Longrightarrow> view k' = view k"
    by simp
qed

lemma lawful_update:
  assumes "lawful st view" and "stUpdate st key obj k = (r, k')"
  shows "r = None \<Longrightarrow> view k' = (view k)(key \<mapsto> obj)" and "r = None \<Longrightarrow> view k key \<noteq> None"
    and "r = Some e \<Longrightarrow> view k' = view k"
proof -
  have L: "case r of None \<Rightarrow> view k key \<noteq> None \<and> view k' = (view k)(key \<mapsto> obj) | Some e \<Rightarrow> view k' = view k"
    using assms unfolding lawful_def by blast
  from L show "r = None \<Longrightarrow> view k' = (view k)(key \<mapsto> obj)"
    by simp
  from L show "r = None \<Longrightarrow> view k key \<noteq> None"
    by simp
  from L show "r = Some e \<Longrightarrow> view k' = view k"
    by simp
qed

lemma lawful_delete:
  assumes "lawful st view" and "stDelete st key k = (r, k')"
  shows "r = None \<Longrightarrow> view k' = (view k)(key := None)" and "r = Some e \<Longrightarrow> view k' = view k"
proof -
  have L: "case r of None \<Rightarrow> view k' = (view k)(key := None) | Some e \<Rightarrow> view k' = view k"
    using assms unfolding lawful_def by blast
  from L show "r = None \<Longrightarrow> view k' = (view k)(key := None)"
    by simp
  from L show "r = Some e \<Longrightarrow> view k' = view k"
    by simp
qed

text \<open>A store in memory, for the witnesses.\<close>

definition map_store :: "('o, object_key \<Rightarrow> 'o option) store" where
  "map_store = \<lparr>stGet = (\<lambda>key m. (case m key of None \<Rightarrow> Inl (NotFound ''not found'') | Some obj \<Rightarrow> Inr obj, m)),
     stCreate = (\<lambda>key obj m. if m key = None then (None, m(key \<mapsto> obj)) else (Some (AlreadyExists ''exists''), m)),
     stUpdate = (\<lambda>key obj m. if m key = None then (Some (NotFound ''not found''), m) else (None, m(key \<mapsto> obj))),
     stDelete = (\<lambda>key m. if m key = None then (Some (NotFound ''not found''), m) else (None, m(key := None)))\<rparr>"

lemma map_store_lawful: "lawful map_store id"
  by (auto simp: lawful_def map_store_def split: option.splits if_splits)

text \<open>The two stores of a cluster in memory.\<close>

definition fst_store :: "('o, 'a) store \<Rightarrow> ('o, 'a \<times> 'b) store" where
  "fst_store st = \<lparr>stGet = (\<lambda>key k. map_prod id (\<lambda>a. (a, snd k)) (stGet st key (fst k))),
     stCreate = (\<lambda>key obj k. map_prod id (\<lambda>a. (a, snd k)) (stCreate st key obj (fst k))),
     stUpdate = (\<lambda>key obj k. map_prod id (\<lambda>a. (a, snd k)) (stUpdate st key obj (fst k))),
     stDelete = (\<lambda>key k. map_prod id (\<lambda>a. (a, snd k)) (stDelete st key (fst k)))\<rparr>"

definition snd_store :: "('o, 'b) store \<Rightarrow> ('o, 'a \<times> 'b) store" where
  "snd_store st = \<lparr>stGet = (\<lambda>key k. map_prod id (Pair (fst k)) (stGet st key (snd k))),
     stCreate = (\<lambda>key obj k. map_prod id (Pair (fst k)) (stCreate st key obj (snd k))),
     stUpdate = (\<lambda>key obj k. map_prod id (Pair (fst k)) (stUpdate st key obj (snd k))),
     stDelete = (\<lambda>key k. map_prod id (Pair (fst k)) (stDelete st key (snd k)))\<rparr>"

lemma two_stores_lawful: "lawful (fst_store map_store) fst" "lawful (snd_store map_store) snd"
  by (auto simp: lawful_def map_store_def fst_store_def snd_store_def split: option.splits if_splits)

section \<open>Outcomes\<close>

text \<open>A Go function that may panic, or end the process.\<close>

datatype 'a outcome = Panic string | Fatal string | Returned 'a

section \<open>Create or update\<close>

text \<open>
  Two operations of the certificate generator read an object and then create it or write a changed copy. What
  both promise is proved once: a call that reports success has stored, under its key and nowhere else, the
  object that \<open>want\<close> makes of the one that was there; a call that reports an error has stored nothing.
\<close>

locale ensures =
  fixes ensure :: "('o, 'k) store \<Rightarrow> 'k \<Rightarrow> kerror option outcome \<times> 'k"
    and key :: object_key and want :: "'o option \<Rightarrow> 'o option"
  assumes ensure_run: "ensure st k =
    (case stGet st key k of
       (Inl err, k1) \<Rightarrow>
         (if IsNotFound err
          then (case stCreate st key (the (want None)) k1 of (r, k2) \<Rightarrow> (Returned r, k2))
          else (Returned (Some err), k1))
     | (Inr obj, k1) \<Rightarrow>
         (case want (Some obj) of
            None \<Rightarrow> (Panic ''assignment to entry in nil map'', k1)
          | Some obj' \<Rightarrow> (case stUpdate st key obj' k1 of (r, k2) \<Rightarrow> (Returned r, k2))))"
    and want_new: "want None \<noteq> None"
begin

lemma ensure_ok:
  assumes "lawful st view" and "ensure st k = (Returned None, k')"
  shows "want (view k key) \<noteq> None" and "view k' = (view k)(key := want (view k key))"
proof -
  obtain g k1 where get: "stGet st key k = (g, k1)" by fastforce
  note lg = lawful_get [OF assms(1) get]
  have "want (view k key) \<noteq> None \<and> view k' = (view k)(key := want (view k key))"
  proof (cases g)
    case (Inl err)
    with assms(2) get have nf: "IsNotFound err" and cr: "stCreate st key (the (want None)) k1 = (None, k')"
      by (auto simp: ensure_run split: if_splits prod.splits)
    from lawful_create(1) [OF assms(1) cr] lg(1) lg(3) [OF Inl nf] want_new show ?thesis by auto
  next
    case (Inr obj)
    with assms(2) get obtain obj' where w: "want (Some obj) = Some obj'" and up: "stUpdate st key obj' k1 = (None, k')"
      by (auto simp: ensure_run split: option.splits prod.splits)
    from lawful_update(1) [OF assms(1) up] lg(1) lg(2) [OF Inr] w show ?thesis by auto
  qed
  then show "want (view k key) \<noteq> None" and "view k' = (view k)(key := want (view k key))" by blast+
qed

lemma ensure_not_ok:
  assumes "lawful st view" and "ensure st k = (r, k')" and "r \<noteq> Returned None"
  shows "view k' = view k"
proof -
  obtain g k1 where get: "stGet st key k = (g, k1)" by fastforce
  note k1 = lawful_get(1) [OF assms(1) get]
  show ?thesis
  proof (cases g)
    case (Inl err)
    then consider "k' = k1" | e where "stCreate st key (the (want None)) k1 = (Some e, k')"
      using assms(2,3) get by (auto simp: ensure_run split: prod.splits if_splits) (metis option.exhaust)
    then show ?thesis using k1 lawful_create(3) [OF assms(1)] by cases auto
  next
    case (Inr obj)
    then consider "k' = k1" | obj' e where "stUpdate st key obj' k1 = (Some e, k')"
      using assms(2,3) get by (auto simp: ensure_run split: prod.splits option.splits) (metis option.exhaust)
    then show ?thesis using k1 lawful_update(3) [OF assms(1)] by cases auto
  qed
qed

lemma ensure_panic:
  assumes "lawful st view" and "ensure st k = (Panic m, k')"
  shows "\<exists>obj. view k key = Some obj \<and> want (Some obj) = None"
proof -
  obtain g k1 where get: "stGet st key k = (g, k1)" by fastforce
  with assms(2) obtain obj where "g = Inr obj" "want (Some obj) = None"
    by (auto simp: ensure_run split: prod.splits sum.splits option.splits if_splits)
  with lawful_get(2) [OF assms(1) get] show ?thesis by blast
qed

end

end
