(* ===== verification/CertGen.thy ===== *)
theory CertGen
  imports KubeApi
begin

unbundle bit_operations_syntax

text \<open>
  \<open>internal/certgen/certgen.go\<close>: the certificates of the webhook server, the secret that keeps them and
  the registration of the webhook. The cryptography is a parameter: a record of functions that thread the
  state \<open>'r\<close> of the random source and the clock.
\<close>

section \<open>Certificates\<close>

record date =
  year :: int
  month :: int
  day :: int
  nanos :: int

definition leap_year :: "int \<Rightarrow> bool" where
  "leap_year y \<longleftrightarrow> 4 dvd y \<and> (\<not> 100 dvd y \<or> 400 dvd y)"

text \<open>\<open>AddDate(n, 0, 0)\<close>: a 29th of February that does not exist becomes the 1st of March.\<close>

definition addYears :: "int \<Rightarrow> date \<Rightarrow> date" where
  "addYears n d =
     (let y = year d + n in
      if month d = 2 \<and> day d = 29 \<and> \<not> leap_year y then d\<lparr>year := y, month := 3, day := 1\<rparr>
      else d\<lparr>year := y\<rparr>)"

definition KeyUsageDigitalSignature :: int where "KeyUsageDigitalSignature = 1"
definition KeyUsageKeyEncipherment :: int where "KeyUsageKeyEncipherment = 4"
definition KeyUsageCertSign :: int where "KeyUsageCertSign = 32"

datatype ext_key_usage = ExtKeyUsageServerAuth | ExtKeyUsageClientAuth

record 'time certificate =
  SerialNumber :: int
  Organization :: "string list"
  NotBefore :: 'time
  NotAfter :: 'time
  IsCA :: bool
  ExtKeyUsage :: "ext_key_usage list"
  KeyUsage :: int
  BasicConstraintsValid :: bool
  DNSNames :: "string list"
  IPAddresses :: "string list"

record ('time, 'priv, 'pub, 'r) crypto =
  now :: "'r \<Rightarrow> 'time \<times> 'r"
  generateKey :: "'r \<Rightarrow> (goerror + 'priv) \<times> 'r"
  createCertificate :: "'time certificate \<Rightarrow> 'time certificate \<Rightarrow> 'pub \<Rightarrow> 'priv \<Rightarrow> 'r \<Rightarrow> (goerror + bytes) \<times> 'r"
  publicKey :: "'priv \<Rightarrow> 'pub"
  pemEncode :: "string \<Rightarrow> bytes \<Rightarrow> bytes"
  marshalPKCS1 :: "'priv \<Rightarrow> bytes"

definition ca_template :: "date \<Rightarrow> date \<Rightarrow> date certificate" where
  "ca_template nb na =
     \<lparr>SerialNumber = 2026, Organization = [''DynaStub Operator''], NotBefore = nb, NotAfter = addYears 100 na,
      IsCA = True, ExtKeyUsage = [ExtKeyUsageClientAuth, ExtKeyUsageServerAuth],
      KeyUsage = KeyUsageDigitalSignature OR KeyUsageCertSign, BasicConstraintsValid = True,
      DNSNames = [], IPAddresses = []\<rparr>"

definition server_template :: "string list \<Rightarrow> date \<Rightarrow> date \<Rightarrow> date certificate" where
  "server_template hosts nb na =
     \<lparr>SerialNumber = 2026, Organization = [''DynaStub Operator''], NotBefore = nb, NotAfter = addYears 100 na,
      IsCA = False, ExtKeyUsage = [ExtKeyUsageServerAuth],
      KeyUsage = KeyUsageDigitalSignature, BasicConstraintsValid = False,
      DNSNames = hosts, IPAddresses = []\<rparr>"

definition GenerateCertificates ::
    "(date, 'priv, 'pub, 'r) crypto \<Rightarrow> string list \<Rightarrow> 'r \<Rightarrow> (goerror + bytes \<times> bytes \<times> bytes) \<times> 'r" where
  "GenerateCertificates cr hosts r0 =
     (case now cr r0 of (t1, r1) \<Rightarrow>
      case now cr r1 of (t2, r2) \<Rightarrow>
      let ca = ca_template t1 t2 in
      case generateKey cr r2 of
        (Inl err, r3) \<Rightarrow> (Inl err, r3)
      | (Inr caPrivKey, r3) \<Rightarrow>
      case createCertificate cr ca ca (publicKey cr caPrivKey) caPrivKey r3 of
        (Inl err, r4) \<Rightarrow> (Inl err, r4)
      | (Inr caBytes, r4) \<Rightarrow>
      let caCert = pemEncode cr ''CERTIFICATE'' caBytes in
      case now cr r4 of (t3, r5) \<Rightarrow>
      case now cr r5 of (t4, r6) \<Rightarrow>
      let server = server_template hosts t3 t4 in
      case generateKey cr r6 of
        (Inl err, r7) \<Rightarrow> (Inl err, r7)
      | (Inr serverPrivKey, r7) \<Rightarrow>
      case createCertificate cr server ca (publicKey cr serverPrivKey) caPrivKey r7 of
        (Inl err, r8) \<Rightarrow> (Inl err, r8)
      | (Inr serverBytes, r8) \<Rightarrow>
      let serverCert = pemEncode cr ''CERTIFICATE'' serverBytes;
          serverKey = pemEncode cr ''RSA PRIVATE KEY'' (marshalPKCS1 cr serverPrivKey)
      in (Inr (caCert, serverCert, serverKey), r8))"

section \<open>The secret\<close>

definition tlsCertFile :: string where "tlsCertFile = ''tls.crt''"
definition tlsKeyFile :: string where "tlsKeyFile = ''tls.key''"
definition caCertFile :: string where "caCertFile = ''ca.crt''"

definition new_secret :: "string \<Rightarrow> bytes \<Rightarrow> bytes \<Rightarrow> bytes \<Rightarrow> Secret" where
  "new_secret secretName caCert serverCert serverKey =
     \<lparr>sName = secretName,
      sData = Some [(tlsCertFile, serverCert), (tlsKeyFile, serverKey), (caCertFile, caCert)],
      sType = ''kubernetes.io/tls''\<rparr>"

text \<open>The three assignments to the map; the first one panics when the map is nil.\<close>

definition put_certs :: "bytes \<Rightarrow> bytes \<Rightarrow> bytes \<Rightarrow> Secret \<Rightarrow> Secret option" where
  "put_certs caCert serverCert serverKey secret =
     (case sData secret of
        None \<Rightarrow> None
      | Some d \<Rightarrow>
          (let d1 = AList.update tlsCertFile serverCert d;
               d2 = AList.update tlsKeyFile serverKey d1;
               d3 = AList.update caCertFile caCert d2
           in Some (secret\<lparr>sData := Some d3\<rparr>)))"

definition CreateOrUpdateSecret ::
    "string \<Rightarrow> string \<Rightarrow> bytes \<Rightarrow> bytes \<Rightarrow> bytes \<Rightarrow> (Secret, 'k) store \<Rightarrow> 'k \<Rightarrow> kerror option outcome \<times> 'k" where
  "CreateOrUpdateSecret namespace secretName caCert serverCert serverKey st k =
     (case stGet st (namespace, secretName) k of
        (Inl err, k1) \<Rightarrow>
          (if IsNotFound err
           then (case stCreate st (namespace, secretName) (new_secret secretName caCert serverCert serverKey) k1 of
                   (r, k2) \<Rightarrow> (Returned r, k2))
           else (Returned (Some err), k1))
      | (Inr secret, k1) \<Rightarrow>
          (case put_certs caCert serverCert serverKey secret of
             None \<Rightarrow> (Panic ''assignment to entry in nil map'', k1)
           | Some secret' \<Rightarrow>
               (case stUpdate st (namespace, secretName) secret' k1 of (r, k2) \<Rightarrow> (Returned r, k2))))"

definition CertExistsAndValid ::
    "string \<Rightarrow> string \<Rightarrow> (Secret, 'k) store \<Rightarrow> 'k \<Rightarrow> (bool \<times> kerror option) \<times> 'k" where
  "CertExistsAndValid namespace secretName st k =
     (case stGet st (namespace, secretName) k of
        (Inl err, k1) \<Rightarrow> (if IsNotFound err then ((False, None), k1) else ((False, Some err), k1))
      | (Inr secret, k1) \<Rightarrow>
          (let len = (\<lambda>key. case data_get (sData secret) key of None \<Rightarrow> 0 | Some b \<Rightarrow> length b) in
           if sData secret = None \<or> len tlsCertFile = 0 \<or> len tlsKeyFile = 0
           then ((False, None), k1) else ((True, None), k1)))"

definition ReadCaCertFromSecret ::
    "string \<Rightarrow> string \<Rightarrow> (Secret, 'k) store \<Rightarrow> 'k \<Rightarrow> (kerror + bytes) \<times> 'k" where
  "ReadCaCertFromSecret namespace secretName st k =
     (case stGet st (namespace, secretName) k of
        (Inl err, k1) \<Rightarrow> (Inl err, k1)
      | (Inr secret, k1) \<Rightarrow>
          (if sData secret = None then (Inl (OtherError ''secret data is empty''), k1)
           else (case data_get (sData secret) caCertFile of
                   None \<Rightarrow> (Inl (OtherError ''CA certificate not found in secret''), k1)
                 | Some caCert \<Rightarrow>
                     (if length caCert = 0 then (Inl (OtherError ''CA certificate not found in secret''), k1)
                      else (Inr caCert, k1)))))"

section \<open>The webhook configuration\<close>

definition new_webhook :: "string \<Rightarrow> string \<Rightarrow> string \<Rightarrow> bytes \<Rightarrow> WebhookConfiguration" where
  "new_webhook webhookName namespace serviceName caCert =
     \<lparr>wcName = webhookName,
      wcLabels = [(''app.kubernetes.io/managed-by'', ''dynastub-operator'')],
      wcWebhooks =
        [\<lparr>whName = ''mpod.kb.io'',
          whClientConfig =
            \<lparr>ccService = Some \<lparr>srName = serviceName, srNamespace = namespace,
                srPath = Some ''/mutate-v1-pod'', srPort = Some 443\<rparr>,
             ccCABundle = caCert\<rparr>,
          whRules = [\<lparr>wrOperations = [''CREATE'', ''UPDATE''], wrAPIGroups = [''''], wrAPIVersions = [''v1''],
                      wrResources = [''pods''], wrScope = Some ''Namespaced''\<rparr>],
          whNamespaceSelector = Some \<lparr>MatchLabels = [], MatchExpressions = []\<rparr>,
          whFailurePolicy = Some ''Ignore'',
          whSideEffects = Some ''None'',
          whAdmissionReviewVersions = [''v1''],
          whTimeoutSeconds = Some 30\<rparr>]\<rparr>"

definition put_ca :: "bytes \<Rightarrow> WebhookConfiguration \<Rightarrow> WebhookConfiguration" where
  "put_ca caCert wc =
     wc\<lparr>wcWebhooks := map (\<lambda>h. h\<lparr>whClientConfig := (whClientConfig h)\<lparr>ccCABundle := caCert\<rparr>\<rparr>) (wcWebhooks wc)\<rparr>"

text \<open>The configuration is not in a namespace; its key has the empty one.\<close>

definition CreateOrUpdateWebhookConfiguration ::
    "string \<Rightarrow> string \<Rightarrow> string \<Rightarrow> bytes \<Rightarrow> (WebhookConfiguration, 'k) store \<Rightarrow> 'k \<Rightarrow>
     kerror option \<times> 'k" where
  "CreateOrUpdateWebhookConfiguration webhookName namespace serviceName caCert st k =
     (case stGet st ([], webhookName) k of
        (Inl err, k1) \<Rightarrow>
          (if IsNotFound err
           then stCreate st ([], webhookName) (new_webhook webhookName namespace serviceName caCert) k1
           else (Some err, k1))
      | (Inr webhook, k1) \<Rightarrow> stUpdate st ([], webhookName) (put_ca caCert webhook) k1)"

definition DeleteWebhookConfiguration ::
    "string \<Rightarrow> (WebhookConfiguration, 'k) store \<Rightarrow> 'k \<Rightarrow> kerror option \<times> 'k" where
  "DeleteWebhookConfiguration webhookName st k =
     (case stGet st ([], webhookName) k of
        (Inl err, k1) \<Rightarrow> (if IsNotFound err then (None, k1) else (Some err, k1))
      | (Inr webhook, k1) \<Rightarrow>
          (if map_of (wcLabels webhook) ''app.kubernetes.io/managed-by'' \<noteq> Some ''dynastub-operator''
           then (None, k1)
           else stDelete st ([], webhookName) k1))"

section \<open>Both create-or-update operations keep the contract\<close>

definition want_secret :: "string \<Rightarrow> bytes \<Rightarrow> bytes \<Rightarrow> bytes \<Rightarrow> Secret option \<Rightarrow> Secret option" where
  "want_secret name ca crt key old =
     (case old of None \<Rightarrow> Some (new_secret name ca crt key) | Some s \<Rightarrow> put_certs ca crt key s)"

definition want_webhook ::
    "string \<Rightarrow> string \<Rightarrow> string \<Rightarrow> bytes \<Rightarrow> WebhookConfiguration option \<Rightarrow> WebhookConfiguration option" where
  "want_webhook name ns svc ca old =
     (case old of None \<Rightarrow> Some (new_webhook name ns svc ca) | Some wc \<Rightarrow> Some (put_ca ca wc))"

interpretation sec: ensures "CreateOrUpdateSecret ns name ca crt key" "(ns, name)" "want_secret name ca crt key"
  for ns name ca crt key
  by unfold_locales
     (auto simp: CreateOrUpdateSecret_def want_secret_def split: sum.splits prod.splits option.splits)

interpretation whc: ensures
    "\<lambda>st k. map_prod Returned id (CreateOrUpdateWebhookConfiguration name ns svc ca st k)" "([], name)"
    "want_webhook name ns svc ca"
  for name ns svc ca
  by unfold_locales
     (auto simp: CreateOrUpdateWebhookConfiguration_def want_webhook_def split: sum.splits prod.splits option.splits)

lemma file_names [simp]:
  "tlsCertFile \<noteq> tlsKeyFile" "tlsCertFile \<noteq> caCertFile" "tlsKeyFile \<noteq> caCertFile"
  "tlsKeyFile \<noteq> tlsCertFile" "caCertFile \<noteq> tlsCertFile" "caCertFile \<noteq> tlsKeyFile"
  by (simp_all add: tlsCertFile_def tlsKeyFile_def caCertFile_def)

text \<open>What a secret holds after the assignment, whether it is new or not.\<close>

lemma want_secret_data:
  assumes "want_secret name ca crt key old = Some s"
  shows "data_get (sData s) tlsCertFile = Some crt" and "data_get (sData s) tlsKeyFile = Some key"
    and "data_get (sData s) caCertFile = Some ca" and "sData s \<noteq> None"
    and "old = Some o' \<Longrightarrow> f \<notin> {tlsCertFile, tlsKeyFile, caCertFile} \<Longrightarrow>
      data_get (sData s) f = data_get (sData o') f"
proof -
  consider "old = None" "s = new_secret name ca crt key"
    | t d where "old = Some t" "sData t = Some d"
        "s = t\<lparr>sData := Some (AList.update caCertFile ca (AList.update tlsKeyFile key (AList.update tlsCertFile crt d)))\<rparr>"
    using assms by (auto simp: want_secret_def put_certs_def Let_def split: option.splits)
  note cases = this
  show "data_get (sData s) tlsCertFile = Some crt" "data_get (sData s) tlsKeyFile = Some key"
    "data_get (sData s) caCertFile = Some ca" "sData s \<noteq> None"
    using cases by (cases; simp add: new_secret_def data_get_def update_conv')+
  show "data_get (sData s) f = data_get (sData o') f"
    if "old = Some o'" "f \<notin> {tlsCertFile, tlsKeyFile, caCertFile}"
    using that by (cases rule: cases) (auto simp: data_get_def update_conv')
qed

section \<open>Properties\<close>

text \<open>
  C23: the certificates and the secret. With a server that keeps objects, a call that reports success has
  stored the three files under their names, kept every other file of an existing secret and every other
  object; a call that reports an error or panics has stored nothing.
\<close>

theorem secret_stored:
  assumes "lawful st view"
    and "CreateOrUpdateSecret ns name ca crt key st k = (r, k')"
  shows "if r = Returned None
    then (\<exists>s. view k' = (view k)((ns, name) \<mapsto> s) \<and>
       data_get (sData s) ''tls.crt'' = Some crt \<and> data_get (sData s) ''tls.key'' = Some key \<and>
       data_get (sData s) ''ca.crt'' = Some ca \<and>
       (\<forall>old f. view k (ns, name) = Some old \<longrightarrow> f \<notin> {''tls.crt'', ''tls.key'', ''ca.crt''} \<longrightarrow>
          data_get (sData s) f = data_get (sData old) f))
    else view k' = view k"
proof (cases "r = Returned None")
  case True
  with assms have run: "CreateOrUpdateSecret ns name ca crt key st k = (Returned None, k')" by simp
  from sec.ensure_ok [OF assms(1) run] obtain s where
    "want_secret name ca crt key (view k (ns, name)) = Some s" "view k' = (view k)((ns, name) \<mapsto> s)"
    by auto
  with want_secret_data [OF this(1)] True show ?thesis
    by (auto simp: tlsCertFile_def tlsKeyFile_def caCertFile_def)
next
  case False
  with sec.ensure_not_ok [OF assms] show ?thesis by simp
qed

text \<open>
  C24: round trip of the CA certificate. After a call that reported success, a read that reaches the server
  returns the certificate that was stored, and the check for an existing certificate says yes.
\<close>

theorem secret_round_trip:
  assumes "lawful st view" and "CreateOrUpdateSecret ns name ca crt key st k = (Returned None, k1)"
    and "stGet st (ns, name) k1 = (Inr s, k2)" and "ca \<noteq> []" and "crt \<noteq> []" and "key \<noteq> []"
  shows "ReadCaCertFromSecret ns name st k1 = (Inr ca, k2) \<and>
    CertExistsAndValid ns name st k1 = ((True, None), k2)"
proof -
  from sec.ensure_ok [OF assms(1,2)] obtain s' where
    w: "want_secret name ca crt key (view k (ns, name)) = Some s'" and v: "view k1 (ns, name) = Some s'"
    by auto
  have "s = s'" using lawful_get(2) [OF assms(1,3)] v by simp
  with want_secret_data(1-4) [OF w] assms(3-6) show ?thesis
    by (simp add: ReadCaCertFromSecret_def CertExistsAndValid_def)
qed

text \<open>
  The nil map. A call panics only when the secret is there and has no data, and then it does: the
  certificates cannot be installed into an empty secret.
\<close>

theorem secret_panics:
  assumes "lawful st view" and "stGet st (ns, name) k = (Inr s, k1)"
  shows "(\<exists>m. fst (CreateOrUpdateSecret ns name ca crt key st k) = Panic m) \<longleftrightarrow>
    view k (ns, name) = Some s \<and> sData s = None"
  using assms(2) lawful_get(2) [OF assms]
  by (auto simp: CreateOrUpdateSecret_def put_certs_def Let_def split: option.splits prod.splits)

text \<open>
  C37: the registration of the webhook. A call that reports success has left every webhook of the
  configuration with the given CA certificate; in an existing configuration nothing else has changed, a
  missing one is created for the given service; a call that reports an error has changed nothing.
\<close>

theorem webhook_registered:
  assumes "lawful st view" and "CreateOrUpdateWebhookConfiguration name ns svc ca st k = (r, k')"
  shows "if r = None
    then (\<exists>wc. view k' = (view k)(([], name) \<mapsto> wc) \<and>
       (\<forall>h \<in> set (wcWebhooks wc). ccCABundle (whClientConfig h) = ca) \<and>
       (case view k ([], name) of
          None \<Rightarrow> (\<exists>h. wcWebhooks wc = [h] \<and> whFailurePolicy h = Some ''Ignore'' \<and>
            ccService (whClientConfig h) = Some \<lparr>srName = svc, srNamespace = ns, srPath = Some ''/mutate-v1-pod'', srPort = Some 443\<rparr>)
        | Some old \<Rightarrow> wcLabels wc = wcLabels old \<and>
            map (\<lambda>h. h\<lparr>whClientConfig := (whClientConfig h)\<lparr>ccCABundle := []\<rparr>\<rparr>) (wcWebhooks wc) =
            map (\<lambda>h. h\<lparr>whClientConfig := (whClientConfig h)\<lparr>ccCABundle := []\<rparr>\<rparr>) (wcWebhooks old)))
    else view k' = view k"
proof (cases "r = None")
  case True
  have "map_prod Returned id (CreateOrUpdateWebhookConfiguration name ns svc ca st k) = (Returned None, k')"
    using assms(2) True by simp
  from whc.ensure_ok [OF assms(1) this] obtain wc where
    "want_webhook name ns svc ca (view k ([], name)) = Some wc" "view k' = (view k)(([], name) \<mapsto> wc)"
    by auto
  then show ?thesis
    unfolding if_P [OF True]
    by (intro exI [of _ wc]) (auto simp: want_webhook_def new_webhook_def put_ca_def split: option.splits)
next
  case False
  have "map_prod Returned id (CreateOrUpdateWebhookConfiguration name ns svc ca st k) = (Returned r, k')"
    using assms(2) by simp
  from whc.ensure_not_ok [OF assms(1) this] False show ?thesis unfolding if_not_P [OF False] by simp
qed

text \<open>
  Only a configuration that carries the label of the operator is ever deleted, and no other object is
  touched.
\<close>

theorem delete_only_managed:
  assumes "lawful st view" and "DeleteWebhookConfiguration name st k = (r, k')" and "view k' \<noteq> view k"
  shows "r = None \<and> view k' = (view k)(([], name) := None) \<and>
    (\<exists>wc. view k ([], name) = Some wc \<and>
       map_of (wcLabels wc) ''app.kubernetes.io/managed-by'' = Some ''dynastub-operator'')"
proof -
  obtain g k1 where get: "stGet st ([], name) k = (g, k1)" by fastforce
  note lg = lawful_get [OF assms(1) get]
  from assms(2,3) get lg(1) obtain wc where g: "g = Inr wc" and del: "stDelete st ([], name) k1 = (r, k')"
    and m: "map_of (wcLabels wc) ''app.kubernetes.io/managed-by'' = Some ''dynastub-operator''"
    by (auto simp: DeleteWebhookConfiguration_def split: sum.splits if_splits)
  have "r = None" using lawful_delete(2) [OF assms(1) del] assms(3) lg(1) by (cases r) auto
  with lawful_delete(1) [OF assms(1) del] lg(1) lg(2) [OF g] m show ?thesis by auto
qed

lemma generated_from_templates:
  assumes "GenerateCertificates cr hosts r = (Inr (caCert, serverCert, serverKey), r')"
  shows "\<exists>caKey sKey t1 t2 t3 t4 caBytes sBytes s1 s2 s3 s4.
    createCertificate cr (ca_template t1 t2) (ca_template t1 t2) (publicKey cr caKey) caKey s1 = (Inr caBytes, s2) \<and>
    createCertificate cr (server_template hosts t3 t4) (ca_template t1 t2) (publicKey cr sKey) caKey s3 = (Inr sBytes, s4) \<and>
    caCert = pemEncode cr ''CERTIFICATE'' caBytes \<and> serverCert = pemEncode cr ''CERTIFICATE'' sBytes \<and>
    serverKey = pemEncode cr ''RSA PRIVATE KEY'' (marshalPKCS1 cr sKey)"
proof -
  obtain t1 r1 t2 r2 where t: "now cr r = (t1, r1)" "now cr r1 = (t2, r2)" by fastforce
  obtain caKey r3 where k1: "generateKey cr r2 = (Inr caKey, r3)"
    using assms t by (auto simp: GenerateCertificates_def Let_def split: prod.splits sum.splits)
  let ?ca = "ca_template t1 t2"
  obtain caBytes r4 where c1: "createCertificate cr ?ca ?ca (publicKey cr caKey) caKey r3 = (Inr caBytes, r4)"
    using assms t k1 by (auto simp: GenerateCertificates_def Let_def split: prod.splits sum.splits)
  obtain t3 r5 t4 r6 where t': "now cr r4 = (t3, r5)" "now cr r5 = (t4, r6)" by fastforce
  let ?server = "server_template hosts t3 t4"
  obtain sKey r7 where k2: "generateKey cr r6 = (Inr sKey, r7)"
    using assms t k1 c1 t' by (auto simp: GenerateCertificates_def Let_def split: prod.splits sum.splits)
  obtain sBytes r8 where c2: "createCertificate cr ?server ?ca (publicKey cr sKey) caKey r7 = (Inr sBytes, r8)"
    using assms t k1 c1 t' k2 by (auto simp: GenerateCertificates_def Let_def split: prod.splits sum.splits)
  have "caCert = pemEncode cr ''CERTIFICATE'' caBytes" "serverCert = pemEncode cr ''CERTIFICATE'' sBytes"
    "serverKey = pemEncode cr ''RSA PRIVATE KEY'' (marshalPKCS1 cr sKey)"
    using assms t k1 c1 t' k2 c2 by (auto simp: GenerateCertificates_def Let_def)
  then show ?thesis using c1 c2 by blast
qed

text \<open>
  C38: the certificates that are generated belong together. On success the CA certificate is signed by its own
  key, the server certificate is for the given host names, is signed by the key of that CA and is no CA, and
  the server key is the one the server certificate is made for.
\<close>

theorem certificates_belong_together:
  assumes "GenerateCertificates cr hosts r = (Inr (caCert, serverCert, serverKey), r')"
  shows "\<exists>caKey serverKey' ca server caBytes serverBytes s1 s2 s3 s4.
    createCertificate cr ca ca (publicKey cr caKey) caKey s1 = (Inr caBytes, s2) \<and>
    createCertificate cr server ca (publicKey cr serverKey') caKey s3 = (Inr serverBytes, s4) \<and>
    IsCA ca \<and> \<not> IsCA server \<and> DNSNames server = hosts \<and> KeyUsage ca AND KeyUsageCertSign \<noteq> 0 \<and>
    ExtKeyUsageServerAuth \<in> set (ExtKeyUsage server) \<and>
    caCert = pemEncode cr ''CERTIFICATE'' caBytes \<and> serverCert = pemEncode cr ''CERTIFICATE'' serverBytes \<and>
    serverKey = pemEncode cr ''RSA PRIVATE KEY'' (marshalPKCS1 cr serverKey')"
proof -
  have t: "IsCA (ca_template t1 t2)" "\<not> IsCA (server_template hosts t1 t2)"
    "DNSNames (server_template hosts t1 t2) = hosts" "KeyUsage (ca_template t1 t2) AND KeyUsageCertSign \<noteq> 0"
    "ExtKeyUsageServerAuth \<in> set (ExtKeyUsage (server_template hosts t1 t2))" for t1 t2
    by (simp_all add: ca_template_def server_template_def KeyUsageCertSign_def KeyUsageDigitalSignature_def)
  from generated_from_templates [OF assms] t show ?thesis by metis
qed

text \<open>The check does not look at the certificate: any byte counts as a valid certificate.\<close>

theorem check_accepts_anything:
  "fst (CertExistsAndValid ''ns'' ''s'' map_store
     [(''ns'', ''s'') \<mapsto> \<lparr>sName = ''s'', sData = Some [(''tls.crt'', [0]), (''tls.key'', [0])], sType = ''Opaque''\<rparr>])
   = (True, None)"
  by (simp add: CertExistsAndValid_def map_store_def data_get_def tlsCertFile_def tlsKeyFile_def)

section \<open>Witnesses\<close>

definition demo_store :: "object_key \<Rightarrow> Secret option" where
  "demo_store = [(''ns'', ''s'') \<mapsto> \<lparr>sName = ''s'', sData = Some [(''other'', [7])], sType = ''Opaque''\<rparr>]"

definition hollow_store :: "object_key \<Rightarrow> Secret option" where
  "hollow_store = [(''ns'', ''s'') \<mapsto> \<lparr>sName = ''s'', sData = None, sType = ''Opaque''\<rparr>]"

theorem secret_stored_witness:
  "\<exists>k' s. snd (CreateOrUpdateSecret ''ns'' ''s'' [1] [2] [3] map_store demo_store) = k' \<and> k' (''ns'', ''s'') = Some s \<and>
     data_get (sData s) ''tls.crt'' = Some [2] \<and> data_get (sData s) ''other'' = Some [7]"
proof -
  define out where "out = CreateOrUpdateSecret ''ns'' ''s'' [1] [2] [3] map_store demo_store"
  have ok: "fst out = Returned None"
    by (simp add: out_def CreateOrUpdateSecret_def map_store_def demo_store_def put_certs_def Let_def)
  have old: "id demo_store (''ns'', ''s'') = Some \<lparr>sName = ''s'', sData = Some [(''other'', [7])], sType = ''Opaque''\<rparr>"
    by (simp add: demo_store_def)
  have run: "CreateOrUpdateSecret ''ns'' ''s'' [1] [2] [3] map_store demo_store = (fst out, snd out)"
    by (simp add: out_def)
  have other: "data_get (Some [(''other'', [7])]) ''other'' = Some [7]" by (simp add: data_get_def)
  from secret_stored [OF map_store_lawful run] obtain s where
    s: "id (snd out) = (id demo_store)((''ns'', ''s'') \<mapsto> s)" "data_get (sData s) ''tls.crt'' = Some [2]"
      "\<forall>old f. id demo_store (''ns'', ''s'') = Some old \<longrightarrow> f \<notin> {''tls.crt'', ''tls.key'', ''ca.crt''} \<longrightarrow>
         data_get (sData s) f = data_get (sData old) f"
    unfolding if_P [OF ok] by blast
  have "data_get (sData s) ''other'' = Some [7]" using s(3) old other by simp
  with s(1,2) show ?thesis by (auto simp: out_def [symmetric])
qed

theorem secret_round_trip_witness:
  "ReadCaCertFromSecret ''ns'' ''s'' map_store (snd (CreateOrUpdateSecret ''ns'' ''s'' [1] [2] [3] map_store demo_store))
     = (Inr [1], snd (CreateOrUpdateSecret ''ns'' ''s'' [1] [2] [3] map_store demo_store))"
proof -
  define out where "out = CreateOrUpdateSecret ''ns'' ''s'' [1] [2] [3] map_store demo_store"
  have run: "CreateOrUpdateSecret ''ns'' ''s'' [1] [2] [3] map_store demo_store = (Returned None, snd out)"
    by (simp add: out_def CreateOrUpdateSecret_def map_store_def demo_store_def put_certs_def Let_def)
  obtain s where get: "stGet map_store (''ns'', ''s'') (snd out) = (Inr s, snd out)"
    by (simp add: out_def CreateOrUpdateSecret_def map_store_def demo_store_def put_certs_def Let_def)
  from secret_round_trip [OF map_store_lawful run get] show ?thesis by (simp add: out_def)
qed

theorem secret_panics_witness:
  "\<exists>m. fst (CreateOrUpdateSecret ''ns'' ''s'' [1] [2] [3] map_store hollow_store) = Panic m"
proof -
  have get: "stGet map_store (''ns'', ''s'') hollow_store =
      (Inr \<lparr>sName = ''s'', sData = None, sType = ''Opaque''\<rparr>, hollow_store)"
    by (simp add: map_store_def hollow_store_def)
  from secret_panics [OF map_store_lawful get] show ?thesis by (simp add: hollow_store_def)
qed

theorem webhook_registered_witness:
  "\<exists>wc. snd (CreateOrUpdateWebhookConfiguration ''w'' ''ns'' ''svc'' [1] map_store Map.empty) ([], ''w'') = Some wc \<and>
     (\<forall>h \<in> set (wcWebhooks wc). ccCABundle (whClientConfig h) = [1])"
proof -
  define out where "out = CreateOrUpdateWebhookConfiguration ''w'' ''ns'' ''svc'' [1] map_store Map.empty"
  have "fst out = None" by (simp add: out_def CreateOrUpdateWebhookConfiguration_def map_store_def)
  moreover have run: "CreateOrUpdateWebhookConfiguration ''w'' ''ns'' ''svc'' [1] map_store Map.empty = (fst out, snd out)"
    by (simp add: out_def)
  ultimately obtain wc where "id (snd out) = (id Map.empty)(([], ''w'') \<mapsto> wc)"
    "\<forall>h \<in> set (wcWebhooks wc). ccCABundle (whClientConfig h) = [1]"
    using webhook_registered [OF map_store_lawful run] by (simp only: if_P) blast
  then show ?thesis unfolding out_def [symmetric] by (intro exI [of _ wc]) simp
qed

definition managed_store :: "object_key \<Rightarrow> WebhookConfiguration option" where
  "managed_store = [([], ''w'') \<mapsto> new_webhook ''w'' ''ns'' ''svc'' [1]]"

theorem delete_only_managed_witness:
  "snd (DeleteWebhookConfiguration ''w'' map_store managed_store) = managed_store(([], ''w'') := None)"
proof -
  define out where "out = DeleteWebhookConfiguration ''w'' map_store managed_store"
  have "snd out ([], ''w'') = None" "managed_store ([], ''w'') \<noteq> None"
    by (simp_all add: out_def DeleteWebhookConfiguration_def map_store_def managed_store_def new_webhook_def)
  then have "id (snd out) \<noteq> id managed_store" by auto
  with delete_only_managed [OF map_store_lawful, of "''w''" managed_store "fst out" "snd out"]
  show ?thesis by (simp add: out_def)
qed

definition demo_crypto :: "(date, nat, nat, nat) crypto" where
  "demo_crypto = \<lparr>now = (\<lambda>r. (\<lparr>year = 2026, month = 1, day = 1, nanos = 0\<rparr>, r)),
     generateKey = (\<lambda>r. (Inr r, Suc r)), createCertificate = (\<lambda>c p pub priv r. (Inr [of_nat pub, of_nat priv], r)),
     publicKey = id, pemEncode = (\<lambda>ty b. b), marshalPKCS1 = (\<lambda>k. [of_nat k])\<rparr>"

theorem certificates_belong_together_witness:
  "\<exists>server. DNSNames server = [''h''] \<and> fst (createCertificate demo_crypto server server 1 0 2) = Inr [1, 0]"
proof -
  have "GenerateCertificates demo_crypto [''h''] 0 = (Inr ([0, 0], [1, 0], [1]), 2)"
    by (simp add: GenerateCertificates_def demo_crypto_def Let_def)
  from certificates_belong_together [OF this] show ?thesis
    by (auto simp: demo_crypto_def)
qed

end
