(* ===== verification/SidecarMain.thy ===== *)
theory SidecarMain
  imports WatchLoop CertGen
begin

text \<open>
  \<open>main\<close> of \<open>cmd/sidecar/main.go\<close> up to the start of the watch: the log file, the certificate mode
  (\<open>runCertGenMode\<close>), the Kubernetes configuration, the first synchronisation and the ready marker. What
  follows, the watch and the shutdown, is in the theory WatchLoop. The constructors of the Kubernetes clients
  are parameters.
\<close>

section \<open>Kubernetes clients\<close>

record 'k certclient =
  ccSecrets :: "(Secret, 'k) store"
  ccWebhooks :: "(WebhookConfiguration, 'k) store"

record ('cfg, 'raw, 'k) kubelib =
  InClusterConfig :: "goerror + 'cfg"
  BuildConfigFromFlags :: "string \<Rightarrow> string \<Rightarrow> goerror + 'cfg"
  dynamic_NewForConfig :: "'cfg \<Rightarrow> goerror + 'raw dynclient"
  kubernetes_NewForConfig :: "'cfg \<Rightarrow> goerror + 'k certclient"

definition kube_config :: "('cfg, 'raw, 'k) kubelib \<Rightarrow> env \<Rightarrow> goerror + 'cfg" where
  "kube_config lib e =
     (case InClusterConfig lib of
        Inr cf \<Rightarrow> Inr cf
      | Inl err \<Rightarrow>
          (let kubeconfig0 = os_Getenv e ''KUBECONFIG'';
               kubeconfig = (if kubeconfig0 = [] then go_Join [os_Getenv e ''HOME'', ''.kube'', ''config''] else kubeconfig0)
           in case BuildConfigFromFlags lib [] kubeconfig of
                Inl err \<Rightarrow> Inl (''failed to create Kubernetes config: '' @ err)
              | Inr cf \<Rightarrow> Inr cf))"

definition createDynamicClient :: "('cfg, 'raw, 'k) kubelib \<Rightarrow> env \<Rightarrow> goerror + 'raw dynclient" where
  "createDynamicClient lib e =
     (case kube_config lib e of Inl err \<Rightarrow> Inl err | Inr cf \<Rightarrow> dynamic_NewForConfig lib cf)"

section \<open>The certificate mode\<close>

definition cert_hosts :: "string \<Rightarrow> string \<Rightarrow> string list" where
  "cert_hosts serviceName ns =
     [serviceName, serviceName @ ''.'' @ ns, serviceName @ ''.'' @ ns @ ''.svc'',
      serviceName @ ''.'' @ ns @ ''.svc.cluster.local'']"

definition runCertGenMode ::
    "('cfg, 'raw, 'k) kubelib \<Rightarrow> (date, 'priv, 'pub, 'r) crypto \<Rightarrow> env \<Rightarrow> 'k \<times> 'r \<Rightarrow>
     goerror option outcome \<times> 'k \<times> 'r" where
  "runCertGenMode lib cr e s =
     (let ns = getEnv e ''NAMESPACE'' ''default'';
          secretName = getEnv e ''SECRET_NAME'' ''dynastub-webhook-tls'';
          webhookName = getEnv e ''WEBHOOK_NAME'' ''dynastub-k8s-http-fake-operator-webhook'';
          serviceName = getEnv e ''SERVICE_NAME'' ''k8s-http-fake-operator-webhook''
      in case kube_config lib e of
           Inl err \<Rightarrow> (Returned (Some err), s)
         | Inr cf \<Rightarrow>
      case kubernetes_NewForConfig lib cf of
           Inl err \<Rightarrow> (Returned (Some (''failed to create Kubernetes client: '' @ err)), s)
         | Inr client \<Rightarrow>
      case GenerateCertificates cr (cert_hosts serviceName ns) (snd s) of
           (Inl err, r1) \<Rightarrow> (Returned (Some (''failed to generate certificates: '' @ err)), (fst s, r1))
         | (Inr (caCert, serverCert, serverKey), r1) \<Rightarrow>
      case CreateOrUpdateSecret ns secretName caCert serverCert serverKey (ccSecrets client) (fst s) of
           (Panic m, k1) \<Rightarrow> (Panic m, (k1, r1))
         | (Fatal m, k1) \<Rightarrow> (Fatal m, (k1, r1))
         | (Returned (Some err), k1) \<Rightarrow>
             (Returned (Some (''failed to create/update secret: '' @ kerror_string err)), (k1, r1))
         | (Returned None, k1) \<Rightarrow>
      case CreateOrUpdateWebhookConfiguration webhookName ns serviceName caCert (ccWebhooks client) k1 of
           (Some err, k2) \<Rightarrow>
             (Returned (Some (''failed to create/update webhook configuration: '' @ kerror_string err)), (k2, r1))
         | (None, k2) \<Rightarrow> (Returned None, (k2, r1)))"

section \<open>The log file\<close>

text \<open>\<open>os.OpenFile\<close> with \<open>O_APPEND|O_CREATE|O_WRONLY\<close>: creates a missing file, keeps an existing one.\<close>

definition osOpenAppend :: "string \<Rightarrow> nat \<Rightarrow> unit sys" where
  "osOpenAppend p md = with_fault (\<lambda>e n. fails ''open'' p e)
     (\<lambda>w. case fget w p of
        Some Dir \<Rightarrow> fails ''open'' p EISDIR w
      | Some (File c m t) \<Rightarrow> (Inr (), w)
      | None \<Rightarrow>
          (case fget w (go_Dir p) of
             Some Dir \<Rightarrow> (Inr (), fput p (File [] md (clock w)) w)
           | _ \<Rightarrow> fails ''open'' p (missing w p) w))"

definition setup_log :: "env \<Rightarrow> world \<Rightarrow> world" where
  "setup_log e w =
     (let logFile = getEnv e ''LOG_FILE'' ''/var/log/certgen/certgen.log'' in
      if logFile \<noteq> []
      then (case osMkdirAll (go_Dir logFile) w of
              (Inl err, w1) \<Rightarrow> w1
            | (Inr _, w1) \<Rightarrow> snd (osOpenAppend logFile 420 w1))
      else w)"

section \<open>The start of the sidecar\<close>

definition markReady :: "world \<Rightarrow> (oserr + unit) \<times> world" where
  "markReady = osWriteFile readyMarkerFile ''ready'' 420"

datatype 'm exit = Exit nat | Crash string | Started 'm

definition sidecar_main ::
    "('cfg, 'raw, 'k) kubelib \<Rightarrow> (date, 'priv, 'pub, 'r) crypto \<Rightarrow> env \<Rightarrow> world \<Rightarrow> 'k \<times> 'r \<Rightarrow>
     SidecarManager exit \<times> world \<times> 'k \<times> 'r" where
  "sidecar_main lib cr e w0 s =
     (let w1 = setup_log e w0 in
      if getEnv e ''CERTGEN_MODE'' ''false'' = ''true''
      then (case runCertGenMode lib cr e s of
              (Returned (Some err), s1) \<Rightarrow> (Exit 1, w1, s1)
            | (Returned None, s1) \<Rightarrow> (Exit 0, w1, s1)
            | (Fatal m, s1) \<Rightarrow> (Exit 1, w1, s1)
            | (Panic m, s1) \<Rightarrow> (Crash m, w1, s1))
      else
        (let cf = loadConfig e;
             w2 = snd (osStat (ScriptMountPath cf) w1)
         in case createDynamicClient lib e of
              Inl err \<Rightarrow> (Exit 1, w2, s)
            | Inr dc \<Rightarrow>
                (case SyncAllScripts dc (NewSidecarManager cf) w2 of
                   (Some err, m, w3) \<Rightarrow> (Exit 1, w3, s)
                 | (None, m, w3) \<Rightarrow>
                     (case markReady w3 of
                        (Inl err, w4) \<Rightarrow> (Exit 1, w4, s)
                      | (Inr _, w4) \<Rightarrow> (Started m, w4, s)))))"

section \<open>Properties\<close>


text \<open>A store whose operations leave another view alone.\<close>

definition keeps_view :: "('o, 'k) store \<Rightarrow> ('k \<Rightarrow> 'v) \<Rightarrow> bool" where
  "keeps_view st view \<longleftrightarrow>
     (\<forall>key k. view (snd (stGet st key k)) = view k) \<and>
     (\<forall>key obj k. view (snd (stCreate st key obj k)) = view k) \<and>
     (\<forall>key obj k. view (snd (stUpdate st key obj k)) = view k)"

lemma keeps_viewD:
  "keeps_view st view \<Longrightarrow> stGet st key k = (r, k') \<Longrightarrow> view k' = view k"
  "keeps_view st view \<Longrightarrow> stCreate st key obj k = (r', k') \<Longrightarrow> view k' = view k"
  "keeps_view st view \<Longrightarrow> stUpdate st key obj k = (r'', k') \<Longrightarrow> view k' = view k"
  by (metis keeps_view_def snd_conv)+

lemma webhook_call_keeps:
  "keeps_view st view \<Longrightarrow> CreateOrUpdateWebhookConfiguration n ns svc ca st k = (r, k') \<Longrightarrow> view k' = view k"
  by (auto simp: CreateOrUpdateWebhookConfiguration_def split: prod.splits sum.splits if_splits)
    (metis keeps_viewD)+

lemma secret_call_keeps:
  "keeps_view st view \<Longrightarrow> CreateOrUpdateSecret ns n ca crt key st k = (r, k') \<Longrightarrow> view k' = view k"
  by (auto simp: CreateOrUpdateSecret_def split: prod.splits sum.splits option.splits if_splits)
    (metis keeps_viewD)+

text \<open>What a successful run has asked for, and what it has stored.\<close>

abbreviation cert_namespace :: "env \<Rightarrow> string" where
  "cert_namespace e \<equiv> getEnv e ''NAMESPACE'' ''default''"

abbreviation cert_secret :: "env \<Rightarrow> string" where
  "cert_secret e \<equiv> getEnv e ''SECRET_NAME'' ''dynastub-webhook-tls''"

abbreviation cert_webhook :: "env \<Rightarrow> string" where
  "cert_webhook e \<equiv> getEnv e ''WEBHOOK_NAME'' ''dynastub-k8s-http-fake-operator-webhook''"

abbreviation cert_service :: "env \<Rightarrow> string" where
  "cert_service e \<equiv> getEnv e ''SERVICE_NAME'' ''k8s-http-fake-operator-webhook''"

lemma certgen_run:
  assumes "\<forall>cf client. kubernetes_NewForConfig lib cf = Inr client \<longrightarrow>
      lawful (ccSecrets client) secrets \<and> lawful (ccWebhooks client) webhooks \<and> keeps_view (ccWebhooks client) secrets"
    and "runCertGenMode lib cr e (k, r) = (Returned None, (k', r'))"
  obtains cf client ca crt key k1 s wc where "kubernetes_NewForConfig lib cf = Inr client"
    and "GenerateCertificates cr (cert_hosts (cert_service e) (cert_namespace e)) r = (Inr (ca, crt, key), r')"
    and "want_secret (cert_secret e) ca crt key (secrets k (cert_namespace e, cert_secret e)) = Some s"
    and "secrets k' (cert_namespace e, cert_secret e) = Some s"
    and "want_webhook (cert_webhook e) (cert_namespace e) (cert_service e) ca (webhooks k1 ([], cert_webhook e)) = Some wc"
    and "webhooks k' ([], cert_webhook e) = Some wc"
    and "keeps_view (ccSecrets client) webhooks \<longrightarrow> webhooks k1 = webhooks k"
proof -
  let ?ns = "cert_namespace e" and ?sn = "cert_secret e" and ?wn = "cert_webhook e" and ?svc = "cert_service e"
  obtain cf client ca crt key k1 where
    new: "kubernetes_NewForConfig lib cf = Inr client"
    and gen: "GenerateCertificates cr (cert_hosts ?svc ?ns) r = (Inr (ca, crt, key), r')"
    and sec: "CreateOrUpdateSecret ?ns ?sn ca crt key (ccSecrets client) k = (Returned None, k1)"
    and wh: "CreateOrUpdateWebhookConfiguration ?wn ?ns ?svc ca (ccWebhooks client) k1 = (None, k')"
    using assms(2) by (auto simp: runCertGenMode_def Let_def split: sum.splits prod.splits outcome.splits option.splits)
  have law: "lawful (ccSecrets client) secrets" "lawful (ccWebhooks client) webhooks" "keeps_view (ccWebhooks client) secrets"
    using assms(1) new by blast+
  from sec.ensure_ok [OF law(1) sec] obtain s where
    s: "want_secret ?sn ca crt key (secrets k (?ns, ?sn)) = Some s" "secrets k1 (?ns, ?sn) = Some s" by auto
  have "secrets k' = secrets k1" using law(3) wh by (rule webhook_call_keeps)
  with s(2) have s': "secrets k' (?ns, ?sn) = Some s" by simp
  have "map_prod Returned id (CreateOrUpdateWebhookConfiguration ?wn ?ns ?svc ca (ccWebhooks client) k1) = (Returned None, k')"
    using wh by simp
  from whc.ensure_ok [OF law(2) this] obtain wc where
    wc: "want_webhook ?wn ?ns ?svc ca (webhooks k1 ([], ?wn)) = Some wc" "webhooks k' ([], ?wn) = Some wc" by auto
  have "keeps_view (ccSecrets client) webhooks \<longrightarrow> webhooks k1 = webhooks k"
    by (intro impI secret_call_keeps [OF _ sec])
  with new gen s(1) s' wc show thesis by (rule that)
qed

text \<open>
  The two writes of the certificate mode, one after the other, as the two stores show them.
\<close>

definition certs_stored ::
    "env \<Rightarrow> bytes \<times> bytes \<times> bytes \<Rightarrow> (object_key \<Rightarrow> Secret option) \<Rightarrow> (object_key \<Rightarrow> Secret option) \<Rightarrow> bool" where
  "certs_stored e certs v v' \<longleftrightarrow> (case certs of (ca, crt, key) \<Rightarrow>
     \<exists>s. v' = v((cert_namespace e, cert_secret e) \<mapsto> s) \<and>
       data_get (sData s) ''ca.crt'' = Some ca \<and> data_get (sData s) ''tls.crt'' = Some crt \<and>
       data_get (sData s) ''tls.key'' = Some key)"

definition ca_registered ::
    "env \<Rightarrow> bytes \<Rightarrow> (object_key \<Rightarrow> WebhookConfiguration option) \<Rightarrow> (object_key \<Rightarrow> WebhookConfiguration option) \<Rightarrow> bool" where
  "ca_registered e ca v v' \<longleftrightarrow>
     (\<exists>wc. v' = v(([], cert_webhook e) \<mapsto> wc) \<and> (\<forall>h \<in> set (wcWebhooks wc). ccCABundle (whClientConfig h) = ca))"

lemma secret_call:
  assumes "lawful st secrets" and "CreateOrUpdateSecret (cert_namespace e) (cert_secret e) ca crt key st k = (r, k')"
  shows "if r = Returned None then certs_stored e (ca, crt, key) (secrets k) (secrets k') else secrets k' = secrets k"
    and "r \<noteq> Fatal m"
    and "r = Panic m \<Longrightarrow> \<exists>s. secrets k (cert_namespace e, cert_secret e) = Some s \<and> sData s = None"
proof -
  show "if r = Returned None then certs_stored e (ca, crt, key) (secrets k) (secrets k') else secrets k' = secrets k"
  proof (cases "r = Returned None")
    case True
    from sec.ensure_ok [OF assms(1) assms(2) [unfolded True]] obtain s where
      s: "want_secret (cert_secret e) ca crt key (secrets k (cert_namespace e, cert_secret e)) = Some s"
        "secrets k' = (secrets k)((cert_namespace e, cert_secret e) \<mapsto> s)" by auto
    from want_secret_data(1-3) [OF s(1)] s(2) have "certs_stored e (ca, crt, key) (secrets k) (secrets k')"
      unfolding certs_stored_def prod.case tlsCertFile_def tlsKeyFile_def caCertFile_def by blast
    with True show ?thesis by simp
  next
    case False
    with sec.ensure_not_ok [OF assms] show ?thesis by simp
  qed
  show "r \<noteq> Fatal m"
    using assms(2) by (auto simp: CreateOrUpdateSecret_def split: prod.splits sum.splits option.splits if_splits)
  assume "r = Panic m"
  from sec.ensure_panic [OF assms(1) assms(2) [unfolded this]] show
    "\<exists>s. secrets k (cert_namespace e, cert_secret e) = Some s \<and> sData s = None"
    by (auto simp: want_secret_def put_certs_def Let_def split: option.splits)
qed

lemma webhook_call:
  assumes "lawful st webhooks"
    and "CreateOrUpdateWebhookConfiguration (cert_webhook e) (cert_namespace e) (cert_service e) ca st k = (r, k')"
  shows "if r = None then ca_registered e ca (webhooks k) (webhooks k') else webhooks k' = webhooks k"
proof (cases "r = None")
  case True
  have "map_prod Returned id (CreateOrUpdateWebhookConfiguration (cert_webhook e) (cert_namespace e) (cert_service e) ca st k)
      = (Returned None, k')" using assms(2) True by simp
  from whc.ensure_ok [OF assms(1) this] obtain wc where
    wc: "want_webhook (cert_webhook e) (cert_namespace e) (cert_service e) ca (webhooks k ([], cert_webhook e)) = Some wc"
      "webhooks k' = (webhooks k)(([], cert_webhook e) \<mapsto> wc)" by auto
  have "\<forall>h \<in> set (wcWebhooks wc). ccCABundle (whClientConfig h) = ca"
    using wc(1) by (auto simp: want_webhook_def new_webhook_def put_ca_def split: option.splits)
  with wc(2) True show ?thesis by (auto simp: ca_registered_def)
next
  case False
  have "map_prod Returned id (CreateOrUpdateWebhookConfiguration (cert_webhook e) (cert_namespace e) (cert_service e) ca st k)
      = (Returned r, k')" using assms(2) by simp
  from whc.ensure_not_ok [OF assms(1) this] False have "webhooks k' = webhooks k" by simp
  then show ?thesis unfolding if_not_P [OF False] .
qed

text \<open>Every branch of the certificate mode.\<close>

lemma certgen_cases:
  assumes laws: "\<forall>cf client. kubernetes_NewForConfig lib cf = Inr client \<longrightarrow>
      lawful (ccSecrets client) secrets \<and> lawful (ccWebhooks client) webhooks \<and>
      keeps_view (ccWebhooks client) secrets \<and> keeps_view (ccSecrets client) webhooks"
    and run: "runCertGenMode lib cr e (k, r) = (x, (k', r'))"
  obtains (failed) err where "x = Returned (Some err)" "secrets k' = secrets k" "webhooks k' = webhooks k"
  | (crashed) m s where "x = Panic m" "secrets k' = secrets k" "webhooks k' = webhooks k"
      "secrets k (cert_namespace e, cert_secret e) = Some s" "sData s = None"
  | (half) err ca crt key where "x = Returned (Some err)"
      "GenerateCertificates cr (cert_hosts (cert_service e) (cert_namespace e)) r = (Inr (ca, crt, key), r')"
      "certs_stored e (ca, crt, key) (secrets k) (secrets k')" "webhooks k' = webhooks k"
  | (ok) ca crt key where "x = Returned None"
      "GenerateCertificates cr (cert_hosts (cert_service e) (cert_namespace e)) r = (Inr (ca, crt, key), r')"
      "certs_stored e (ca, crt, key) (secrets k) (secrets k')" "ca_registered e ca (webhooks k) (webhooks k')"
proof -
  let ?gen = "GenerateCertificates cr (cert_hosts (cert_service e) (cert_namespace e)) r"
  consider "\<exists>err. x = Returned (Some err)" "k' = k"
    | cf client ca crt key r1 where "kubernetes_NewForConfig lib cf = Inr client" "?gen = (Inr (ca, crt, key), r1)"
      "runCertGenMode lib cr e (k, r) =
        (case CreateOrUpdateSecret (cert_namespace e) (cert_secret e) ca crt key (ccSecrets client) k of
           (Panic m, k1) \<Rightarrow> (Panic m, (k1, r1))
         | (Fatal m, k1) \<Rightarrow> (Fatal m, (k1, r1))
         | (Returned (Some err), k1) \<Rightarrow>
             (Returned (Some (''failed to create/update secret: '' @ kerror_string err)), (k1, r1))
         | (Returned None, k1) \<Rightarrow>
        case CreateOrUpdateWebhookConfiguration (cert_webhook e) (cert_namespace e) (cert_service e) ca (ccWebhooks client) k1 of
           (Some err, k2) \<Rightarrow>
             (Returned (Some (''failed to create/update webhook configuration: '' @ kerror_string err)), (k2, r1))
         | (None, k2) \<Rightarrow> (Returned None, (k2, r1)))"
    using run by (auto simp: runCertGenMode_def Let_def split: sum.splits prod.splits)
  then show thesis
  proof cases
    case 1
    then show thesis using failed by blast
  next
    case (2 cf client ca crt key r1)
    have L: "lawful (ccSecrets client) secrets" "lawful (ccWebhooks client) webhooks"
      "keeps_view (ccWebhooks client) secrets" "keeps_view (ccSecrets client) webhooks"
      using laws 2(1) by blast+
    obtain y k1 where sec: "CreateOrUpdateSecret (cert_namespace e) (cert_secret e) ca crt key (ccSecrets client) k = (y, k1)"
      by (rule prod.exhaust)
    note s = secret_call [OF L(1) sec] and w1 = secret_call_keeps [OF L(4) sec]
    note run' = run [unfolded 2(3) sec prod.case]
    show thesis
    proof (cases y)
      case (Panic m)
      with run' have "x = Panic m" "k' = k1" by simp_all
      with s(1,3) w1 Panic show thesis using crashed by auto
    next
      case (Fatal m)
      with s(2) show thesis by blast
    next
      case (Returned z)
      show thesis
      proof (cases z)
        case (Some err)
        with run' Returned have "\<exists>err. x = Returned (Some err)" "k' = k1" by auto
        with s(1) w1 Returned Some show thesis using failed by auto
      next
        case None
        obtain v k2 where wh: "CreateOrUpdateWebhookConfiguration (cert_webhook e) (cert_namespace e) (cert_service e) ca
            (ccWebhooks client) k1 = (v, k2)" by (rule prod.exhaust)
        note run2 = run' [unfolded Returned None outcome.case option.case wh prod.case]
        have "r' = r1" "k' = k2" "x = Returned (map_option (\<lambda>err. ''failed to create/update webhook configuration: '' @
            kerror_string err) v)" using run2 by (cases v; simp)+
        with s(1) w1 webhook_call [OF L(2) wh] webhook_call_keeps [OF L(3) wh] Returned None 2(2)
        show thesis using half [of _ ca crt key] ok [of ca crt key] by (cases v) auto
      qed
    qed
  qed
qed

text \<open>
  The certificate mode keeps the secret and the webhook consistent. When it reports no error, the secret
  holds fresh certificates for the four names of the service, and every webhook of the configuration trusts
  the CA certificate of that secret.
\<close>

theorem certgen_consistent:
  assumes "\<forall>cf client. kubernetes_NewForConfig lib cf = Inr client \<longrightarrow>
      lawful (ccSecrets client) secrets \<and> lawful (ccWebhooks client) webhooks \<and> keeps_view (ccWebhooks client) secrets"
    and "runCertGenMode lib cr e (k, r) = (Returned None, (k', r'))"
  shows "\<exists>ca crt key s wc.
    GenerateCertificates cr
      (let svc = getEnv e ''SERVICE_NAME'' ''k8s-http-fake-operator-webhook''; ns = getEnv e ''NAMESPACE'' ''default''
       in [svc, svc @ ''.'' @ ns, svc @ ''.'' @ ns @ ''.svc'', svc @ ''.'' @ ns @ ''.svc.cluster.local'']) r
      = (Inr (ca, crt, key), r') \<and>
    secrets k' (getEnv e ''NAMESPACE'' ''default'', getEnv e ''SECRET_NAME'' ''dynastub-webhook-tls'') = Some s \<and>
    data_get (sData s) ''ca.crt'' = Some ca \<and> data_get (sData s) ''tls.crt'' = Some crt \<and>
    data_get (sData s) ''tls.key'' = Some key \<and>
    webhooks k' ([], getEnv e ''WEBHOOK_NAME'' ''dynastub-k8s-http-fake-operator-webhook'') = Some wc \<and>
    (\<forall>h \<in> set (wcWebhooks wc). ccCABundle (whClientConfig h) = ca)"
proof -
  obtain cf client ca crt key k1 s wc where c:
    "GenerateCertificates cr (cert_hosts (cert_service e) (cert_namespace e)) r = (Inr (ca, crt, key), r')"
    "want_secret (cert_secret e) ca crt key (secrets k (cert_namespace e, cert_secret e)) = Some s"
    "secrets k' (cert_namespace e, cert_secret e) = Some s"
    "want_webhook (cert_webhook e) (cert_namespace e) (cert_service e) ca (webhooks k1 ([], cert_webhook e)) = Some wc"
    "webhooks k' ([], cert_webhook e) = Some wc"
    by (rule certgen_run [OF assms])
  have "\<forall>h \<in> set (wcWebhooks wc). ccCABundle (whClientConfig h) = ca"
    using c(4) by (auto simp: want_webhook_def new_webhook_def put_ca_def split: option.splits)
  then show ?thesis
    using c(1,3,5) want_secret_data(1-3) [OF c(2)]
    by (simp add: Let_def cert_hosts_def tlsCertFile_def tlsKeyFile_def caCertFile_def)
qed


section \<open>Witnesses\<close>

definition demo_lib :: "(unit, json, (object_key \<Rightarrow> Secret option) \<times> (object_key \<Rightarrow> WebhookConfiguration option)) kubelib" where
  "demo_lib = \<lparr>InClusterConfig = Inr (), BuildConfigFromFlags = (\<lambda>a b. Inl ''no file''),
     dynamic_NewForConfig = (\<lambda>cf. Inr demo_client),
     kubernetes_NewForConfig = (\<lambda>cf. Inr \<lparr>ccSecrets = fst_store map_store, ccWebhooks = snd_store map_store\<rparr>)\<rparr>"

definition demo_root :: "(errno \<times> nat) option list \<Rightarrow> world" where
  "demo_root fs = \<lparr>files = [(''/'', Dir), (''/tmp'', Dir), (''/src'', Dir), (''/src/scripts'', Dir),
     (''/src/scripts/ls.sh'', File ''one'' 420 1)], sched = fs, clock = 1\<rparr>"

definition demo_boot :: "SidecarManager exit \<times> world" where
  "demo_boot = (case sidecar_main demo_lib demo_crypto Map.empty (demo_root []) ((Map.empty, Map.empty), 0) of
     (x, w, s) \<Rightarrow> (x, w))"

definition demo_started :: SidecarManager where
  "demo_started = (case fst demo_boot of Started m \<Rightarrow> m | _ \<Rightarrow> demo_manager)"


theorem certgen_consistent_witness:
  "\<exists>s wc. data_get (sData s) ''ca.crt'' = Some [0, 0] \<and>
     (\<forall>h \<in> set (wcWebhooks wc). ccCABundle (whClientConfig h) = [0, 0]) \<and>
     (let k' = fst (snd (runCertGenMode demo_lib demo_crypto Map.empty ((Map.empty, Map.empty), 0)))
      in fst k' (''default'', ''dynastub-webhook-tls'') = Some s \<and>
         snd k' ([], ''dynastub-k8s-http-fake-operator-webhook'') = Some wc)"
proof -
  define out where "out = runCertGenMode demo_lib demo_crypto Map.empty ((Map.empty, Map.empty), 0)"
  have env: "getEnv Map.empty n d = d" for n d by (simp add: getEnv_def os_Getenv_def)
  have gen: "GenerateCertificates demo_crypto hosts 0 = (Inr ([0, 0], [1, 0], [1]), 2)" for hosts
    by (simp add: GenerateCertificates_def demo_crypto_def Let_def)
  have "fst out = Returned None"
    by (simp add: out_def runCertGenMode_def env gen kube_config_def demo_lib_def CreateOrUpdateSecret_def
        CreateOrUpdateWebhookConfiguration_def fst_store_def snd_store_def map_store_def Let_def)
  then have run: "runCertGenMode demo_lib demo_crypto Map.empty ((Map.empty, Map.empty), 0) =
      (Returned None, (fst (snd out), snd (snd out)))"
    by (metis out_def prod.collapse)
  have keeps: "keeps_view (snd_store map_store) fst"
    by (simp add: keeps_view_def snd_store_def)
  have "\<forall>cf client. kubernetes_NewForConfig demo_lib cf = Inr client \<longrightarrow>
      lawful (ccSecrets client) fst \<and> lawful (ccWebhooks client) snd \<and> keeps_view (ccWebhooks client) fst"
    by (auto simp: demo_lib_def two_stores_lawful keeps)
  from certgen_consistent [OF this run] show ?thesis
    unfolding env gen out_def [symmetric] Let_def by auto
qed

definition empty_root :: world where
  "empty_root = \<lparr>files = [(''/'', Dir), (''/tmp'', Dir), (''/src'', Dir), (''/src/scripts'', Dir)],
     sched = [], clock = 1\<rparr>"

text \<open>
  Ready says nothing about the scripts. With a script directory that is empty the first synchronisation
  publishes nothing, and the sidecar still starts and writes the ready marker.
\<close>

theorem ready_without_scripts:
  "case sidecar_main demo_lib demo_crypto Map.empty empty_root ((Map.empty, Map.empty), 0) of
     (x, w, s) \<Rightarrow> (case x of Started m \<Rightarrow> length (behaviors m) = 2 | _ \<Rightarrow> False) \<and>
       dir_names w ''/shared'' = [] \<and> is_file (fget w ''/tmp/dynastub-ready'')"
  by code_simp


definition cert_env :: env where
  "cert_env = [''CERTGEN_MODE'' \<mapsto> ''true'']"

definition cert_run :: "SidecarManager exit \<times> world \<times>
    ((object_key \<Rightarrow> Secret option) \<times> (object_key \<Rightarrow> WebhookConfiguration option)) \<times> nat" where
  "cert_run = sidecar_main demo_lib demo_crypto cert_env (demo_root []) ((Map.empty, Map.empty), 0)"


end
