(* ===== verification/WebhookCertgen.thy ===== *)
theory WebhookCertgen
  imports CertGen GoPath
begin

text \<open>
  \<open>build/kube-webhook-certgen\<close>: the command line tool that creates a secret with certificates
  (\<open>create\<close>) and writes the CA certificate into webhook configurations (\<open>patch\<close>). \<open>log.Fatal\<close> ends the
  process: the result \<open>Fatal\<close>. The state is the cluster and the random source with the clock.
\<close>

section \<open>Sequencing\<close>

definition obind :: "'a outcome \<times> 's \<Rightarrow> ('a \<Rightarrow> 's \<Rightarrow> 'b outcome \<times> 's) \<Rightarrow> 'b outcome \<times> 's" where
  "obind m f = (case m of (Returned x, s) \<Rightarrow> f x s | (Fatal e, s) \<Rightarrow> (Fatal e, s) | (Panic e, s) \<Rightarrow> (Panic e, s))"

lemma obind_simps [simp]:
  "obind (Returned x, s) f = f x s" "obind (Fatal e, s) f = (Fatal e, s)" "obind (Panic e, s) f = (Panic e, s)"
  by (simp_all add: obind_def)

lemma obind_Returned:
  "obind m f = (Returned y, s') \<longleftrightarrow> (\<exists>x s. m = (Returned x, s) \<and> f x s = (Returned y, s'))"
  by (cases m; cases "fst m") (auto simp: obind_def split: outcome.splits)

section \<open>The configuration of the command line\<close>

record CliConfig =
  logLevel :: string
  logfmt :: string
  secretName :: string
  namespace :: string
  certName :: string
  keyName :: string
  host :: string
  webhookName :: string
  patchValidating :: bool
  patchMutating :: bool
  patchFailurePolicy :: string
  kubeconfig :: string

definition quoted :: "string \<Rightarrow> string" where
  "quoted s = CHR 0x27 # s @ [CHR 0x27]"

datatype formatter = JSONFormatter | TextFormatter

definition getFormatter :: "string \<Rightarrow> formatter outcome" where
  "getFormatter fmt =
     (if fmt = ''json'' then Returned JSONFormatter
      else if fmt = ''text'' then Returned TextFormatter
      else Fatal (''invalid log format '' @ quoted fmt))"

text \<open>\<open>parseLevel\<close> is logrus' \<open>ParseLevel\<close>; the result is the new level and formatter.\<close>

definition configureLogging ::
    "(string \<Rightarrow> goerror + 'level) \<Rightarrow> CliConfig \<Rightarrow> ('level \<times> formatter) outcome" where
  "configureLogging parseLevel cfg =
     (case parseLevel (logLevel cfg) of
        Inl err \<Rightarrow> Fatal ''Invalid error level''
      | Inr l \<Rightarrow>
          (case getFormatter (logfmt cfg) of
             Returned f \<Rightarrow> Returned (l, f) | Fatal e \<Rightarrow> Fatal e | Panic e \<Rightarrow> Panic e))"

text \<open>The global variable \<open>failurePolicy\<close> starts as the empty string.\<close>

definition prePatchCommand ::
    "(string \<Rightarrow> goerror + 'level) \<Rightarrow> CliConfig \<Rightarrow> string \<Rightarrow> string outcome" where
  "prePatchCommand parseLevel cfg failurePolicy =
     (case configureLogging parseLevel cfg of
        Fatal e \<Rightarrow> Fatal e
      | Panic e \<Rightarrow> Panic e
      | Returned _ \<Rightarrow>
          (if patchMutating cfg = False \<and> patchValidating cfg = False
           then Fatal ''patch-validating=false, patch-mutating=false. You must patch at least one kind of webhook, otherwise this command is a no-op''
           else if patchFailurePolicy cfg = '''' then Returned failurePolicy
           else if patchFailurePolicy cfg = ''Ignore'' then Returned failurePolicy
           else if patchFailurePolicy cfg = ''Fail'' then Returned (patchFailurePolicy cfg)
           else Fatal (''patch-failure-policy '' @ patchFailurePolicy cfg @ '' is not valid'')))"

section \<open>Certificates\<close>

record ('priv, 'pub, 'r) ec_crypto =
  ecNow :: "'r \<Rightarrow> int \<times> 'r"
  ecSerial :: "int \<Rightarrow> 'r \<Rightarrow> (goerror + int) \<times> 'r"
  ecGenerateKey :: "'r \<Rightarrow> (goerror + 'priv) \<times> 'r"
  ecCreate :: "int certificate \<Rightarrow> int certificate \<Rightarrow> 'pub \<Rightarrow> 'priv \<Rightarrow> 'r \<Rightarrow> (goerror + bytes) \<times> 'r"
  ecPublic :: "'priv \<Rightarrow> 'pub"
  ecMarshal :: "'priv \<Rightarrow> goerror + bytes"
  ecPem :: "string \<Rightarrow> bytes \<Rightarrow> bytes"
  parseIP :: "string \<Rightarrow> string option"

definition encodeCert :: "('priv, 'pub, 'r) ec_crypto \<Rightarrow> bytes \<Rightarrow> bytes" where
  "encodeCert cr derBytes = ecPem cr ''CERTIFICATE'' derBytes"

definition encodeKey :: "('priv, 'pub, 'r) ec_crypto \<Rightarrow> 'priv \<Rightarrow> bytes outcome" where
  "encodeKey cr key =
     (case ecMarshal cr key of
        Inl err \<Rightarrow> Fatal ''unable to marshal ECDSA private key''
      | Inr b \<Rightarrow> Returned (ecPem cr ''EC PRIVATE KEY'' b))"

definition root_template :: "int \<Rightarrow> int \<Rightarrow> int \<Rightarrow> int certificate" where
  "root_template serial nb na =
     \<lparr>SerialNumber = serial, Organization = [''nil1''], NotBefore = nb, NotAfter = na, IsCA = True,
      ExtKeyUsage = [ExtKeyUsageServerAuth], KeyUsage = KeyUsageCertSign, BasicConstraintsValid = True,
      DNSNames = [], IPAddresses = []\<rparr>"

definition leaf_base :: "int \<Rightarrow> int \<Rightarrow> int \<Rightarrow> int certificate" where
  "leaf_base serial nb na =
     \<lparr>SerialNumber = serial, Organization = [''nil2''], NotBefore = nb, NotAfter = na, IsCA = False,
      ExtKeyUsage = [ExtKeyUsageServerAuth], KeyUsage = KeyUsageDigitalSignature OR KeyUsageKeyEncipherment,
      BasicConstraintsValid = True, DNSNames = [], IPAddresses = []\<rparr>"

fun add_hosts :: "(string \<Rightarrow> string option) \<Rightarrow> string list \<Rightarrow> 'time certificate \<Rightarrow> 'time certificate" where
  "add_hosts parse [] t = t"
| "add_hosts parse (h # hs) t =
     (case parse h of
        Some ip \<Rightarrow> add_hosts parse hs (t\<lparr>IPAddresses := IPAddresses t @ [ip]\<rparr>)
      | None \<Rightarrow> add_hosts parse hs (t\<lparr>DNSNames := DNSNames t @ [h]\<rparr>))"

text \<open>A failing call ends the process with the given message.\<close>

definition or_fatal :: "string \<Rightarrow> (goerror + 'a) \<times> 's \<Rightarrow> 'a outcome \<times> 's" where
  "or_fatal msg m = (case m of (Inl err, s) \<Rightarrow> (Fatal msg, s) | (Inr x, s) \<Rightarrow> (Returned x, s))"

text \<open>Times are in nanoseconds: five minutes back, a hundred times 365 days on.\<close>

definition not_before :: "int \<Rightarrow> int" where
  "not_before t = t - 5 * 60 * 1000000000"

definition not_after :: "int \<Rightarrow> int" where
  "not_after nb = nb + 100 * 365 * 24 * 3600 * 1000000000"

definition GenerateCerts ::
    "('priv, 'pub, 'r) ec_crypto \<Rightarrow> string \<Rightarrow> 'r \<Rightarrow> (bytes \<times> bytes \<times> bytes) outcome \<times> 'r" where
  "GenerateCerts cr hst r0 =
     (case ecNow cr r0 of (t, r1) \<Rightarrow>
      let notBefore = not_before t;
          notAfter = not_after notBefore
      in obind (or_fatal ''failed to generate serial number'' (ecSerial cr (2 ^ 128) r1)) (\<lambda>serial r2.
         obind (or_fatal ''failed scdsa.GenerateKey'' (ecGenerateKey cr r2)) (\<lambda>rootKey r3.
         let root = root_template serial notBefore notAfter in
         obind (or_fatal ''failed createCertificate for Ca''
                  (ecCreate cr root root (ecPublic cr rootKey) rootKey r3)) (\<lambda>derBytes r4.
         let ca = encodeCert cr derBytes in
         obind (or_fatal ''failed createLeafKey for certificate'' (ecGenerateKey cr r4)) (\<lambda>leafKey r5.
         obind (encodeKey cr leafKey, r5) (\<lambda>key r5.
         obind (or_fatal ''failed to generate serial number'' (ecSerial cr (2 ^ 128) r5)) (\<lambda>serial2 r6.
         let leaf = add_hosts (parseIP cr) (split_char CHR '','' hst) (leaf_base serial2 notBefore notAfter) in
         obind (or_fatal ''failed createLeaf certificate''
                  (ecCreate cr leaf root (ecPublic cr leafKey) rootKey r6)) (\<lambda>derBytes2 r7.
         (Returned (ca, encodeCert cr derBytes2, key), r7)))))))))"

section \<open>The cluster\<close>

definition GetCaFromSecret ::
    "(Secret, 'k) store \<Rightarrow> string \<Rightarrow> string \<Rightarrow> 'k \<Rightarrow> bytes option outcome \<times> 'k" where
  "GetCaFromSecret st name ns k =
     (case stGet st (ns, name) k of
        (Inl err, k1) \<Rightarrow>
          (if IsNotFound err then (Returned None, k1) else (Fatal ''error getting secret'', k1))
      | (Inr secret, k1) \<Rightarrow>
          (case data_get (sData secret) ''ca'' of
             None \<Rightarrow> (Fatal (''got secret, but it did not contain a '' @ quoted ''ca'' @ '' key''), k1)
           | Some data \<Rightarrow> (Returned (Some data), k1)))"

text \<open>The map literal of Go: of equal keys, which the flags allow, the last one counts.\<close>

definition SaveCertsToSecret ::
    "(Secret, 'k) store \<Rightarrow> string \<Rightarrow> string \<Rightarrow> string \<Rightarrow> string \<Rightarrow> bytes \<Rightarrow> bytes \<Rightarrow> bytes \<Rightarrow> 'k \<Rightarrow>
     unit outcome \<times> 'k" where
  "SaveCertsToSecret st name ns certN keyN ca cert key k =
     (let secret = \<lparr>sName = name,
            sData = Some (AList.update keyN key (AList.update certN cert [(''ca'', ca)])), sType = ''''\<rparr>
      in case stCreate st (ns, name) secret k of
           (Some err, k1) \<Rightarrow> (Fatal ''failed creating secret'', k1)
         | (None, k1) \<Rightarrow> (Returned (), k1))"

definition patch_hook :: "bytes \<Rightarrow> string \<Rightarrow> Webhook \<Rightarrow> Webhook" where
  "patch_hook ca policy h =
     (let h1 = h\<lparr>whClientConfig := (whClientConfig h)\<lparr>ccCABundle := ca\<rparr>\<rparr>
      in if policy \<noteq> '''' then h1\<lparr>whFailurePolicy := Some policy\<rparr> else h1)"

definition patch_configuration ::
    "(WebhookConfiguration, 'k) store \<Rightarrow> string \<Rightarrow> string \<Rightarrow> string \<Rightarrow> bytes \<Rightarrow> string \<Rightarrow> 'k \<Rightarrow> unit outcome \<times> 'k" where
  "patch_configuration st getMsg updMsg name ca policy k =
     (case stGet st ([], name) k of
        (Inl err, k1) \<Rightarrow> (Fatal getMsg, k1)
      | (Inr wc, k1) \<Rightarrow>
          (case stUpdate st ([], name) (wc\<lparr>wcWebhooks := map (patch_hook ca policy) (wcWebhooks wc)\<rparr>) k1 of
             (Some err, k2) \<Rightarrow> (Fatal updMsg, k2)
           | (None, k2) \<Rightarrow> (Returned (), k2)))"

definition PatchWebhookConfigurations ::
    "(WebhookConfiguration, 'k) store \<Rightarrow> (WebhookConfiguration, 'k) store \<Rightarrow> string \<Rightarrow> bytes \<Rightarrow> string \<Rightarrow>
     bool \<Rightarrow> bool \<Rightarrow> 'k \<Rightarrow> unit outcome \<times> 'k" where
  "PatchWebhookConfigurations validating mutating name ca policy patchMut patchVal k =
     obind (if patchVal
            then patch_configuration validating ''failed getting validating webhook''
                   ''failed patching validating webhook'' name ca policy k
            else (Returned (), k))
       (\<lambda>_ k1. if patchMut
               then patch_configuration mutating ''failed getting validating webhook''
                      ''failed patching validating webhook'' name ca policy k1
               else (Returned (), k1))"

section \<open>The commands\<close>

text \<open>
  \<open>buildConfig\<close> is \<open>clientcmd.BuildConfigFromFlags\<close>, \<open>newForConfig\<close> \<open>kubernetes.NewForConfig\<close>; the
  client gives the stores of the three kinds of objects.
\<close>

record 'k clientset =
  csSecrets :: "(Secret, 'k) store"
  csValidating :: "(WebhookConfiguration, 'k) store"
  csMutating :: "(WebhookConfiguration, 'k) store"

record ('conf, 'k) cluster =
  buildConfig :: "string \<Rightarrow> goerror + 'conf"
  newForConfig :: "'conf \<Rightarrow> goerror + 'k clientset"

definition k8s_New :: "('conf, 'k) cluster \<Rightarrow> string \<Rightarrow> 'k clientset outcome" where
  "k8s_New cl kc =
     (case buildConfig cl kc of
        Inl err \<Rightarrow> Fatal ''error building kubernetes config''
      | Inr c \<Rightarrow>
          (case newForConfig cl c of
             Inl err \<Rightarrow> Fatal ''error creating kubernetes client''
           | Inr cs \<Rightarrow> Returned cs))"

definition createCommand ::
    "('conf, 'k) cluster \<Rightarrow> ('priv, 'pub, 'r) ec_crypto \<Rightarrow> CliConfig \<Rightarrow> 'k \<times> 'r \<Rightarrow> unit outcome \<times> 'k \<times> 'r" where
  "createCommand cl cr cfg s0 =
     obind (k8s_New cl (kubeconfig cfg), s0) (\<lambda>cs (k, r).
     case GetCaFromSecret (csSecrets cs) (secretName cfg) (namespace cfg) k of (got, k1) \<Rightarrow>
     obind (got, (k1, r)) (\<lambda>ca (k1, r).
     case ca of
       Some _ \<Rightarrow> (Returned (), (k1, r))
     | None \<Rightarrow>
         (case GenerateCerts cr (host cfg) r of (gen, r1) \<Rightarrow>
          obind (gen, (k1, r1)) (\<lambda>(newCa, newCert, newKey) (k1, r1).
          case SaveCertsToSecret (csSecrets cs) (secretName cfg) (namespace cfg) (certName cfg) (keyName cfg)
                 newCa newCert newKey k1 of
            (res, k2) \<Rightarrow> (res, (k2, r1))))))"

definition patchCommand ::
    "('conf, 'k) cluster \<Rightarrow> CliConfig \<Rightarrow> string \<Rightarrow> 'k \<Rightarrow> unit outcome \<times> 'k" where
  "patchCommand cl cfg failurePolicy k0 =
     obind (k8s_New cl (kubeconfig cfg), k0) (\<lambda>cs k.
     obind (GetCaFromSecret (csSecrets cs) (secretName cfg) (namespace cfg) k) (\<lambda>ca k1.
     case ca of
       None \<Rightarrow> (Fatal (''no secret with '' @ quoted (secretName cfg) @ '' in '' @ quoted (namespace cfg)), k1)
     | Some ca \<Rightarrow>
         PatchWebhookConfigurations (csValidating cs) (csMutating cs) (webhookName cfg) ca failurePolicy
           (patchMutating cfg) (patchValidating cfg) k1))"

section \<open>Lemmas\<close>

lemma GetCa_view:
  assumes "lawful st view" and "GetCaFromSecret st name ns k = (r, k')"
  shows "view k' = view k" and "r = Returned (Some ca) \<Longrightarrow>
      \<exists>s. view k (ns, name) = Some s \<and> data_get (sData s) ''ca'' = Some ca"
    and "r = Returned None \<Longrightarrow> view k (ns, name) = None"
proof -
  obtain g k1 where get: "stGet st (ns, name) k = (g, k1)" by fastforce
  note lg = lawful_get [OF assms(1) get]
  show "view k' = view k"
    using assms(2) get lg(1) by (auto simp: GetCaFromSecret_def split: sum.splits if_splits option.splits)
  show "\<exists>s. view k (ns, name) = Some s \<and> data_get (sData s) ''ca'' = Some ca" if "r = Returned (Some ca)"
    using assms(2) get lg(2) that by (auto simp: GetCaFromSecret_def split: sum.splits if_splits option.splits)
  show "view k (ns, name) = None" if "r = Returned None"
    using assms(2) get lg(3) that by (auto simp: GetCaFromSecret_def split: sum.splits if_splits option.splits)
qed

lemma add_hosts_names:
  "DNSNames (add_hosts parse hs t) = DNSNames t @ filter (\<lambda>h. parse h = None) hs"
  "IPAddresses (add_hosts parse hs t) = IPAddresses t @ List.map_filter parse hs"
  "IsCA (add_hosts parse hs t) = IsCA t" "NotBefore (add_hosts parse hs t) = NotBefore t"
  "NotAfter (add_hosts parse hs t) = NotAfter t" "ExtKeyUsage (add_hosts parse hs t) = ExtKeyUsage t"
  by (induction hs arbitrary: t) (auto simp: List.map_filter_simps split: option.split)

lemma patch_configuration_ok:
  assumes "lawful st view" and "patch_configuration st gm um name ca policy k = (Returned u, k')"
  shows "\<exists>wc. view k ([], name) = Some wc \<and>
    view k' = (view k)(([], name) \<mapsto> wc\<lparr>wcWebhooks := map (patch_hook ca policy) (wcWebhooks wc)\<rparr>)"
proof -
  obtain g k1 where get: "stGet st ([], name) k = (g, k1)" by fastforce
  with assms(2) obtain wc where g: "g = Inr wc"
    and up: "stUpdate st ([], name) (wc\<lparr>wcWebhooks := map (patch_hook ca policy) (wcWebhooks wc)\<rparr>) k1 = (None, k')"
    by (auto simp: patch_configuration_def split: sum.splits prod.splits option.splits)
  from lawful_update(1) [OF assms(1) up] lawful_get(1,2) [OF assms(1) get] g show ?thesis by auto
qed

lemma k8s_New_connected: "k8s_New cl kc = Returned cs \<Longrightarrow> \<exists>c. newForConfig cl c = Inr cs"
  by (auto simp: k8s_New_def split: sum.splits)

lemma SaveCerts_view:
  assumes "lawful st view" and "SaveCertsToSecret st name ns cn kn ca cert key k = (r, k')"
  shows "r \<noteq> Returned () \<and> view k' = view k \<or> (\<exists>s. r = Returned () \<and> view k (ns, name) = None \<and>
    view k' = (view k)((ns, name) \<mapsto> s) \<and> data_get (sData s) ''ca'' \<noteq> None)"
proof -
  let ?d = "AList.update kn key (AList.update cn cert [(''ca'', ca)])"
  let ?s = "\<lparr>sName = name, sData = Some ?d, sType = []\<rparr>"
  obtain e where c: "stCreate st (ns, name) ?s k = (e, k')"
    and r: "r = (case e of None \<Rightarrow> Returned () | Some err \<Rightarrow> Fatal ''failed creating secret'')"
    using assms(2) by (auto simp: SaveCertsToSecret_def Let_def split: prod.splits option.splits)
  have d: "data_get (sData ?s) ''ca'' \<noteq> None"
    by (simp add: data_get_def update_conv' del: AList.update.simps)
  show ?thesis
  proof (cases e)
    case None
    from lawful_create(1,2) [OF assms(1) c None] d r None show ?thesis by auto
  next
    case (Some err)
    from lawful_create(3) [OF assms(1) c Some] r Some show ?thesis by simp
  qed
qed

lemma createCommand_view:
  assumes "\<forall>c cs. newForConfig cl c = Inr cs \<longrightarrow> lawful (csSecrets cs) view"
    and "createCommand cl cr cfg (k, r) = (res, (k', r'))"
  shows "view k' = view k \<and> (res = Returned () \<longrightarrow>
      (\<exists>s. view k (namespace cfg, secretName cfg) = Some s \<and> data_get (sData s) ''ca'' \<noteq> None)) \<or>
    (\<exists>s. res = Returned () \<and> view k (namespace cfg, secretName cfg) = None \<and>
       view k' = (view k)((namespace cfg, secretName cfg) \<mapsto> s) \<and> data_get (sData s) ''ca'' \<noteq> None)"
proof (cases "k8s_New cl (kubeconfig cfg)")
  case (Returned cs)
  then have law: "lawful (csSecrets cs) view" using assms(1) k8s_New_connected by blast
  obtain got k1 where get: "GetCaFromSecret (csSecrets cs) (secretName cfg) (namespace cfg) k = (got, k1)" by fastforce
  note gv = GetCa_view [OF law get]
  show ?thesis
  proof (cases got)
    case got: (Returned ca)
    show ?thesis
    proof (cases ca)
      case (Some b)
      with assms(2) Returned get got gv(1) gv(2) [of b] show ?thesis by (auto simp: createCommand_def)
    next
      case None
      obtain gen r1 where gen: "GenerateCerts cr (host cfg) r = (gen, r1)" by fastforce
      show ?thesis
      proof (cases gen)
        case gn: (Returned certs)
        obtain a b c where abc: "certs = (a, b, c)" by (cases certs)
        obtain sv k2 where sv: "SaveCertsToSecret (csSecrets cs) (secretName cfg) (namespace cfg) (certName cfg)
            (keyName cfg) a b c k1 = (sv, k2)" by fastforce
        have "res = sv" "k' = k2" using assms(2) Returned get got None gen gn abc sv by (auto simp: createCommand_def)
        with SaveCerts_view [OF law sv] gv(1) show ?thesis by auto
      qed (use assms(2) Returned get got None gen gv(1) in \<open>auto simp: createCommand_def\<close>)
    qed
  qed (use assms(2) Returned get gv(1) in \<open>auto simp: createCommand_def\<close>)
qed (use assms(2) in \<open>auto simp: createCommand_def\<close>)

section \<open>Properties\<close>


lemma patch_writes_ca_lemma:
  assumes "\<forall>c cs. newForConfig cl c = Inr cs \<longrightarrow> lawful (csSecrets cs) secrets \<and> lawful (csMutating cs) mutating"
    and "patchCommand cl cfg policy k = (Returned (), k')" and "patchMutating cfg"
  shows "\<exists>s ca wc. secrets k (namespace cfg, secretName cfg) = Some s \<and> data_get (sData s) ''ca'' = Some ca \<and>
    mutating k' ([], webhookName cfg) = Some wc \<and>
    (\<forall>h \<in> set (wcWebhooks wc). ccCABundle (whClientConfig h) = ca \<and>
       (policy \<noteq> [] \<longrightarrow> whFailurePolicy h = Some policy))"
proof -
  obtain cs where conn: "k8s_New cl (kubeconfig cfg) = Returned cs"
    using assms(2) by (auto simp: patchCommand_def obind_Returned)
  have law: "lawful (csSecrets cs) secrets" "lawful (csMutating cs) mutating"
    using assms(1) k8s_New_connected [OF conn] by blast+
  obtain ca k1 where get: "GetCaFromSecret (csSecrets cs) (secretName cfg) (namespace cfg) k = (Returned (Some ca), k1)"
    and pt: "PatchWebhookConfigurations (csValidating cs) (csMutating cs) (webhookName cfg) ca policy
        (patchMutating cfg) (patchValidating cfg) k1 = (Returned (), k')"
    using assms(2) conn by (auto simp: patchCommand_def obind_Returned split: option.splits)
  from pt assms(3) obtain k2 where "patch_configuration (csMutating cs) ''failed getting validating webhook''
      ''failed patching validating webhook'' (webhookName cfg) ca policy k2 = (Returned (), k')"
    by (auto simp: PatchWebhookConfigurations_def obind_Returned)
  from patch_configuration_ok [OF law(2) this] GetCa_view(2) [OF law(1) get refl] show ?thesis
    by (auto simp: patch_hook_def Let_def)
qed


text \<open>
  The policy Ignore is lost. With it the check before a patch ends exactly as with no policy at all, for
  every other flag: the webhooks keep the failure policy they have.
\<close>

theorem ignore_policy_is_lost:
  "prePatchCommand parseLevel (cfg\<lparr>patchFailurePolicy := ''Ignore''\<rparr>) failurePolicy =
   prePatchCommand parseLevel (cfg\<lparr>patchFailurePolicy := []\<rparr>) failurePolicy"
proof -
  have "configureLogging parseLevel (cfg\<lparr>patchFailurePolicy := x\<rparr>) = configureLogging parseLevel cfg" for x
    by (simp add: configureLogging_def split: sum.split)
  then show ?thesis by (simp add: prePatchCommand_def split: outcome.split)
qed

text \<open>
  The certificates of the tool. On success the leaf is signed by the key of the self-signed root, names
  every host of the comma-separated list once, in order, as an address when it parses as one and as a DNS name
  otherwise, is no CA, and lives as long as the root, a hundred years of 365 days.
\<close>

theorem generated_leaf:
  assumes "GenerateCerts cr hst r = (Returned (ca, cert, key), r')"
  shows "\<exists>root leaf rootKey leafKey der derLeaf b s1 s2 s3 s4.
    ecCreate cr root root (ecPublic cr rootKey) rootKey s1 = (Inr der, s2) \<and>
    ecCreate cr leaf root (ecPublic cr leafKey) rootKey s3 = (Inr derLeaf, s4) \<and>
    ca = ecPem cr ''CERTIFICATE'' der \<and> cert = ecPem cr ''CERTIFICATE'' derLeaf \<and>
    ecMarshal cr leafKey = Inr b \<and> key = ecPem cr ''EC PRIVATE KEY'' b \<and>
    IsCA root \<and> \<not> IsCA leaf \<and>
    DNSNames leaf = filter (\<lambda>h. parseIP cr h = None) (split_char CHR '','' hst) \<and>
    IPAddresses leaf = List.map_filter (parseIP cr) (split_char CHR '','' hst) \<and>
    NotBefore leaf = NotBefore root \<and> NotAfter leaf = NotAfter root \<and>
    NotAfter leaf - NotBefore leaf = 100 * 365 * 24 * 3600 * 1000000000"
proof -
  obtain t r1 where t: "ecNow cr r = (t, r1)" by fastforce
  define nb where "nb = not_before t"
  define na where "na = not_after nb"
  have of: "or_fatal m x = (Returned y, s) \<longleftrightarrow> x = (Inr y, s)" for m y and x :: "(goerror + 'x) \<times> 's" and s
    by (auto simp: or_fatal_def split: prod.splits sum.splits)
  from assms obtain serial r2 rootKey r3 der r4 leafKey r5 serial2 r6 derLeaf b where
    root: "ecCreate cr (root_template serial nb na) (root_template serial nb na) (ecPublic cr rootKey) rootKey r3 = (Inr der, r4)"
    and leaf: "ecCreate cr (add_hosts (parseIP cr) (split_char CHR '','' hst) (leaf_base serial2 nb na))
        (root_template serial nb na) (ecPublic cr leafKey) rootKey r6 = (Inr derLeaf, r')"
    and enc: "encodeKey cr leafKey = Returned key" "ca = encodeCert cr der" "cert = encodeCert cr derLeaf"
    by (auto simp: GenerateCerts_def t Let_def obind_Returned nb_def [symmetric] na_def [symmetric] of)
  from enc(1) obtain b where b: "ecMarshal cr leafKey = Inr b" "key = ecPem cr ''EC PRIVATE KEY'' b"
    by (auto simp: encodeKey_def split: sum.splits)
  show ?thesis
    by (rule exI [of _ "root_template serial nb na"],
        rule exI [of _ "add_hosts (parseIP cr) (split_char CHR '','' hst) (leaf_base serial2 nb na)"],
        rule exI [of _ rootKey], rule exI [of _ leafKey], rule exI [of _ der], rule exI [of _ derLeaf],
        rule exI [of _ b], rule exI [of _ r3], rule exI [of _ r4], rule exI [of _ r6], rule exI [of _ r'])
       (use root leaf enc(2,3) b in \<open>simp add: encodeCert_def add_hosts_names root_template_def leaf_base_def na_def not_after_def\<close>)
qed

section \<open>Witnesses\<close>

type_synonym demo_cluster = "(object_key \<Rightarrow> Secret option) \<times> (object_key \<Rightarrow> WebhookConfiguration option)"

definition demo_net :: "(unit, demo_cluster) cluster" where
  "demo_net = \<lparr>buildConfig = (\<lambda>p. Inr ()),
     newForConfig = (\<lambda>u. Inr \<lparr>csSecrets = fst_store map_store, csValidating = snd_store map_store,
       csMutating = snd_store map_store\<rparr>)\<rparr>"

definition demo_ec :: "(nat, nat, nat) ec_crypto" where
  "demo_ec = \<lparr>ecNow = (\<lambda>r. (int r, r)), ecSerial = (\<lambda>n r. (Inr (int r), Suc r)),
     ecGenerateKey = (\<lambda>r. (Inr r, Suc r)), ecCreate = (\<lambda>c p pub priv r. (Inr [of_nat pub, of_nat priv], r)),
     ecPublic = id, ecMarshal = (\<lambda>k. Inr [of_nat k]), ecPem = (\<lambda>ty b. b),
     parseIP = (\<lambda>h. if h = ''10.0.0.1'' then Some h else None)\<rparr>"

definition demo_cli :: CliConfig where
  "demo_cli = \<lparr>logLevel = ''info'', logfmt = ''json'', secretName = ''s'', namespace = ''ns'', certName = ''cert'',
     keyName = ''key'', host = ''a,10.0.0.1'', webhookName = ''w'', patchValidating = False, patchMutating = True,
     patchFailurePolicy = ''Fail'', kubeconfig = []\<rparr>"

lemma demo_net_lawful: "newForConfig demo_net c = Inr cs \<Longrightarrow> lawful (csSecrets cs) fst \<and> lawful (csMutating cs) snd"
  by (auto simp: demo_net_def two_stores_lawful)

definition demo_run :: "nat \<Rightarrow> demo_cluster \<Rightarrow> unit outcome \<times> demo_cluster \<times> nat" where
  "demo_run r k = createCommand demo_net demo_ec demo_cli (k, r)"

lemma demo_certs: "GenerateCerts demo_ec ''a,10.0.0.1'' r =
    (Returned ([of_nat (Suc r), of_nat (Suc r)], [of_nat (Suc (Suc r)), of_nat (Suc r)], [of_nat (Suc (Suc r))]), Suc (Suc (Suc (Suc r))))"
  by (simp add: GenerateCerts_def demo_ec_def or_fatal_def encodeKey_def encodeCert_def Let_def)

lemma demo_create: "fst (demo_run r (Map.empty, m)) = Returned ()"
  using demo_certs [of r]
  by (simp add: demo_run_def createCommand_def demo_net_def demo_cli_def k8s_New_def GetCaFromSecret_def
      SaveCertsToSecret_def fst_store_def map_store_def Let_def)


definition patch_net :: demo_cluster where
  "patch_net = ([(''ns'', ''s'') \<mapsto> \<lparr>sName = ''s'', sData = Some [(''ca'', [5])], sType = []\<rparr>],
     [([], ''w'') \<mapsto> new_webhook ''w'' ''ns'' ''svc'' [1]])"


theorem generated_leaf_witness:
  "\<exists>leaf. DNSNames leaf = [''a''] \<and> IPAddresses leaf = [''10.0.0.1''] \<and> \<not> IsCA (leaf :: int certificate)"
proof -
  have s: "split_char CHR '','' ''a,10.0.0.1'' = [''a'', ''10.0.0.1'']" by simp
  have f: "filter (\<lambda>h. parseIP demo_ec h = None) [''a'', ''10.0.0.1''] = [''a'']"
    "List.map_filter (parseIP demo_ec) [''a'', ''10.0.0.1''] = [''10.0.0.1'']"
    by (simp_all add: demo_ec_def List.map_filter_simps)
  from generated_leaf [OF demo_certs [of 0]] show ?thesis unfolding s f by blast
qed

end
