(* ===== verification/CopySteps.thy ===== *)
theory CopySteps
  imports Copier
begin

text \<open>
  The atomic copy of \<open>cmd/sidecar/main.go\<close> system call by system call. Between two calls of
  \<open>SidecarManager.atomicCopy\<close> every other process of the machine may run: a shell in a business container
  may start the destination, the kubelet may rewrite other files, the sidecar may be killed. The theory gives
  the program counter of one call, its steps, the steps of the others, and the abstract machine they refine: a
  destination that changes once, from what it was to a complete executable copy.
\<close>

section \<open>The steps of one call\<close>

text \<open>
  One constructor per system call of \<open>atomicCopy\<close> that is about to run. The calls of the error branches carry
  the error that is returned after them; the deferred close of the source carries the result.
\<close>

datatype copy_pc =
    AtOpen
  | AtCreate
  | AtCopy
  | AtClose
  | AtChmod
  | AtRename
  | AtCloseBad goerror
  | AtRemove goerror
  | AtCloseSrc "goerror option"
  | AtReturn "goerror option"

fun copy_next :: "string \<Rightarrow> string \<Rightarrow> copy_pc \<Rightarrow> world \<Rightarrow> (copy_pc \<times> world) option" where
  "copy_next srcPath dstPath AtOpen w = Some (case osOpen srcPath w of
     (Inl err, w') \<Rightarrow>
       (AtReturn (Some (''failed to open source file '' @ srcPath @ '': '' @ oserr_string err)), w')
   | (Inr _, w') \<Rightarrow> (AtCreate, w'))"
| "copy_next srcPath dstPath AtCreate w = Some (case osCreate (tmp_of dstPath) w of
     (Inl err, w') \<Rightarrow> (AtCloseSrc (Some (''failed to create temp file: '' @ oserr_string err)), w')
   | (Inr _, w') \<Rightarrow> (AtCopy, w'))"
| "copy_next srcPath dstPath AtCopy w = Some (case ioCopy (tmp_of dstPath) srcPath w of
     (Inl err, w') \<Rightarrow> (AtCloseBad (''failed to copy file content: '' @ oserr_string err), w')
   | (Inr _, w') \<Rightarrow> (AtClose, w'))"
| "copy_next srcPath dstPath AtClose w = Some (case osClose (tmp_of dstPath) w of
     (Inl err, w') \<Rightarrow> (AtRemove (''failed to close temp file: '' @ oserr_string err), w')
   | (Inr _, w') \<Rightarrow> (AtChmod, w'))"
| "copy_next srcPath dstPath AtChmod w = Some (case osChmod (tmp_of dstPath) 493 w of
     (Inl err, w') \<Rightarrow> (AtRemove (''failed to set executable permission: '' @ oserr_string err), w')
   | (Inr _, w') \<Rightarrow> (AtRename, w'))"
| "copy_next srcPath dstPath AtRename w = Some (case osRename (tmp_of dstPath) dstPath w of
     (Inl err, w') \<Rightarrow> (AtRemove (''failed to rename file: '' @ oserr_string err), w')
   | (Inr _, w') \<Rightarrow> (AtCloseSrc None, w'))"
| "copy_next srcPath dstPath (AtCloseBad e) w = Some (AtRemove e, snd (osClose (tmp_of dstPath) w))"
| "copy_next srcPath dstPath (AtRemove e) w =
     Some (AtCloseSrc (Some e), snd (osRemove (tmp_of dstPath) w))"
| "copy_next srcPath dstPath (AtCloseSrc r) w = Some (AtReturn r, snd (osClose srcPath w))"
| "copy_next srcPath dstPath (AtReturn r) w = None"

fun_cases copy_nextE: "copy_next s d pc w = Some (pc', w')"

text \<open>The calls that are left at most: every step uses one up.\<close>

fun calls_left :: "copy_pc \<Rightarrow> nat" where
  "calls_left AtOpen = 9"
| "calls_left AtCreate = 8"
| "calls_left AtCopy = 7"
| "calls_left AtClose = 6"
| "calls_left AtChmod = 5"
| "calls_left AtRename = 4"
| "calls_left (AtCloseBad e) = 3"
| "calls_left (AtRemove e) = 2"
| "calls_left (AtCloseSrc r) = 1"
| "calls_left (AtReturn r) = 0"

lemma calls_left_less:
  "copy_next s d pc w = Some (pc', w') \<Longrightarrow> calls_left pc' < calls_left pc"
  by (cases pc) (auto split: prod.splits sum.splits)

text \<open>The call run to its end with nothing in between.\<close>

function copy_run :: "string \<Rightarrow> string \<Rightarrow> copy_pc \<Rightarrow> world \<Rightarrow> goerror option \<times> world" where
  "copy_run s d pc w = (case copy_next s d pc w of
     Some (pc', w') \<Rightarrow> copy_run s d pc' w'
   | None \<Rightarrow> (case pc of AtReturn r \<Rightarrow> r | _ \<Rightarrow> None, w))"
  by pat_completeness auto
termination
  by (relation "measure (\<lambda>(s, d, pc, w). calls_left pc)") (auto dest: calls_left_less)

declare copy_run.simps [simp del]

lemma copy_run_return [simp]: "copy_run s d (AtReturn r) w = (r, w)"
  by (subst copy_run.simps) simp

lemma copy_run_step: "copy_next s d pc w = Some (pc', w') \<Longrightarrow> copy_run s d pc w = copy_run s d pc' w'"
  by (subst copy_run.simps) simp

lemma copy_run_next: "copy_next s d pc w = Some x \<Longrightarrow> copy_run s d pc w = copy_run s d (fst x) (snd x)"
  by (cases x) (simp add: copy_run_step)

lemmas copy_run_unfold = copy_next.simps(1-9) [THEN copy_run_next]

lemma run_close_src: "copy_run s d (AtCloseSrc r) w = (r, snd (osClose s w))"
  by (simp add: copy_run_unfold)

lemma run_opened:
  "copy_run s d AtCreate w = (case copyOpened s d w of (r, w') \<Rightarrow> (r, snd (osClose s w')))"
  by (simp add: copy_run_unfold copyOpened_def Let_def split: prod.split sum.split)

lemma run_is_atomicCopy: "copy_run s d AtOpen w = SidecarManager_atomicCopy s d w"
  by (simp add: copy_run_unfold(1) SidecarManager_atomicCopy_def run_opened
      split: prod.split sum.split)

section \<open>The call among the other processes\<close>

text \<open>
  What the call relies on: while it runs the others leave the source, the destination and the temporary
  name alone (the clock, the pending faults and every other file are theirs). The third step is the inside
  of \<open>io.Copy\<close>, which writes the temporary file piece by piece.
\<close>

definition undisturbed :: "string \<Rightarrow> string \<Rightarrow> world \<Rightarrow> world \<Rightarrow> bool" where
  "undisturbed s d w w' \<longleftrightarrow>
     fget w' s = fget w s \<and> fget w' d = fget w d \<and> fget w' (tmp_of d) = fget w (tmp_of d)"

inductive copy_step :: "string \<Rightarrow> string \<Rightarrow> copy_pc \<times> world \<Rightarrow> copy_pc \<times> world \<Rightarrow> bool"
  for s d where
  own: "copy_next s d pc w = Some (pc', w') \<Longrightarrow> copy_step s d (pc, w) (pc', w')"
| piece: "fget w s = Some (File c m t) \<Longrightarrow> fget w (tmp_of d) = Some (File c1 m1 t1) \<Longrightarrow>
    copy_step s d (AtCopy, w) (AtCopy, fput (tmp_of d) (File (take n c) m1 t2) w)"
| others: "undisturbed s d w w' \<Longrightarrow> copy_step s d (pc, w) (pc, w')"

inductive_cases copy_stepE: "copy_step s d x y"

text \<open>What it guarantees: a step of its own touches the temporary name and the destination only.\<close>

lemma own_guarantee:
  assumes "copy_next s d pc w = Some (pc', w')" "\<not> same_path (tmp_of d) x" "\<not> same_path d x"
  shows "fget w' x = fget w x"
proof (cases pc)
  case AtRename
  with assms show ?thesis
    by (auto dest!: osRename_ok osRename_err split: prod.splits sum.splits)
qed (use assms in \<open>auto simp: osRemove_snd
      dest!: osOpen_ok osOpen_err osCreate_off [where x = x] ioCopy_off [where x = x]
        osClose_off [where x = x] osChmod_off [where x = x]
      split: prod.splits sum.splits\<close>)

section \<open>The invariant of a call\<close>

text \<open>
  \<open>src\<close> and \<open>old\<close> are what the source and the destination were when the call began. \<open>whole src nd\<close>
  says that \<open>nd\<close> is a complete executable copy of the source.
\<close>

definition whole :: "node option \<Rightarrow> node option \<Rightarrow> bool" where
  "whole src nd \<longleftrightarrow> (\<exists>c m t t'. src = Some (File c m t) \<and> nd = Some (File c 493 t'))"

definition full_tmp :: "node option \<Rightarrow> node option \<Rightarrow> bool" where
  "full_tmp src nd \<longleftrightarrow> (\<exists>c m t m' t'. src = Some (File c m t) \<and> nd = Some (File c m' t'))"

datatype stage = Running | Published | Failed

fun stage_of :: "copy_pc \<Rightarrow> stage" where
  "stage_of (AtCloseBad e) = Failed"
| "stage_of (AtRemove e) = Failed"
| "stage_of (AtCloseSrc (Some e)) = Failed"
| "stage_of (AtReturn (Some e)) = Failed"
| "stage_of (AtCloseSrc None) = Published"
| "stage_of (AtReturn None) = Published"
| "stage_of pc = Running"

fun copy_inv :: "string \<Rightarrow> string \<Rightarrow> node option \<Rightarrow> node option \<Rightarrow> copy_pc \<times> world \<Rightarrow> bool" where
  "copy_inv s d src old (pc, w) \<longleftrightarrow>
     fget w s = src \<and>
     (if stage_of pc = Published then whole src (fget w d) else fget w d = old) \<and>
     (pc = AtClose \<or> pc = AtChmod \<longrightarrow> full_tmp src (fget w (tmp_of d))) \<and>
     (pc = AtRename \<longrightarrow> whole src (fget w (tmp_of d)))"

lemma own_dest:
  assumes "copy_next s d pc w = Some (pc', w')" "pc \<noteq> AtRename"
  shows "fget w' d = fget w d"
proof (cases pc)
  case AtCopy
  with assms show ?thesis
    using ioCopy_off [of "tmp_of d" s w _ _ d] by (auto split: prod.splits sum.splits)
next
  case AtCreate
  with assms show ?thesis
    using osCreate_off [of "tmp_of d" w _ _ d] by (auto split: prod.splits sum.splits)
next
  case AtChmod
  with assms show ?thesis
    using osChmod_off [of "tmp_of d" 493 w _ _ d] by (auto split: prod.splits sum.splits)
qed (use assms in \<open>auto simp: osRemove_snd dest!: osOpen_ok osOpen_err osClose_frame
      split: prod.splits sum.splits\<close>)

text \<open>What a step of its own does to the temporary file and where it goes.\<close>

lemma own_tmp:
  assumes "copy_next s d pc w = Some (pc', w')"
  shows "pc = AtCopy \<Longrightarrow> pc' = AtClose \<and> full_tmp (fget w s) (fget w' (tmp_of d)) \<or> (\<exists>e. pc' = AtCloseBad e)"
    and "pc = AtClose \<Longrightarrow> pc' = AtChmod \<and> fget w' = fget w \<or> (\<exists>e. pc' = AtRemove e)"
    and "pc = AtChmod \<Longrightarrow> full_tmp (fget w s) (fget w (tmp_of d)) \<Longrightarrow>
      pc' = AtRename \<and> whole (fget w s) (fget w' (tmp_of d)) \<or> (\<exists>e. pc' = AtRemove e)"
    and "pc = AtRename \<Longrightarrow> whole (fget w s) (fget w (tmp_of d)) \<Longrightarrow>
      pc' = AtCloseSrc None \<and> whole (fget w s) (fget w' d) \<or> (\<exists>e. pc' = AtRemove e) \<and> fget w' = fget w"
proof -
  show "pc' = AtClose \<and> full_tmp (fget w s) (fget w' (tmp_of d)) \<or> (\<exists>e. pc' = AtCloseBad e)"
    if "pc = AtCopy"
    using assms that ioCopy_ok [of "tmp_of d" s w]
    by (auto simp: full_tmp_def split: prod.splits sum.splits)
  show "pc' = AtChmod \<and> fget w' = fget w \<or> (\<exists>e. pc' = AtRemove e)" if "pc = AtClose"
    using assms that osClose_frame [of "tmp_of d" w] by (auto split: prod.splits sum.splits)
  show "pc' = AtRename \<and> whole (fget w s) (fget w' (tmp_of d)) \<or> (\<exists>e. pc' = AtRemove e)"
    if "pc = AtChmod" "full_tmp (fget w s) (fget w (tmp_of d))"
  proof -
    have "whole (fget w s) (fget w' (tmp_of d))" if "osChmod (tmp_of d) 493 w = (Inr u, w')" for u
      using osChmod_ok [OF that] \<open>full_tmp _ _\<close> by (auto simp: full_tmp_def whole_def)
    then show ?thesis using assms \<open>pc = _\<close> by (auto split: prod.splits sum.splits)
  qed
  show "pc' = AtCloseSrc None \<and> whole (fget w s) (fget w' d) \<or> (\<exists>e. pc' = AtRemove e) \<and> fget w' = fget w"
    if "pc = AtRename" "whole (fget w s) (fget w (tmp_of d))"
  proof -
    have "whole (fget w s) (fget w' d)" if "osRename (tmp_of d) d w = (Inr u, w')" for u
      using osRename_ok [OF that] \<open>whole _ _\<close> by (auto simp: whole_def)
    then show ?thesis
      using assms \<open>pc = _\<close> by (auto dest!: osRename_err split: prod.splits sum.splits)
  qed
qed

lemma own_other:
  assumes "copy_next s d pc w = Some (pc', w')" and "pc \<notin> {AtCopy, AtClose, AtChmod, AtRename}"
  shows "pc' \<notin> {AtClose, AtChmod, AtRename}" and "stage_of pc' = Published \<longleftrightarrow> stage_of pc = Published"
proof -
  have "pc' \<notin> {AtClose, AtChmod, AtRename} \<and> (stage_of pc' = Published \<longleftrightarrow> stage_of pc = Published)"
  proof (cases pc)
    case (AtCloseSrc r)
    with assms(1) show ?thesis by (cases r) auto
  qed (use assms in \<open>auto split: prod.splits sum.splits\<close>)
  then show "pc' \<notin> {AtClose, AtChmod, AtRename}" "stage_of pc' = Published \<longleftrightarrow> stage_of pc = Published"
    by auto
qed

lemma copy_inv_own:
  assumes step: "copy_next s d pc w = Some (pc', w')" and inv: "copy_inv s d src old (pc, w)"
    and "\<not> same_path (tmp_of d) s" and "\<not> same_path d s"
  shows "copy_inv s d src old (pc', w')"
proof -
  have old: "fget w s = src" using inv by simp
  have src: "fget w' s = src" using own_guarantee [OF step assms(3,4)] old by simp
  note tmp = own_tmp [OF step, unfolded old]
  show ?thesis
  proof (cases "pc = AtRename")
    case True
    then have "whole src (fget w (tmp_of d))" using inv by simp
    from tmp(4) [OF True this] show ?thesis using src inv True by (elim disjE conjE exE) simp_all
  next
    case False
    have d: "fget w' d = fget w d" by (rule own_dest [OF step False])
    show ?thesis
    proof (cases "pc \<in> {AtCopy, AtClose, AtChmod}")
      case False
      with own_other [OF step] \<open>pc \<noteq> AtRename\<close> show ?thesis using inv src d by simp
    next
      case True
      then consider "pc = AtCopy" | "pc = AtClose" "full_tmp src (fget w (tmp_of d))"
        | "pc = AtChmod" "full_tmp src (fget w (tmp_of d))"
        using inv by auto
      then show ?thesis
      proof cases
        case 1
        from tmp(1) [OF this] show ?thesis using inv src d 1 by (elim disjE conjE exE) simp_all
      next
        case 2
        from tmp(2) [OF 2(1)] show ?thesis using inv src d 2 by (elim disjE conjE exE) simp_all
      next
        case 3
        from tmp(3) [OF this] show ?thesis using inv src d 3 by (elim disjE conjE exE) simp_all
      qed
    qed
  qed
qed

lemma copy_inv_step:
  assumes "copy_step s d (pc, w) (pc', w')" and "copy_inv s d src old (pc, w)"
    and "\<not> same_path (tmp_of d) s" and "\<not> same_path d s"
  shows "copy_inv s d src old (pc', w')"
  using assms(1)
proof (cases rule: copy_step.cases)
  case own
  then show ?thesis using copy_inv_own assms(2-4) by blast
next
  case piece
  then show ?thesis using assms(2-4) by auto
next
  case others
  then show ?thesis using assms(2) by (auto simp: undisturbed_def)
qed

lemma copy_inv_reach:
  assumes "(copy_step s d)\<^sup>*\<^sup>* (AtOpen, w0) x"
    and "\<not> same_path (tmp_of d) s" and "\<not> same_path d s"
  shows "copy_inv s d (fget w0 s) (fget w0 d) x"
  using assms(1)
proof (induction rule: rtranclp_induct)
  case base
  then show ?case by simp
next
  case (step y z)
  then show ?case using copy_inv_step assms(2,3) by (cases y; cases z) blast
qed

section \<open>The abstract machine\<close>

text \<open>
  What a publication promises: one abstract step that either puts a complete executable copy in place of the
  destination or fails and leaves it. The state is the stage and the destination.
\<close>

inductive publish_step ::
    "node option \<Rightarrow> stage \<times> node option \<Rightarrow> stage \<times> node option \<Rightarrow> bool" for src where
  publish: "whole src new \<Longrightarrow> publish_step src (Running, old) (Published, new)"
| fail: "publish_step src (Running, old) (Failed, old)"

definition abs_copy :: "string \<Rightarrow> copy_pc \<times> world \<Rightarrow> stage \<times> node option" where
  "abs_copy d x = (stage_of (fst x), fget (snd x) d)"

lemma stage_next:
  assumes "copy_next s d pc w = Some (pc', w')" and "stage_of pc \<noteq> Running"
  shows "stage_of pc' = stage_of pc"
proof (cases pc)
  case (AtCloseSrc r)
  with assms show ?thesis by (cases r) auto
qed (use assms in auto)

lemma abs_copy_step:
  assumes "copy_step s d (pc, w) (pc', w')" and "copy_inv s d src old (pc, w)"
    and "\<not> same_path (tmp_of d) s" and "\<not> same_path d s"
  shows "abs_copy d (pc', w') = abs_copy d (pc, w) \<or>
    publish_step src (abs_copy d (pc, w)) (abs_copy d (pc', w'))"
  using assms(1)
proof (cases rule: copy_step.cases)
  case own
  have i: "copy_inv s d src old (pc', w')" by (rule copy_inv_own [OF own assms(2-4)])
  show ?thesis
  proof (cases "stage_of pc = Running")
    case True
    then have "fget w d = old" using assms(2) by simp
    with True i show ?thesis
      by (cases "stage_of pc'") (auto simp: abs_copy_def intro: publish_step.intros)
  next
    case False
    then have "stage_of pc' = stage_of pc" by (rule stage_next [OF own])
    moreover have "fget w' d = fget w d" by (rule own_dest [OF own]) (use False in auto)
    ultimately show ?thesis by (simp add: abs_copy_def)
  qed
next
  case piece
  then show ?thesis by (simp add: abs_copy_def)
next
  case others
  then show ?thesis by (auto simp: abs_copy_def undisturbed_def)
qed

section \<open>Properties\<close>

text \<open>
  C7: the copy of a script refines one atomic publication. In every run of the call among other
  processes that leave its three paths alone, and under every failure of its system calls, each step either
  keeps the destination and the stage, or is the one step of the abstract machine: from the old destination
  to a complete executable copy, or from running to failed with the destination as it was.
\<close>

theorem copy_refines_publish:
  assumes "(copy_step s d)\<^sup>*\<^sup>* (AtOpen, w0) (pc, w)" and "copy_step s d (pc, w) (pc', w')"
    and "\<not> same_path (tmp_of d) s" and "\<not> same_path d s"
  shows "abs_copy d (pc', w') = abs_copy d (pc, w) \<or>
    publish_step (fget w0 s) (abs_copy d (pc, w)) (abs_copy d (pc', w'))"
  by (rule abs_copy_step [OF assms(2) copy_inv_reach [OF assms(1,3,4)] assms(3,4)])

text \<open>
  At every moment of a copy, and so also after a crash of the sidecar in the middle of it, a
  business container that starts the destination finds either what was there before or a complete executable
  copy; when the call returns nil it is the copy, when it returns an error it is what was there before.
\<close>

theorem copy_every_moment:
  assumes "(copy_step s d)\<^sup>*\<^sup>* (AtOpen, w0) (pc, w)"
    and "\<not> same_path (tmp_of d) s" and "\<not> same_path d s"
  shows "(fget w d = fget w0 d \<or> whole (fget w0 s) (fget w d)) \<and>
    (pc = AtReturn None \<longrightarrow> whole (fget w0 s) (fget w d)) \<and>
    (\<forall>e. pc = AtReturn (Some e) \<longrightarrow> fget w d = fget w0 d)"
  using copy_inv_reach [OF assms] by (auto split: if_splits)

text \<open>
  The steps are the call: run to the end with nothing in between, after at most nine system calls, they give
  the error and the machine that \<open>SidecarManager.atomicCopy\<close> of the model gives, and so those of
  \<open>ScriptCopier.atomicCopy\<close>, for every schedule of failures.
\<close>

theorem copy_steps_are_the_call:
  "copy_run s d AtOpen w = SidecarManager_atomicCopy s d w \<and>
   copy_run s d AtOpen w = ScriptCopier_atomicCopy s d w"
  by (simp add: run_is_atomicCopy copiers_agree)

subsection \<open>Runs\<close>

text \<open>\<open>after n\<close> is the call after \<open>n\<close> of its own system calls, which is one of its runs.\<close>

fun after :: "string \<Rightarrow> string \<Rightarrow> nat \<Rightarrow> copy_pc \<times> world \<Rightarrow> copy_pc \<times> world" where
  "after s d 0 x = x"
| "after s d (Suc n) x =
     (case copy_next s d (fst x) (snd x) of None \<Rightarrow> x | Some y \<Rightarrow> after s d n y)"

lemma after_reach: "(copy_step s d)\<^sup>*\<^sup>* x (after s d n x)"
proof (induction n arbitrary: x)
  case (Suc n)
  show ?case
  proof (cases "copy_next s d (fst x) (snd x)")
    case (Some y)
    then have "copy_step s d x y" by (cases x; cases y) (simp add: copy_step.own)
    then show ?thesis using Suc [of y] Some by (simp add: converse_rtranclp_into_rtranclp)
  qed simp
qed simp

text \<open>The script \<open>/s/a\<close> is copied over \<open>/o/ls\<close>; the second machine fails at the rename.\<close>

definition copy_world :: world where
  "copy_world = \<lparr>files = [(''/s'', Dir), (''/o'', Dir), (''/s/a'', File ''new'' 420 1),
     (''/o/ls'', File ''old'' 493 1)], sched = [], clock = 5\<rparr>"

definition bad_world :: world where
  "bad_world = copy_world\<lparr>sched := [None, None, None, None, None, Some (EIO, 0)]\<rparr>"

theorem copy_refines_publish_witness:
  "publish_step (Some (File ''new'' 420 1)) (Running, Some (File ''old'' 493 1))
     (abs_copy ''/o/ls'' (after ''/s/a'' ''/o/ls'' 6 (AtOpen, copy_world))) \<and>
   publish_step (Some (File ''new'' 420 1)) (Running, Some (File ''old'' 493 1))
     (abs_copy ''/o/ls'' (after ''/s/a'' ''/o/ls'' 6 (AtOpen, bad_world)))"
proof -
  define s where "s = ''/s/a''"
  define d where "d = ''/o/ls''"
  define x where "x = after s d 5 (AtOpen, copy_world)"
  define y where "y = after s d 6 (AtOpen, copy_world)"
  define u where "u = after s d 5 (AtOpen, bad_world)"
  define v where "v = after s d 6 (AtOpen, bad_world)"
  have n: "\<not> same_path (tmp_of d) s" "\<not> same_path d s" unfolding s_def d_def by code_simp+
  have r: "(copy_step s d)\<^sup>*\<^sup>* (AtOpen, copy_world) (fst x, snd x)"
    "(copy_step s d)\<^sup>*\<^sup>* (AtOpen, bad_world) (fst u, snd u)"
    unfolding x_def u_def prod.collapse by (rule after_reach)+
  have "copy_next s d (fst x) (snd x) = Some (fst y, snd y)"
    "copy_next s d (fst u) (snd u) = Some (fst v, snd v)"
    unfolding x_def y_def u_def v_def s_def d_def by code_simp+
  then have st: "copy_step s d (fst x, snd x) (fst y, snd y)" "copy_step s d (fst u, snd u) (fst v, snd v)"
    by (simp_all only: copy_step.own)
  have "abs_copy d x = (Running, Some (File ''old'' 493 1))" "abs_copy d u = (Running, Some (File ''old'' 493 1))"
    "fget copy_world s = Some (File ''new'' 420 1)" "fget bad_world s = Some (File ''new'' 420 1)"
    "fst (abs_copy d y) = Published" "fst (abs_copy d v) = Failed"
    unfolding x_def y_def u_def v_def s_def d_def by code_simp+
  then show ?thesis
    using copy_refines_publish [OF r(1) st(1) n] copy_refines_publish [OF r(2) st(2) n]
    unfolding x_def [symmetric] y_def [symmetric] u_def [symmetric] v_def [symmetric] s_def [symmetric] d_def [symmetric] by auto
qed

theorem copy_every_moment_witness:
  "fget (snd (after ''/s/a'' ''/o/ls'' 3 (AtOpen, copy_world))) ''/o/ls'' = Some (File ''old'' 493 1) \<and>
   whole (Some (File ''new'' 420 1)) (fget (snd (after ''/s/a'' ''/o/ls'' 9 (AtOpen, copy_world))) ''/o/ls'') \<and>
   fget (snd (after ''/s/a'' ''/o/ls'' 9 (AtOpen, bad_world))) ''/o/ls'' = Some (File ''old'' 493 1)"
proof -
  define s where "s = ''/s/a''"
  define d where "d = ''/o/ls''"
  define x where "x = after s d 9 (AtOpen, copy_world)"
  define y where "y = after s d 9 (AtOpen, bad_world)"
  have n: "\<not> same_path (tmp_of d) s" "\<not> same_path d s" unfolding s_def d_def by code_simp+
  have r: "(copy_step s d)\<^sup>*\<^sup>* (AtOpen, copy_world) (fst x, snd x)"
    "(copy_step s d)\<^sup>*\<^sup>* (AtOpen, bad_world) (fst y, snd y)"
    unfolding prod.collapse x_def y_def by (rule after_reach)+
  have f: "fget copy_world s = Some (File ''new'' 420 1)" "fget bad_world d = Some (File ''old'' 493 1)"
    "fst x = AtReturn None" "case fst y of AtReturn r \<Rightarrow> r \<noteq> None | _ \<Rightarrow> False"
    "fget (snd (after s d 3 (AtOpen, copy_world))) d = Some (File ''old'' 493 1)"
    unfolding s_def d_def x_def y_def by code_simp+
  have "whole (Some (File ''new'' 420 1)) (fget (snd x) d)"
    using copy_every_moment [OF r(1) n] unfolding f(1) using f(3) by blast
  moreover have "fget (snd y) d = Some (File ''old'' 493 1)"
    using copy_every_moment [OF r(2) n] f(4) unfolding f(2) by (cases "fst y") auto
  ultimately show ?thesis using f(5) unfolding x_def y_def s_def d_def by blast
qed

end
