(* ===== verification/GoHeap.thy ===== *)
theory GoHeap
  imports Prelude
begin

text \<open>
  Go's memory, as far as pointers and slices are observable: addresses, allocation, slice headers with their
  backing array, \<open>make\<close> and \<open>append\<close>; and the interface \<open>deep_copy\<close> of every \<open>DeepCopyInto\<close> function, with the
  rules by which the copy of a structure is composed of the copies of its fields.
\<close>

section \<open>Memory\<close>

type_synonym addr = nat

text \<open>\<open>next_free\<close> is the first address that was never handed out; nothing is ever freed.\<close>

record 'c heap =
  cells :: "addr \<Rightarrow> 'c"
  next_free :: addr

definition go_new :: "'c \<Rightarrow> 'c heap \<Rightarrow> addr \<times> 'c heap" where
  "go_new z h =
     (next_free h, h\<lparr>cells := (cells h)(next_free h := z), next_free := Suc (next_free h)\<rparr>)"

definition store :: "addr \<Rightarrow> ('c \<Rightarrow> 'c) \<Rightarrow> 'c heap \<Rightarrow> 'c heap" where
  "store a f h = h\<lparr>cells := (cells h)(a := f (cells h a))\<rparr>"

text \<open>What is allocated in \<open>h\<close> is still there and unchanged in \<open>h'\<close>.\<close>

definition extends :: "'c heap \<Rightarrow> 'c heap \<Rightarrow> bool" where
  "extends h h' \<longleftrightarrow> next_free h \<le> next_free h' \<and> (\<forall>a < next_free h. cells h' a = cells h a)"

lemma extends_refl [simp, intro]: "extends h h"
  by (simp add: extends_def)

lemma extends_trans [trans]: "extends h h1 \<Longrightarrow> extends h1 h2 \<Longrightarrow> extends h h2"
  by (auto simp: extends_def)

lemma extends_free: "extends h h' \<Longrightarrow> next_free h \<le> next_free h'"
  by (simp add: extends_def)

lemma extends_cells: "extends h h' \<Longrightarrow> A \<subseteq> {..<next_free h} \<Longrightarrow> \<forall>a \<in> A. cells h' a = cells h a"
  by (auto simp: extends_def)

lemma go_new_fields [simp]:
  "fst (go_new z h) = next_free h" "next_free (snd (go_new z h)) = Suc (next_free h)"
  "cells (snd (go_new z h)) = (cells h)(next_free h := z)" "extends h (snd (go_new z h))"
  by (auto simp: go_new_def extends_def)

lemma go_newE:
  obtains h1 where "go_new z h = (next_free h, h1)" "next_free h1 = Suc (next_free h)"
    "cells h1 = (cells h)(next_free h := z)" "extends h h1"
  by (rule that [of "snd (go_new z h)"]) (simp_all add: prod_eq_iff)

lemma store_fields [simp]:
  "next_free (store a f h) = next_free h" "cells (store a f h) = (cells h)(a := f (cells h a))"
  by (simp_all add: store_def)

lemma extends_store: "extends h h' \<Longrightarrow> next_free h \<le> a \<Longrightarrow> extends h (store a f h')"
  by (auto simp: extends_def)

section \<open>Slices\<close>

text \<open>
  The header of a slice that is not nil: its array, where it starts in it, its length and its capacity. The
  nil slice is \<open>None\<close>.
\<close>

record slice =
  array :: addr
  offset :: nat
  slen :: nat
  scap :: nat

definition elems :: "'e list \<Rightarrow> slice \<Rightarrow> 'e list" where
  "elems xs s = take (slen s) (drop (offset s) xs)"

definition slice_ok :: "'e list \<Rightarrow> slice \<Rightarrow> bool" where
  "slice_ok xs s \<longleftrightarrow> slen s \<le> scap s \<and> offset s + scap s \<le> length xs"

text \<open>\<open>make([]T, n)\<close>: a new array of \<open>n\<close> zero values; \<open>wr\<close> puts the array into a zero cell.\<close>

definition go_make :: "('e list \<Rightarrow> 'c) \<Rightarrow> 'e \<Rightarrow> nat \<Rightarrow> 'c heap \<Rightarrow> slice \<times> 'c heap" where
  "go_make wr z n h =
     (case go_new (wr (replicate n z)) h of
        (q, h1) \<Rightarrow> (\<lparr>array = q, offset = 0, slen = n, scap = n\<rparr>, h1))"

lemma elems_length: "slice_ok xs s \<Longrightarrow> length (elems xs s) = slen s"
  by (auto simp: elems_def slice_ok_def)

lemma elems_nth: "slice_ok xs s \<Longrightarrow> i < slen s \<Longrightarrow> elems xs s ! i = xs ! (offset s + i)"
  by (simp add: elems_def slice_ok_def)

section \<open>The interface of a deep copy\<close>

text \<open>
  \<open>copy x\<close> yields the copy of the value \<open>x\<close> and the memory afterwards. \<open>content\<close> is what can be read through a
  value, \<open>foot\<close> the addresses that are reached through it, \<open>ok\<close> says that they are allocated and every
  slice is within its array. The laws: nothing that was allocated changes, the copy reads the same, is
  well-formed, and reaches new addresses only; and what is read through a value depends on the addresses it
  reaches only.
\<close>

locale deep_copy =
  fixes copy :: "'a \<Rightarrow> 'c heap \<Rightarrow> 'a \<times> 'c heap"
    and content :: "'c heap \<Rightarrow> 'a \<Rightarrow> 'd"
    and foot :: "'c heap \<Rightarrow> 'a \<Rightarrow> addr set"
    and ok :: "'c heap \<Rightarrow> 'a \<Rightarrow> bool"
  assumes ext: "copy x h = (y, h') \<Longrightarrow> ok h x \<Longrightarrow> extends h h'"
    and same: "copy x h = (y, h') \<Longrightarrow> ok h x \<Longrightarrow> content h' y = content h x"
    and fresh: "copy x h = (y, h') \<Longrightarrow> ok h x \<Longrightarrow> foot h' y \<subseteq> {next_free h..<next_free h'}"
    and okay: "copy x h = (y, h') \<Longrightarrow> ok h x \<Longrightarrow> ok h' y"
    and alloc: "ok h x \<Longrightarrow> foot h x \<subseteq> {..<next_free h}"
    and local: "\<forall>a \<in> foot h x. cells g a = cells h a \<Longrightarrow>
      content g x = content h x \<and> foot g x = foot h x \<and>
      (ok h x \<longrightarrow> next_free h \<le> next_free g \<longrightarrow> ok g x)"
begin

lemma later:
  assumes "extends h g" and "ok h x"
  shows "content g x = content h x" "foot g x = foot h x" "ok g x"
  using local [OF extends_cells [OF assms(1) alloc [OF assms(2)]]] assms extends_free by blast+

lemma apart:
  assumes "copy x h = (y, h')" and "ok h x"
  shows "foot h' y \<inter> foot h' x = {}"
  using fresh [OF assms] alloc [OF assms(2)] later [OF ext [OF assms] assms(2)] by fastforce

text \<open>Whatever is written through the copy, the original reads as before, and the other way round.\<close>

lemma write_copy:
  assumes "copy x h = (y, h')" and "ok h x" and "\<forall>a. a \<notin> foot h' y \<longrightarrow> cells g a = cells h' a"
  shows "content g x = content h x"
proof -
  have "\<forall>a \<in> foot h' x. cells g a = cells h' a" using apart [OF assms(1,2)] assms(3) by blast
  from local [OF this] show ?thesis using later [OF ext [OF assms(1,2)] assms(2)] by simp
qed

lemma write_original:
  assumes "copy x h = (y, h')" and "ok h x" and "\<forall>a. a \<notin> foot h' x \<longrightarrow> cells g a = cells h' a"
  shows "content g y = content h x"
proof -
  have "\<forall>a \<in> foot h' y. cells g a = cells h' a" using apart [OF assms(1,2)] assms(3) by blast
  from local [OF this] show ?thesis using same [OF assms(1,2)] by simp
qed

end

section \<open>Composition\<close>

text \<open>A value without pointers is copied by assignment.\<close>

definition flat_copy :: "'a \<Rightarrow> 'c heap \<Rightarrow> 'a \<times> 'c heap" where
  "flat_copy x h = (x, h)"

lemma deep_flat: "deep_copy flat_copy (\<lambda>h x. x) (\<lambda>h x. {}) (\<lambda>h x. True)"
  by unfold_locales (auto simp: flat_copy_def)

interpretation flat: deep_copy flat_copy "\<lambda>h x. x" "\<lambda>h x. {}" "\<lambda>h x. True"
  by (rule deep_flat)

text \<open>One field after another.\<close>

definition copy_both ::
    "('a \<Rightarrow> 'c heap \<Rightarrow> 'a \<times> 'c heap) \<Rightarrow> ('b \<Rightarrow> 'c heap \<Rightarrow> 'b \<times> 'c heap) \<Rightarrow>
     'a \<times> 'b \<Rightarrow> 'c heap \<Rightarrow> ('a \<times> 'b) \<times> 'c heap" where
  "copy_both c1 c2 p h =
     (case c1 (fst p) h of (x, h1) \<Rightarrow> case c2 (snd p) h1 of (y, h2) \<Rightarrow> ((x, y), h2))"

lemma deep_both:
  assumes "deep_copy (c1 :: 'a \<Rightarrow> 'c heap \<Rightarrow> 'a \<times> 'c heap) v1 f1 k1" and "deep_copy c2 v2 f2 k2"
  shows "deep_copy (copy_both c1 c2) (\<lambda>h p. (v1 h (fst p), v2 h (snd p)))
    (\<lambda>h p. f1 h (fst p) \<union> f2 h (snd p)) (\<lambda>h p. k1 h (fst p) \<and> k2 h (snd p))"
proof
  fix p h q h'
  assume c: "copy_both c1 c2 p h = (q, h')" and k: "k1 h (fst p) \<and> k2 h (snd p)"
  obtain h1 where 1: "c1 (fst p) h = (fst q, h1)" and 2: "c2 (snd p) h1 = (snd q, h')"
    using c by (auto simp: copy_both_def split: prod.splits)
  note A = deep_copy.ext [OF assms(1) 1] deep_copy.same [OF assms(1) 1] deep_copy.fresh [OF assms(1) 1]
    deep_copy.okay [OF assms(1) 1]
  have k1: "k1 h (fst p)" and k2: "k2 h1 (snd p)"
    using k deep_copy.later(3) [OF assms(2)] A(1) by blast+
  note B = deep_copy.ext [OF assms(2) 2 k2] deep_copy.same [OF assms(2) 2 k2]
    deep_copy.fresh [OF assms(2) 2 k2] deep_copy.okay [OF assms(2) 2 k2]
  note L = deep_copy.later [OF assms(1) B(1) A(4) [OF k1]]
  show "extends h h'" using A(1) [OF k1] B(1) by (rule extends_trans)
  show "(v1 h' (fst q), v2 h' (snd q)) = (v1 h (fst p), v2 h (snd p))"
    using A(2) [OF k1] B(2) L(1) deep_copy.later(1) [OF assms(2) A(1) [OF k1]] k by simp
  show "f1 h' (fst q) \<union> f2 h' (snd q) \<subseteq> {next_free h..<next_free h'}"
    using A(3) [OF k1] B(3) L(2) extends_free [OF A(1) [OF k1]] extends_free [OF B(1)] by fastforce
  show "k1 h' (fst q) \<and> k2 h' (snd q)" using L(3) B(4) by simp
next
  fix p h
  assume "k1 h (fst p) \<and> k2 h (snd p)"
  then show "f1 h (fst p) \<union> f2 h (snd p) \<subseteq> {..<next_free h}"
    using deep_copy.alloc [OF assms(1)] deep_copy.alloc [OF assms(2)] by blast
next
  fix p and h g :: "'c heap"
  assume "\<forall>a \<in> f1 h (fst p) \<union> f2 h (snd p). cells g a = cells h a"
  then show "(v1 g (fst p), v2 g (snd p)) = (v1 h (fst p), v2 h (snd p)) \<and>
      f1 g (fst p) \<union> f2 g (snd p) = f1 h (fst p) \<union> f2 h (snd p) \<and>
      (k1 h (fst p) \<and> k2 h (snd p) \<longrightarrow> next_free h \<le> next_free g \<longrightarrow> k1 g (fst p) \<and> k2 g (snd p))"
    using deep_copy.local [OF assms(1), of h "fst p" g] deep_copy.local [OF assms(2), of h "snd p" g]
    by blast
qed

text \<open>A structure is copied by copying the tuple of its fields.\<close>

lemma deep_via:
  assumes d: "deep_copy (c :: 'b \<Rightarrow> 'c heap \<Rightarrow> 'b \<times> 'c heap) v f k"
    and c': "\<And>x h. c' x h = (case c (tup x) h of (t, h') \<Rightarrow> (build x t, h'))"
    and inv: "\<And>x t. tup (build x t) = t"
  shows "deep_copy c' (\<lambda>h x. v h (tup x)) (\<lambda>h x. f h (tup x)) (\<lambda>h x. k h (tup x))"
proof
  fix x h y h'
  assume "c' x h = (y, h')" and k: "k h (tup x)"
  then have c: "c (tup x) h = (tup y, h')" by (auto simp: c' inv split: prod.splits)
  show "extends h h'" "v h' (tup y) = v h (tup x)" "f h' (tup y) \<subseteq> {next_free h..<next_free h'}" "k h' (tup y)"
    using deep_copy.ext [OF d c k] deep_copy.same [OF d c k] deep_copy.fresh [OF d c k]
      deep_copy.okay [OF d c k] by simp_all
next
  fix x h
  assume "k h (tup x)"
  then show "f h (tup x) \<subseteq> {..<next_free h}" by (rule deep_copy.alloc [OF d])
next
  fix x and h g :: "'c heap"
  assume "\<forall>a \<in> f h (tup x). cells g a = cells h a"
  then show "v g (tup x) = v h (tup x) \<and> f g (tup x) = f h (tup x) \<and>
      (k h (tup x) \<longrightarrow> next_free h \<le> next_free g \<longrightarrow> k g (tup x))"
    by (rule deep_copy.local [OF d])
qed

text \<open>A pointer or a slice that may be nil: \<^verbatim>\<open>if in.P != nil { ... }\<close>.\<close>

definition copy_opt ::
    "('a \<Rightarrow> 'c heap \<Rightarrow> 'a \<times> 'c heap) \<Rightarrow> 'a option \<Rightarrow> 'c heap \<Rightarrow> 'a option \<times> 'c heap" where
  "copy_opt c p h =
     (case p of None \<Rightarrow> (None, h) | Some x \<Rightarrow> (case c x h of (y, h') \<Rightarrow> (Some y, h')))"

lemma deep_opt:
  assumes d: "deep_copy (c :: 'a \<Rightarrow> 'c heap \<Rightarrow> 'a \<times> 'c heap) v f k"
  shows "deep_copy (copy_opt c) (\<lambda>h. map_option (v h)) (\<lambda>h p. case p of None \<Rightarrow> {} | Some x \<Rightarrow> f h x)
    (\<lambda>h p. case p of None \<Rightarrow> True | Some x \<Rightarrow> k h x)"
proof
  fix p h q h'
  assume c: "copy_opt c p h = (q, h')" and k: "case p of None \<Rightarrow> True | Some x \<Rightarrow> k h x"
  have "extends h h' \<and> map_option (v h') q = map_option (v h) p \<and>
      (case q of None \<Rightarrow> {} | Some x \<Rightarrow> f h' x) \<subseteq> {next_free h..<next_free h'} \<and>
      (case q of None \<Rightarrow> True | Some x \<Rightarrow> k h' x)"
  proof (cases p)
    case None
    with c show ?thesis by (auto simp: copy_opt_def)
  next
    case (Some x)
    with c obtain y where q: "q = Some y" and y: "c x h = (y, h')"
      by (auto simp: copy_opt_def split: prod.splits)
    have "k h x" using k Some by simp
    with deep_copy.ext [OF d y] deep_copy.same [OF d y] deep_copy.fresh [OF d y] deep_copy.okay [OF d y]
    show ?thesis using q Some by simp
  qed
  then show "extends h h'" "map_option (v h') q = map_option (v h) p"
    "(case q of None \<Rightarrow> {} | Some x \<Rightarrow> f h' x) \<subseteq> {next_free h..<next_free h'}"
    "case q of None \<Rightarrow> True | Some x \<Rightarrow> k h' x" by blast+
next
  fix p h
  assume "case p of None \<Rightarrow> True | Some x \<Rightarrow> k h x"
  then show "(case p of None \<Rightarrow> {} | Some x \<Rightarrow> f h x) \<subseteq> {..<next_free h}"
    using deep_copy.alloc [OF d] by (cases p) auto
next
  fix p and h g :: "'c heap"
  assume "\<forall>a \<in> (case p of None \<Rightarrow> {} | Some x \<Rightarrow> f h x). cells g a = cells h a"
  then show "map_option (v g) p = map_option (v h) p \<and>
      (case p of None \<Rightarrow> {} | Some x \<Rightarrow> f g x) = (case p of None \<Rightarrow> {} | Some x \<Rightarrow> f h x) \<and>
      ((case p of None \<Rightarrow> True | Some x \<Rightarrow> k h x) \<longrightarrow> next_free h \<le> next_free g \<longrightarrow>
       (case p of None \<Rightarrow> True | Some x \<Rightarrow> k g x))"
    using deep_copy.local [OF d, of h _ g] by (cases p) auto
qed

text \<open>A pointer: \<^verbatim>\<open>*out = new(T); (*in).DeepCopyInto(*out)\<close>.\<close>

definition copy_ptr ::
    "('c \<Rightarrow> 'a) \<Rightarrow> ('a \<Rightarrow> 'c \<Rightarrow> 'c) \<Rightarrow> 'c \<Rightarrow> ('a \<Rightarrow> 'c heap \<Rightarrow> 'a \<times> 'c heap) \<Rightarrow>
     addr \<Rightarrow> 'c heap \<Rightarrow> addr \<times> 'c heap" where
  "copy_ptr rd wr z c p h =
     (case go_new z h of (q, h1) \<Rightarrow>
        (case c (rd (cells h1 p)) h1 of (y, h2) \<Rightarrow> (q, store q (wr y) h2)))"

lemma deep_ptr:
  assumes d: "deep_copy (c :: 'a \<Rightarrow> 'c heap \<Rightarrow> 'a \<times> 'c heap) v f k" and rw: "\<And>x z. rd (wr x z) = x"
  shows "deep_copy (copy_ptr rd wr z c) (\<lambda>h p. v h (rd (cells h p)))
    (\<lambda>h p. insert p (f h (rd (cells h p)))) (\<lambda>h p. p < next_free h \<and> k h (rd (cells h p)))"
proof
  fix p h q h'
  assume c: "copy_ptr rd wr z c p h = (q, h')" and kp: "p < next_free h \<and> k h (rd (cells h p))"
  let ?x = "rd (cells h p)"
  obtain h1 where new: "go_new z h = (next_free h, h1)" and n1: "next_free h1 = Suc (next_free h)"
    and c1: "cells h1 = (cells h)(next_free h := z)" and e1: "extends h h1"
    by (rule go_newE)
  obtain y h2 where y: "c ?x h1 = (y, h2)" by (rule prod.exhaust)
  have "cells h1 p = cells h p" using kp c1 by simp
  then have q: "q = next_free h" and h': "h' = store q (wr y) h2"
    using c y new by (auto simp: copy_ptr_def)
  have k: "k h1 ?x" and v: "v h1 ?x = v h ?x"
    using deep_copy.later [OF d e1] kp by simp_all
  note A = deep_copy.ext [OF d y k] deep_copy.same [OF d y k] deep_copy.fresh [OF d y k]
    deep_copy.okay [OF d y k]
  have qn: "q \<notin> f h2 y" using A(3) q n1 by auto
  then have "\<forall>a \<in> f h2 y. cells h' a = cells h2 a" by (auto simp: h')
  from deep_copy.local [OF d this]
  have L: "v h' y = v h2 y" "f h' y = f h2 y" "k h2 y \<Longrightarrow> k h' y" by (simp_all add: h')
  have r: "rd (cells h' q) = y" by (simp add: h' rw)
  show "extends h h'"
    unfolding h' q using extends_trans [OF e1 A(1)] by (rule extends_store) simp
  show "v h' (rd (cells h' q)) = v h ?x" using L(1) A(2) v by (simp add: r)
  show "insert q (f h' (rd (cells h' q))) \<subseteq> {next_free h..<next_free h'}"
    using A(3) extends_free [OF A(1)] n1 unfolding r L(2) by (auto simp: q h')
  show "q < next_free h' \<and> k h' (rd (cells h' q))"
    using L(3) [OF A(4)] extends_free [OF A(1)] n1 unfolding r by (auto simp: q h')
next
  fix p h
  assume "p < next_free h \<and> k h (rd (cells h p))"
  then show "insert p (f h (rd (cells h p))) \<subseteq> {..<next_free h}" using deep_copy.alloc [OF d] by auto
next
  fix p and h g :: "'c heap"
  assume a: "\<forall>a \<in> insert p (f h (rd (cells h p))). cells g a = cells h a"
  then have "cells g p = cells h p" by simp
  with a deep_copy.local [OF d, of h "rd (cells h p)" g]
  show "v g (rd (cells g p)) = v h (rd (cells h p)) \<and>
      insert p (f g (rd (cells g p))) = insert p (f h (rd (cells h p))) \<and>
      (p < next_free h \<and> k h (rd (cells h p)) \<longrightarrow> next_free h \<le> next_free g \<longrightarrow>
       p < next_free g \<and> k g (rd (cells g p)))" by auto
qed

text \<open>
  A slice whose elements are copied one by one:
  \<^verbatim>\<open>*out = make([]T, len(*in)); for i := range *in { (*in)[i].DeepCopyInto(&(*out)[i]) }\<close>.
\<close>

definition copy_elem ::
    "('c \<Rightarrow> 'e list) \<Rightarrow> ('e list \<Rightarrow> 'c \<Rightarrow> 'c) \<Rightarrow> ('e \<Rightarrow> 'c heap \<Rightarrow> 'e \<times> 'c heap) \<Rightarrow> slice \<Rightarrow> slice \<Rightarrow>
     nat \<Rightarrow> 'c heap \<Rightarrow> 'c heap" where
  "copy_elem rd wr c inp out i h =
     (case c (rd (cells h (array inp)) ! (offset inp + i)) h of
        (y, h1) \<Rightarrow> store (array out) (\<lambda>cell. wr ((rd cell)[offset out + i := y]) cell) h1)"

definition copy_slice ::
    "('c \<Rightarrow> 'e list) \<Rightarrow> ('e list \<Rightarrow> 'c \<Rightarrow> 'c) \<Rightarrow> 'c \<Rightarrow> 'e \<Rightarrow> ('e \<Rightarrow> 'c heap \<Rightarrow> 'e \<times> 'c heap) \<Rightarrow>
     slice \<Rightarrow> 'c heap \<Rightarrow> slice \<times> 'c heap" where
  "copy_slice rd wr z e0 c inp h =
     (case go_make (\<lambda>xs. wr xs z) e0 (slen inp) h of
        (out, h1) \<Rightarrow> (out, fold (copy_elem rd wr c inp out) [0..<slen inp] h1))"

text \<open>A slice of values without pointers: \<^verbatim>\<open>*out = make([]T, len(*in)); copy(*out, *in)\<close>.\<close>

definition go_copy ::
    "('c \<Rightarrow> 'e list) \<Rightarrow> ('e list \<Rightarrow> 'c \<Rightarrow> 'c) \<Rightarrow> slice \<Rightarrow> slice \<Rightarrow> 'c heap \<Rightarrow> 'c heap" where
  "go_copy rd wr dst src h =
     (let n = min (slen dst) (slen src); xs = take n (elems (rd (cells h (array src))) src)
      in store (array dst) (\<lambda>cell. wr (take (offset dst) (rd cell) @ xs @ drop (offset dst + n) (rd cell)) cell) h)"

definition copy_flat_slice ::
    "('c \<Rightarrow> 'e list) \<Rightarrow> ('e list \<Rightarrow> 'c \<Rightarrow> 'c) \<Rightarrow> 'c \<Rightarrow> 'e \<Rightarrow> slice \<Rightarrow> 'c heap \<Rightarrow> slice \<times> 'c heap" where
  "copy_flat_slice rd wr z e0 inp h =
     (case go_make (\<lambda>xs. wr xs z) e0 (slen inp) h of (out, h1) \<Rightarrow> (out, go_copy rd wr out inp h1))"

definition slice_content :: "('c \<Rightarrow> 'e list) \<Rightarrow> ('c heap \<Rightarrow> 'e \<Rightarrow> 'd) \<Rightarrow> 'c heap \<Rightarrow> slice \<Rightarrow> 'd list" where
  "slice_content rd v h s = map (v h) (elems (rd (cells h (array s))) s)"

definition slice_foot :: "('c \<Rightarrow> 'e list) \<Rightarrow> ('c heap \<Rightarrow> 'e \<Rightarrow> addr set) \<Rightarrow> 'c heap \<Rightarrow> slice \<Rightarrow> addr set" where
  "slice_foot rd f h s = insert (array s) (\<Union> (f h ` set (elems (rd (cells h (array s))) s)))"

definition slice_wf :: "('c \<Rightarrow> 'e list) \<Rightarrow> ('c heap \<Rightarrow> 'e \<Rightarrow> bool) \<Rightarrow> 'c heap \<Rightarrow> slice \<Rightarrow> bool" where
  "slice_wf rd k h s \<longleftrightarrow> array s < next_free h \<and> slice_ok (rd (cells h (array s))) s \<and>
     list_all (k h) (elems (rd (cells h (array s))) s)"

lemma slice_local:
  assumes d: "deep_copy (c :: 'e \<Rightarrow> 'c heap \<Rightarrow> 'e \<times> 'c heap) v f k"
    and a: "\<forall>a \<in> slice_foot rd f h s. cells g a = cells h a"
  shows "slice_content rd v g s = slice_content rd v h s \<and> slice_foot rd f g s = slice_foot rd f h s \<and>
    (slice_wf rd k h s \<longrightarrow> next_free h \<le> next_free g \<longrightarrow> slice_wf rd k g s)"
proof -
  have 0: "cells g (array s) = cells h (array s)" using a by (simp add: slice_foot_def)
  have 1: "v g x = v h x" "f g x = f h x" "k h x \<Longrightarrow> next_free h \<le> next_free g \<Longrightarrow> k g x"
    if "x \<in> set (elems (rd (cells h (array s))) s)" for x
    using deep_copy.local [OF d, of h x g] a that by (auto simp: slice_foot_def)
  have "slice_content rd v g s = slice_content rd v h s" using 1(1) by (simp add: slice_content_def 0)
  moreover have "slice_foot rd f g s = slice_foot rd f h s" using 1(2) by (simp add: slice_foot_def 0)
  moreover have "slice_wf rd k h s \<Longrightarrow> next_free h \<le> next_free g \<Longrightarrow> slice_wf rd k g s"
    using 1(3) by (auto simp: slice_wf_def 0 list_all_iff)
  ultimately show ?thesis by blast
qed

lemma slice_alloc:
  assumes "deep_copy (c :: 'e \<Rightarrow> 'c heap \<Rightarrow> 'e \<times> 'c heap) v f k" and "slice_wf rd k h s"
  shows "slice_foot rd f h s \<subseteq> {..<next_free h}"
  using assms(2) deep_copy.alloc [OF assms(1)]
  by (fastforce simp: slice_wf_def slice_foot_def list_all_iff)

text \<open>The loop after \<open>n\<close> elements.\<close>

lemma copy_elems_inv:
  fixes c :: "'e \<Rightarrow> 'c heap \<Rightarrow> 'e \<times> 'c heap"
  assumes d: "deep_copy c v f k" and rw: "\<And>x z. rd (wr x z) = x" and wf: "slice_wf rd k h inp"
    and out: "out = \<lparr>array = next_free h, offset = 0, slen = m, scap = m\<rparr>"
    and h1: "extends h h1" "next_free h1 = Suc (next_free h)"
      "rd (cells h1 (next_free h)) = replicate m e0"
    and n: "n \<le> slen inp" "m = slen inp"
  shows "\<exists>ys. length ys = n \<and>
    (let g = fold (copy_elem rd wr c inp out) [0..<n] h1 in
     extends h g \<and> next_free h1 \<le> next_free g \<and>
     rd (cells g (next_free h)) = ys @ replicate (m - n) e0 \<and>
     (\<forall>i < n. v g (ys ! i) = v h (elems (rd (cells h (array inp))) inp ! i) \<and>
        f g (ys ! i) \<subseteq> {Suc (next_free h)..<next_free g} \<and> k g (ys ! i)))"
  using n(1)
proof (induction n)
  case 0
  then show ?case using h1 by simp
next
  case (Suc n)
  let ?xs = "elems (rd (cells h (array inp))) inp" and ?q = "next_free h"
  define g where "g = fold (copy_elem rd wr c inp out) [0..<n] h1"
  obtain ys where ys: "length ys = n" "extends h g" "Suc ?q \<le> next_free g"
      "rd (cells g ?q) = ys @ replicate (m - n) e0"
      "\<And>i. i < n \<Longrightarrow> v g (ys ! i) = v h (?xs ! i) \<and> f g (ys ! i) \<subseteq> {Suc ?q..<next_free g} \<and> k g (ys ! i)"
    using Suc h1(2) unfolding g_def Let_def by (auto simp del: fold_simps)
  have len: "n < slen inp" using Suc.prems by simp
  have arr: "cells g (array inp) = cells h (array inp)"
    using wf ys(2) by (simp add: slice_wf_def extends_def)
  have xn: "rd (cells g (array inp)) ! (offset inp + n) = ?xs ! n"
    using wf len by (simp add: arr slice_wf_def elems_nth)
  have kx: "k h (?xs ! n)"
    using wf len by (auto simp: slice_wf_def list_all_iff elems_length)
  note kg = deep_copy.later [OF d ys(2) kx]
  obtain y g2 where y: "c (?xs ! n) g = (y, g2)" by (rule prod.exhaust)
  note A = deep_copy.ext [OF d y kg(3)] deep_copy.same [OF d y kg(3)] deep_copy.fresh [OF d y kg(3)]
    deep_copy.okay [OF d y kg(3)]
  define g' where "g' = fold (copy_elem rd wr c inp out) [0..<Suc n] h1"
  have q2: "cells g2 ?q = cells g ?q" using A(1) ys(3) by (simp add: extends_def)
  have g': "g' = store ?q (\<lambda>cell. wr ((rd cell)[n := y]) cell) g2"
  proof -
    have "g' = copy_elem rd wr c inp out n g" by (simp add: g'_def g_def)
    then show ?thesis by (simp add: copy_elem_def xn y out)
  qed
  have off: "cells g' a = cells g2 a" if "a \<noteq> ?q" for a using that by (simp add: g')
  have free: "next_free g' = next_free g2" by (simp add: g')
  have keep: "v g' z = v g2 z" "f g' z = f g2 z" "k g2 z \<Longrightarrow> k g' z" if "?q \<notin> f g2 z" for z
    using deep_copy.local [OF d, of g2 z g'] off free that by (metis le_refl)+
  have arr': "rd (cells g' ?q) = (ys @ [y]) @ replicate (m - Suc n) e0"
    using ys(1,4) n(2) len q2
    by (simp add: g' rw list_update_append Suc_diff_Suc [symmetric] del: Suc_diff_Suc)
  have el: "v g' (ys ! i) = v h (?xs ! i) \<and> f g' (ys ! i) \<subseteq> {Suc ?q..<next_free g'} \<and> k g' (ys ! i)"
    if i: "i < n" for i
  proof -
    note l = deep_copy.later [OF d A(1), of "ys ! i"]
    have ki: "k g (ys ! i)" using ys(5) [OF i] by blast
    have fi: "f g2 (ys ! i) \<subseteq> {Suc ?q..<next_free g}" using l(2) [OF ki] ys(5) [OF i] by simp
    then have "?q \<notin> f g2 (ys ! i)" by auto
    note K = keep [OF this]
    show ?thesis
      using K(1) K(2) K(3) [OF l(3) [OF ki]] l(1) [OF ki] ys(5) [OF i] fi extends_free [OF A(1)] free
      by fastforce
  qed
  have new: "v g' y = v h (?xs ! n) \<and> f g' y \<subseteq> {Suc ?q..<next_free g'} \<and> k g' y"
  proof -
    have "?q \<notin> f g2 y" using A(3) ys(3) by auto
    note K = keep [OF this]
    show ?thesis using K(1) K(2) K(3) [OF A(4)] A(2,3) kg(1) free ys(3) by fastforce
  qed
  have "extends h g'" unfolding g' using extends_trans [OF ys(2) A(1)] by (rule extends_store) simp
  moreover have "next_free h1 \<le> next_free g'" using h1(2) ys(3) extends_free [OF A(1)] free by simp
  moreover have "v g' ((ys @ [y]) ! i) = v h (?xs ! i) \<and> f g' ((ys @ [y]) ! i) \<subseteq> {Suc ?q..<next_free g'}
      \<and> k g' ((ys @ [y]) ! i)" if "i < Suc n" for i
    using el [of i] new that ys(1) by (cases "i < n") (auto simp: nth_append less_Suc_eq)
  ultimately show ?case
    unfolding g'_def [symmetric] Let_def using ys(1) arr' by (intro exI [of _ "ys @ [y]"]) simp
qed

lemma deep_slice:
  fixes c :: "'e \<Rightarrow> 'c heap \<Rightarrow> 'e \<times> 'c heap"
  assumes d: "deep_copy c v f k" and rw: "\<And>x z. rd (wr x z) = x"
  shows "deep_copy (copy_slice rd wr z e0 c) (slice_content rd v) (slice_foot rd f) (slice_wf rd k)"
proof
  fix inp out h h'
  assume c: "copy_slice rd wr z e0 c inp h = (out, h')" and wf: "slice_wf rd k h inp"
  let ?xs = "elems (rd (cells h (array inp))) inp"
  obtain h1 where new: "go_new (wr (replicate (slen inp) e0) z) h = (next_free h, h1)"
    and h1: "next_free h1 = Suc (next_free h)"
      "cells h1 = (cells h)(next_free h := wr (replicate (slen inp) e0) z)" "extends h h1"
    by (rule go_newE)
  have out: "out = \<lparr>array = next_free h, offset = 0, slen = slen inp, scap = slen inp\<rparr>"
    and h': "h' = fold (copy_elem rd wr c inp out) [0..<slen inp] h1"
    using c by (auto simp: copy_slice_def go_make_def new)
  have "rd (cells h1 (next_free h)) = replicate (slen inp) e0" by (simp add: h1 rw)
  from copy_elems_inv [where wr = wr, OF d rw wf out h1(3,1) this order_refl refl]
  obtain ys where ys: "length ys = slen inp" "extends h h'" "Suc (next_free h) \<le> next_free h'"
      "rd (cells h' (next_free h)) = ys"
      "\<And>i. i < slen inp \<Longrightarrow> v h' (ys ! i) = v h (?xs ! i) \<and>
        f h' (ys ! i) \<subseteq> {Suc (next_free h)..<next_free h'} \<and> k h' (ys ! i)"
    unfolding h' [symmetric] by (auto simp: Let_def h1(1))
  have el: "elems (rd (cells h' (array out))) out = ys" using ys(1) by (simp add: ys(4) out elems_def)
  have len: "length ?xs = slen inp" using wf by (simp add: slice_wf_def elems_length)
  show "extends h h'" by (rule ys(2))
  have "map (v h') ys = map (v h) ?xs" using ys(5) by (simp add: list_eq_iff_nth_eq ys(1) len)
  then show "slice_content rd v h' out = slice_content rd v h inp"
    unfolding slice_content_def el .
  have "\<Union> (f h' ` set ys) \<subseteq> {Suc (next_free h)..<next_free h'}"
    using ys(5) unfolding set_conv_nth ys(1) by blast
  then show "slice_foot rd f h' out \<subseteq> {next_free h..<next_free h'}"
    using ys(3) unfolding slice_foot_def el by (auto simp: out)
  show "slice_wf rd k h' out"
    using ys(1,3,5) unfolding slice_wf_def el by (auto simp: out ys(4) slice_ok_def list_all_length)
next
  fix inp h
  assume "slice_wf rd k h inp"
  then show "slice_foot rd f h inp \<subseteq> {..<next_free h}" by (rule slice_alloc [OF d])
next
  fix inp and h g :: "'c heap"
  assume "\<forall>a \<in> slice_foot rd f h inp. cells g a = cells h a"
  then show "slice_content rd v g inp = slice_content rd v h inp \<and>
      slice_foot rd f g inp = slice_foot rd f h inp \<and>
      (slice_wf rd k h inp \<longrightarrow> next_free h \<le> next_free g \<longrightarrow> slice_wf rd k g inp)"
    by (rule slice_local [OF d])
qed

lemma deep_flat_slice:
  fixes rd :: "'c \<Rightarrow> 'e list"
  assumes rw: "\<And>x z. rd (wr x z) = x"
  shows "deep_copy (copy_flat_slice rd wr z e0) (slice_content rd (\<lambda>h x. x)) (slice_foot rd (\<lambda>h x. {}))
    (slice_wf rd (\<lambda>h x. True))"
proof
  fix inp out and h h' :: "'c heap"
  assume c: "copy_flat_slice rd wr z e0 inp h = (out, h')" and wf: "slice_wf rd (\<lambda>h x. True) h inp"
  let ?xs = "elems (rd (cells h (array inp))) inp"
  obtain h1 where new: "go_new (wr (replicate (slen inp) e0) z) h = (next_free h, h1)"
    and h1: "next_free h1 = Suc (next_free h)"
      "cells h1 = (cells h)(next_free h := wr (replicate (slen inp) e0) z)" "extends h h1"
    by (rule go_newE)
  have out: "out = \<lparr>array = next_free h, offset = 0, slen = slen inp, scap = slen inp\<rparr>"
    and h': "h' = go_copy rd wr out inp h1"
    using c by (auto simp: copy_flat_slice_def go_make_def new)
  have len: "length ?xs = slen inp" using wf by (simp add: slice_wf_def elems_length)
  have "cells h1 (array inp) = cells h (array inp)" using wf h1(2) by (simp add: slice_wf_def)
  then have r: "rd (cells h' (next_free h)) = ?xs"
    using len by (simp add: h' go_copy_def out rw h1(2))
  have el: "elems (rd (cells h' (array out))) out = ?xs" using len by (simp add: out r elems_def)
  have n: "next_free h' = Suc (next_free h)" by (simp add: h' go_copy_def Let_def h1(1))
  show "extends h h'"
    unfolding h' go_copy_def Let_def using h1(3) by (rule extends_store) (simp add: out)
  show "slice_content rd (\<lambda>h x. x) h' out = slice_content rd (\<lambda>h x. x) h inp"
    unfolding slice_content_def el ..
  show "slice_foot rd (\<lambda>h x. {}) h' out \<subseteq> {next_free h..<next_free h'}"
    by (auto simp: slice_foot_def out n)
  show "slice_wf rd (\<lambda>h x. True) h' out"
    unfolding slice_wf_def using len by (simp add: out n r slice_ok_def list_all_iff)
next
  fix inp and h :: "'c heap"
  assume "slice_wf rd (\<lambda>h x. True) h inp"
  then show "slice_foot rd (\<lambda>h x. {}) h inp \<subseteq> {..<next_free h}" by (rule slice_alloc [OF deep_flat])
next
  fix inp and h g :: "'c heap"
  assume "\<forall>a \<in> slice_foot rd (\<lambda>h x. {}) h inp. cells g a = cells h a"
  then show "slice_content rd (\<lambda>h x. x) g inp = slice_content rd (\<lambda>h x. x) h inp \<and>
      slice_foot rd (\<lambda>h x. {}) g inp = slice_foot rd (\<lambda>h x. {}) h inp \<and>
      (slice_wf rd (\<lambda>h x. True) h inp \<longrightarrow> next_free h \<le> next_free g \<longrightarrow>
       slice_wf rd (\<lambda>h x. True) g inp)"
    by (rule slice_local [OF deep_flat])
qed

section \<open>append\<close>

text \<open>
  \<open>append(s, x)\<close>: in place when the capacity allows it, so that the array is shared with every other slice of
  it; otherwise into a new array. The language leaves the new capacity to the runtime, as long as it is
  enough: \<open>grow n\<close> is what the runtime chooses for \<open>n\<close> elements. \<open>e0\<close> is the zero value.
\<close>

definition slice_list :: "('c \<Rightarrow> 'e list) \<Rightarrow> 'c heap \<Rightarrow> slice option \<Rightarrow> 'e list" where
  "slice_list rd h s = (case s of None \<Rightarrow> [] | Some sl \<Rightarrow> elems (rd (cells h (array sl))) sl)"

definition has_room :: "slice option \<Rightarrow> bool" where
  "has_room s = (case s of None \<Rightarrow> False | Some sl \<Rightarrow> slen sl < scap sl)"

definition go_append ::
    "(nat \<Rightarrow> nat) \<Rightarrow> ('c \<Rightarrow> 'e list) \<Rightarrow> ('e list \<Rightarrow> 'c \<Rightarrow> 'c) \<Rightarrow> 'c \<Rightarrow> 'e \<Rightarrow>
     slice option \<Rightarrow> 'e \<Rightarrow> 'c heap \<Rightarrow> slice option \<times> 'c heap" where
  "go_append grow rd wr z e0 s x h =
     (if has_room s
      then (let sl = the s in
        (Some (sl\<lparr>slen := Suc (slen sl)\<rparr>),
         store (array sl) (\<lambda>cell. wr ((rd cell)[offset sl + slen sl := x]) cell) h))
      else (let xs = slice_list rd h s; n = Suc (length xs); c = max n (grow n) in
        (case go_new (wr (xs @ x # replicate (c - n) e0) z) h of
           (q, h1) \<Rightarrow> (Some \<lparr>array = q, offset = 0, slen = n, scap = c\<rparr>, h1))))"

end
