(* ===== verification/DeepCopy.thy ===== *)
theory DeepCopy
  imports GoHeap KubeTypes
begin

text \<open>
  The deep copies of \<open>api/v1/behavior_stub_types.go\<close> and \<open>api/v1/zz_generated.deepcopy.go\<close>. The informer
  caches of the manager hand out these copies, and the controller writes into them, so a copy must not share
  memory with what it was copied from. Here the objects are what they are in Go's memory: structures with
  pointers and slices. The structures of the Kubernetes libraries are values of a type \<open>'v\<close>, and their own
  \<open>DeepCopyInto\<close> functions are a parameter.
\<close>

section \<open>Memory layout\<close>

record 'v SpecMem =
  mTargetSelector :: 'v
  mSidecarImage :: string
  mSidecarResources :: "addr option"
  mScriptVolume :: ScriptVolume
  mBehaviors :: "slice option"
  mAdvanced :: "addr option"

record StatusMem =
  mPhase :: string
  mInjectedPods :: int32
  mTotalPods :: int32
  mLastUpdateTime :: "addr option"
  mConditions :: "slice option"

record 'v StubMem =
  mTypeMeta :: "string \<times> string"
  mObjectMeta :: 'v
  mSpec :: "'v SpecMem"
  mStatus :: StatusMem

record 'v ListMem =
  mlTypeMeta :: "string \<times> string"
  mListMeta :: 'v
  mItems :: "slice option"

text \<open>
  What an address can hold, one slot per type; a program uses an address at one type only. \<open>asLib\<close> holds a
  structure of a library, \<open>asConditions\<close> an array of conditions.
\<close>

record 'v cell =
  asLib :: 'v
  asConditions :: "'v list"
  asBehaviors :: "Behavior list"
  asAdvanced :: AdvancedConfig
  asSpec :: "'v SpecMem"
  asStatus :: StatusMem
  asStub :: "'v StubMem"
  asStubs :: "'v StubMem list"
  asStubList :: "'v ListMem"

type_synonym 'v memory = "'v cell heap"

text \<open>
  The libraries: the zero value of a structure, \<open>DeepCopyInto\<close> as the value it writes to \<open>*out\<close>, and
  \<open>(*metav1.Time).DeepCopy\<close>.
\<close>

record 'v k8s =
  ZeroOf :: 'v
  LibDeepCopyInto :: "'v \<Rightarrow> 'v memory \<Rightarrow> 'v \<times> 'v memory"
  TimeDeepCopy :: "addr \<Rightarrow> 'v memory \<Rightarrow> addr \<times> 'v memory"

section \<open>Zero values\<close>

definition zero_behavior :: Behavior where
  "zero_behavior = \<lparr>bName = '''', TargetPath = '''', ScriptPath = '''', bEnableLogging = False, LogPath = ''''\<rparr>"

definition zero_spec :: "'v \<Rightarrow> 'v SpecMem" where
  "zero_spec z = \<lparr>mTargetSelector = z, mSidecarImage = '''', mSidecarResources = None,
     mScriptVolume = \<lparr>HostPath = '''', MountPath = ''''\<rparr>, mBehaviors = None, mAdvanced = None\<rparr>"

definition zero_status :: StatusMem where
  "zero_status = \<lparr>mPhase = '''', mInjectedPods = 0, mTotalPods = 0, mLastUpdateTime = None, mConditions = None\<rparr>"

definition zero_stub :: "'v \<Rightarrow> 'v StubMem" where
  "zero_stub z = \<lparr>mTypeMeta = ('''', ''''), mObjectMeta = z, mSpec = zero_spec z, mStatus = zero_status\<rparr>"

definition zero_cell :: "'v k8s \<Rightarrow> 'v cell" where
  "zero_cell k = (let z = ZeroOf k in
     \<lparr>asLib = z, asConditions = [], asBehaviors = [],
      asAdvanced = \<lparr>aEnableLogging = False, SyncIntervalSeconds = 0\<rparr>, asSpec = zero_spec z,
      asStatus = zero_status, asStub = zero_stub z, asStubs = [],
      asStubList = \<lparr>mlTypeMeta = ('''', ''''), mListMeta = z, mItems = None\<rparr>\<rparr>)"

section \<open>BehaviorStubSpec and BehaviorStubStatus\<close>

text \<open>
  \<open>DeepCopyInto\<close> yields what it writes to \<open>*out\<close>, which is memory of its own in every call of the
  code. A block \<^verbatim>\<open>if in.F != nil { in, out := &in.F, &out.F; ... }\<close> replaces the field \<open>F\<close> of the output.
\<close>

definition copy_Resources :: "'v k8s \<Rightarrow> addr \<Rightarrow> 'v memory \<Rightarrow> addr \<times> 'v memory" where
  "copy_Resources k inp h =
     (case go_new (zero_cell k) h of
        (out, h1) \<Rightarrow> (case LibDeepCopyInto k (asLib (cells h1 inp)) h1 of
          (v, h2) \<Rightarrow> (out, store out (asLib_update (\<lambda>_. v)) h2)))"

definition copy_Behaviors :: "'v k8s \<Rightarrow> slice \<Rightarrow> 'v memory \<Rightarrow> slice \<times> 'v memory" where
  "copy_Behaviors k inp h =
     (case go_make (\<lambda>xs. (zero_cell k)\<lparr>asBehaviors := xs\<rparr>) zero_behavior (slen inp) h of
        (out, h1) \<Rightarrow> (out, go_copy asBehaviors (\<lambda>xs. asBehaviors_update (\<lambda>_. xs)) out inp h1))"

definition copy_Advanced :: "'v k8s \<Rightarrow> addr \<Rightarrow> 'v memory \<Rightarrow> addr \<times> 'v memory" where
  "copy_Advanced k inp h =
     (case go_new (zero_cell k) h of
        (out, h1) \<Rightarrow> (out, store out (asAdvanced_update (\<lambda>_. asAdvanced (cells h1 inp))) h1))"

definition Spec_DeepCopyInto ::
    "'v k8s \<Rightarrow> 'v SpecMem \<Rightarrow> 'v memory \<Rightarrow> 'v SpecMem \<times> 'v memory" where
  "Spec_DeepCopyInto k inp h =
     (let out = inp;
          (sel, h1) = LibDeepCopyInto k (mTargetSelector inp) h;
          out = out\<lparr>mTargetSelector := sel\<rparr>;
          (out, h2) = (case mSidecarResources inp of
             None \<Rightarrow> (out, h1)
           | Some p \<Rightarrow> (case copy_Resources k p h1 of (q, g) \<Rightarrow> (out\<lparr>mSidecarResources := Some q\<rparr>, g)));
          out = out\<lparr>mScriptVolume := mScriptVolume inp\<rparr>;
          (out, h3) = (case mBehaviors inp of
             None \<Rightarrow> (out, h2)
           | Some s \<Rightarrow> (case copy_Behaviors k s h2 of (t, g) \<Rightarrow> (out\<lparr>mBehaviors := Some t\<rparr>, g)));
          (out, h4) = (case mAdvanced inp of
             None \<Rightarrow> (out, h3)
           | Some p \<Rightarrow> (case copy_Advanced k p h3 of (q, g) \<Rightarrow> (out\<lparr>mAdvanced := Some q\<rparr>, g)))
      in (out, h4))"

definition Spec_DeepCopy ::
    "'v k8s \<Rightarrow> addr option \<Rightarrow> 'v memory \<Rightarrow> addr option \<times> 'v memory" where
  "Spec_DeepCopy k inp h =
     (case inp of
        None \<Rightarrow> (None, h)
      | Some p \<Rightarrow> (case go_new (zero_cell k) h of
          (out, h1) \<Rightarrow> (case Spec_DeepCopyInto k (asSpec (cells h1 p)) h1 of
            (v, h2) \<Rightarrow> (Some out, store out (asSpec_update (\<lambda>_. v)) h2))))"

definition copy_Conditions :: "'v k8s \<Rightarrow> slice \<Rightarrow> 'v memory \<Rightarrow> slice \<times> 'v memory" where
  "copy_Conditions k inp h =
     (case go_make (\<lambda>xs. (zero_cell k)\<lparr>asConditions := xs\<rparr>) (ZeroOf k) (slen inp) h of
        (out, h1) \<Rightarrow>
          (out, fold (copy_elem asConditions (\<lambda>xs. asConditions_update (\<lambda>_. xs)) (LibDeepCopyInto k) inp out)
                  [0..<slen inp] h1))"

definition Status_DeepCopyInto ::
    "'v k8s \<Rightarrow> StatusMem \<Rightarrow> 'v memory \<Rightarrow> StatusMem \<times> 'v memory" where
  "Status_DeepCopyInto k inp h =
     (let out = inp;
          (out, h1) = (case mLastUpdateTime inp of
             None \<Rightarrow> (out, h)
           | Some p \<Rightarrow> (case TimeDeepCopy k p h of (q, g) \<Rightarrow> (out\<lparr>mLastUpdateTime := Some q\<rparr>, g)));
          (out, h2) = (case mConditions inp of
             None \<Rightarrow> (out, h1)
           | Some s \<Rightarrow> (case copy_Conditions k s h1 of (t, g) \<Rightarrow> (out\<lparr>mConditions := Some t\<rparr>, g)))
      in (out, h2))"

definition Status_DeepCopy ::
    "'v k8s \<Rightarrow> addr option \<Rightarrow> 'v memory \<Rightarrow> addr option \<times> 'v memory" where
  "Status_DeepCopy k inp h =
     (case inp of
        None \<Rightarrow> (None, h)
      | Some p \<Rightarrow> (case go_new (zero_cell k) h of
          (out, h1) \<Rightarrow> (case Status_DeepCopyInto k (asStatus (cells h1 p)) h1 of
            (v, h2) \<Rightarrow> (Some out, store out (asStatus_update (\<lambda>_. v)) h2))))"

section \<open>BehaviorStub and BehaviorStubList\<close>

definition Stub_DeepCopyInto ::
    "'v k8s \<Rightarrow> 'v StubMem \<Rightarrow> 'v memory \<Rightarrow> 'v StubMem \<times> 'v memory" where
  "Stub_DeepCopyInto k inp h =
     (let out = inp\<lparr>mTypeMeta := mTypeMeta inp\<rparr>;
          (om, h1) = LibDeepCopyInto k (mObjectMeta inp) h;
          (sp, h2) = Spec_DeepCopyInto k (mSpec inp) h1;
          (st, h3) = Status_DeepCopyInto k (mStatus inp) h2
      in (out\<lparr>mObjectMeta := om, mSpec := sp, mStatus := st\<rparr>, h3))"

definition Stub_DeepCopy ::
    "'v k8s \<Rightarrow> addr option \<Rightarrow> 'v memory \<Rightarrow> addr option \<times> 'v memory" where
  "Stub_DeepCopy k inp h =
     (case inp of
        None \<Rightarrow> (None, h)
      | Some p \<Rightarrow> (case go_new (zero_cell k) h of
          (out, h1) \<Rightarrow> (case Stub_DeepCopyInto k (asStub (cells h1 p)) h1 of
            (v, h2) \<Rightarrow> (Some out, store out (asStub_update (\<lambda>_. v)) h2))))"

definition copy_Items :: "'v k8s \<Rightarrow> slice \<Rightarrow> 'v memory \<Rightarrow> slice \<times> 'v memory" where
  "copy_Items k inp h =
     (case go_make (\<lambda>xs. (zero_cell k)\<lparr>asStubs := xs\<rparr>) (zero_stub (ZeroOf k)) (slen inp) h of
        (out, h1) \<Rightarrow>
          (out, fold (copy_elem asStubs (\<lambda>xs. asStubs_update (\<lambda>_. xs)) (Stub_DeepCopyInto k) inp out)
                  [0..<slen inp] h1))"

definition List_DeepCopyInto ::
    "'v k8s \<Rightarrow> 'v ListMem \<Rightarrow> 'v memory \<Rightarrow> 'v ListMem \<times> 'v memory" where
  "List_DeepCopyInto k inp h =
     (let out = inp\<lparr>mlTypeMeta := mlTypeMeta inp\<rparr>;
          (lm, h1) = LibDeepCopyInto k (mListMeta inp) h;
          out = out\<lparr>mListMeta := lm\<rparr>
      in (case mItems inp of
            None \<Rightarrow> (out, h1)
          | Some s \<Rightarrow> (case copy_Items k s h1 of (t, h2) \<Rightarrow> (out\<lparr>mItems := Some t\<rparr>, h2))))"

definition List_DeepCopy ::
    "'v k8s \<Rightarrow> addr option \<Rightarrow> 'v memory \<Rightarrow> addr option \<times> 'v memory" where
  "List_DeepCopy k inp h =
     (case inp of
        None \<Rightarrow> (None, h)
      | Some p \<Rightarrow> (case go_new (zero_cell k) h of
          (out, h1) \<Rightarrow> (case List_DeepCopyInto k (asStubList (cells h1 p)) h1 of
            (v, h2) \<Rightarrow> (Some out, store out (asStubList_update (\<lambda>_. v)) h2))))"

text \<open>
  A \<open>runtime.Object\<close> is an interface value: nil, or a type together with a pointer. \<open>DeepCopyObject\<close> turns a
  nil pointer into the nil interface, not into a typed nil.
\<close>

datatype object = StubObject "addr option" | ListObject "addr option"

definition Stub_DeepCopyObject ::
    "'v k8s \<Rightarrow> addr option \<Rightarrow> 'v memory \<Rightarrow> object option \<times> 'v memory" where
  "Stub_DeepCopyObject k inp h =
     (case Stub_DeepCopy k inp h of
        (c, h1) \<Rightarrow> (if c \<noteq> None then (Some (StubObject c), h1) else (None, h1)))"

definition List_DeepCopyObject ::
    "'v k8s \<Rightarrow> addr option \<Rightarrow> 'v memory \<Rightarrow> object option \<times> 'v memory" where
  "List_DeepCopyObject k inp h =
     (case List_DeepCopy k inp h of
        (c, h1) \<Rightarrow> (if c \<noteq> None then (Some (ListObject c), h1) else (None, h1)))"

section \<open>What is read and reached through an object\<close>

text \<open>
  What the library's copies promise: \<open>lv\<close>, \<open>lf\<close> and \<open>lk\<close> are the content, the addresses and the
  well-formedness of a library structure; \<open>(*Time).DeepCopy\<close> is the copy of a pointer to one.
\<close>

definition lib_deep ::
    "'v k8s \<Rightarrow> ('v memory \<Rightarrow> 'v \<Rightarrow> 'd) \<Rightarrow> ('v memory \<Rightarrow> 'v \<Rightarrow> addr set) \<Rightarrow> ('v memory \<Rightarrow> 'v \<Rightarrow> bool) \<Rightarrow> bool" where
  "lib_deep k lv lf lk \<longleftrightarrow> deep_copy (LibDeepCopyInto k) lv lf lk \<and>
     deep_copy (TimeDeepCopy k) (\<lambda>h p. lv h (asLib (cells h p)))
       (\<lambda>h p. insert p (lf h (asLib (cells h p))))
       (\<lambda>h p. p < next_free h \<and> lk h (asLib (cells h p)))"

abbreviation opt_foot :: "('b \<Rightarrow> addr set) \<Rightarrow> 'b option \<Rightarrow> addr set" where
  "opt_foot f p \<equiv> (case p of None \<Rightarrow> {} | Some x \<Rightarrow> f x)"

abbreviation opt_ok :: "('b \<Rightarrow> bool) \<Rightarrow> 'b option \<Rightarrow> bool" where
  "opt_ok k p \<equiv> (case p of None \<Rightarrow> True | Some x \<Rightarrow> k x)"

definition spec_content where
  "spec_content lv h x =
     (lv h (mTargetSelector x), map_option (\<lambda>p. lv h (asLib (cells h p))) (mSidecarResources x),
      map_option (slice_content asBehaviors (\<lambda>h b. b) h) (mBehaviors x),
      map_option (\<lambda>p. asAdvanced (cells h p)) (mAdvanced x), (mSidecarImage x, mScriptVolume x))"

definition spec_foot where
  "spec_foot lf h x =
     lf h (mTargetSelector x) \<union>
     (opt_foot (\<lambda>p. insert p (lf h (asLib (cells h p)))) (mSidecarResources x) \<union>
     (opt_foot (slice_foot asBehaviors (\<lambda>h b. {}) h) (mBehaviors x) \<union>
     (opt_foot (\<lambda>p. {p}) (mAdvanced x) \<union> {})))"

definition spec_wf where
  "spec_wf lk h x \<longleftrightarrow>
     lk h (mTargetSelector x) \<and>
     opt_ok (\<lambda>p. p < next_free h \<and> lk h (asLib (cells h p))) (mSidecarResources x) \<and>
     opt_ok (slice_wf asBehaviors (\<lambda>h b. True) h) (mBehaviors x) \<and>
     opt_ok (\<lambda>p. p < next_free h) (mAdvanced x)"

definition status_content where
  "status_content lv h x =
     (map_option (\<lambda>p. lv h (asLib (cells h p))) (mLastUpdateTime x),
      map_option (slice_content asConditions lv h) (mConditions x),
      (mPhase x, mInjectedPods x, mTotalPods x))"

definition status_foot where
  "status_foot lf h x =
     opt_foot (\<lambda>p. insert p (lf h (asLib (cells h p)))) (mLastUpdateTime x) \<union>
     (opt_foot (slice_foot asConditions lf h) (mConditions x) \<union> {})"

definition status_wf where
  "status_wf lk h x \<longleftrightarrow>
     opt_ok (\<lambda>p. p < next_free h \<and> lk h (asLib (cells h p))) (mLastUpdateTime x) \<and>
     opt_ok (slice_wf asConditions lk h) (mConditions x)"

definition stub_content where
  "stub_content lv h x =
     (lv h (mObjectMeta x), spec_content lv h (mSpec x), status_content lv h (mStatus x), mTypeMeta x)"

definition stub_foot where
  "stub_foot lf h x =
     lf h (mObjectMeta x) \<union> (spec_foot lf h (mSpec x) \<union> (status_foot lf h (mStatus x) \<union> {}))"

definition stub_wf where
  "stub_wf lk h x \<longleftrightarrow> lk h (mObjectMeta x) \<and> spec_wf lk h (mSpec x) \<and> status_wf lk h (mStatus x)"

definition list_content where
  "list_content lv h x =
     (lv h (mListMeta x), map_option (slice_content asStubs (stub_content lv) h) (mItems x), mlTypeMeta x)"

definition list_foot where
  "list_foot lf h x =
     lf h (mListMeta x) \<union> (opt_foot (slice_foot asStubs (stub_foot lf) h) (mItems x) \<union> {})"

definition list_wf where
  "list_wf lk h x \<longleftrightarrow> lk h (mListMeta x) \<and> opt_ok (slice_wf asStubs (stub_wf lk) h) (mItems x)"

section \<open>The code's copies are deep copies\<close>

lemma Behaviors_eq: "copy_Behaviors k =
    copy_flat_slice asBehaviors (\<lambda>xs. asBehaviors_update (\<lambda>_. xs)) (zero_cell k) zero_behavior"
  by (simp add: fun_eq_iff copy_Behaviors_def copy_flat_slice_def)

interpretation behaviors: deep_copy "copy_Behaviors k" "slice_content asBehaviors (\<lambda>h b. b)"
    "slice_foot asBehaviors (\<lambda>h b. {})" "slice_wf asBehaviors (\<lambda>h b. True)" for k :: "'v k8s"
  unfolding Behaviors_eq by (rule deep_flat_slice) simp

lemma Advanced_eq: "copy_Advanced k =
    copy_ptr asAdvanced (\<lambda>v. asAdvanced_update (\<lambda>_. v)) (zero_cell k) flat_copy"
  by (simp add: fun_eq_iff copy_Advanced_def copy_ptr_def flat_copy_def)

interpretation advanced: deep_copy "copy_Advanced k" "\<lambda>h p. asAdvanced (cells h p)" "\<lambda>h p. {p}"
    "\<lambda>h p. p < next_free h" for k :: "'v k8s"
  using deep_ptr [of flat_copy "\<lambda>h x. x" "\<lambda>h x. {}" "\<lambda>h x. True" asAdvanced
      "\<lambda>v. asAdvanced_update (\<lambda>_. v)" "zero_cell k"] deep_flat
  by (simp add: Advanced_eq)

lemma deep_Resources:
  assumes "deep_copy (LibDeepCopyInto k) lv lf lk"
  shows "deep_copy (copy_Resources k) (\<lambda>h p. lv h (asLib (cells h p)))
    (\<lambda>h p. insert p (lf h (asLib (cells h p)))) (\<lambda>h p. p < next_free h \<and> lk h (asLib (cells h p)))"
proof -
  have "copy_Resources k = copy_ptr asLib (\<lambda>v. asLib_update (\<lambda>_. v)) (zero_cell k) (LibDeepCopyInto k)"
    by (simp add: fun_eq_iff copy_Resources_def copy_ptr_def)
  then show ?thesis using deep_ptr [OF assms, of asLib "\<lambda>v. asLib_update (\<lambda>_. v)"] by simp
qed

lemma deep_Conditions:
  assumes "deep_copy (LibDeepCopyInto k) lv lf lk"
  shows "deep_copy (copy_Conditions k) (slice_content asConditions lv) (slice_foot asConditions lf)
    (slice_wf asConditions lk)"
proof -
  have "copy_Conditions k = copy_slice asConditions (\<lambda>xs. asConditions_update (\<lambda>_. xs)) (zero_cell k)
      (ZeroOf k) (LibDeepCopyInto k)"
    by (simp add: fun_eq_iff copy_Conditions_def copy_slice_def)
  then show ?thesis using deep_slice [OF assms, of asConditions "\<lambda>xs. asConditions_update (\<lambda>_. xs)"] by simp
qed

lemma deep_Spec:
  assumes "lib_deep k lv lf lk"
  shows "deep_copy (Spec_DeepCopyInto k) (spec_content lv) (spec_foot lf) (spec_wf lk)"
proof -
  have lib: "deep_copy (LibDeepCopyInto k) lv lf lk" using assms by (simp add: lib_deep_def)
  let ?to = "\<lambda>x. (mTargetSelector x, mSidecarResources x, mBehaviors x, mAdvanced x,
    (mSidecarImage x, mScriptVolume x))"
  let ?from = "\<lambda>x t. x\<lparr>mTargetSelector := fst t, mSidecarResources := fst (snd t),
    mBehaviors := fst (snd (snd t)), mAdvanced := fst (snd (snd (snd t))),
    mSidecarImage := fst (snd (snd (snd (snd t)))), mScriptVolume := snd (snd (snd (snd (snd t))))\<rparr>"
  note d = deep_both [OF lib deep_both [OF deep_opt [OF deep_Resources [OF lib]]
      deep_both [OF deep_opt [OF behaviors.deep_copy_axioms [of k]]
        deep_both [OF deep_opt [OF advanced.deep_copy_axioms [of k]] deep_flat]]]]
  have e: "Spec_DeepCopyInto k x h = (case copy_both (LibDeepCopyInto k) (copy_both (copy_opt (copy_Resources k))
      (copy_both (copy_opt (copy_Behaviors k)) (copy_both (copy_opt (copy_Advanced k)) flat_copy))) (?to x) h of
      (t, h') \<Rightarrow> (?from x t, h'))" for x h
    by (simp add: Spec_DeepCopyInto_def copy_both_def copy_opt_def flat_copy_def Let_def
        split: option.split prod.split)
  have v: "?to (?from x t) = t" for x :: "'a SpecMem" and t by simp
  show ?thesis
    using deep_via [where tup = ?to and build = ?from, OF d e v]
    by (simp add: spec_content_def [abs_def] spec_foot_def [abs_def] spec_wf_def [abs_def])
qed

lemma deep_Status:
  assumes "lib_deep k lv lf lk"
  shows "deep_copy (Status_DeepCopyInto k) (status_content lv) (status_foot lf) (status_wf lk)"
proof -
  have lib: "deep_copy (LibDeepCopyInto k) lv lf lk"
    and time: "deep_copy (TimeDeepCopy k) (\<lambda>h p. lv h (asLib (cells h p)))
      (\<lambda>h p. insert p (lf h (asLib (cells h p)))) (\<lambda>h p. p < next_free h \<and> lk h (asLib (cells h p)))"
    using assms by (simp_all add: lib_deep_def)
  let ?to = "\<lambda>x. (mLastUpdateTime x, mConditions x, (mPhase x, mInjectedPods x, mTotalPods x))"
  let ?from = "\<lambda>x t. x\<lparr>mLastUpdateTime := fst t, mConditions := fst (snd t), mPhase := fst (snd (snd t)),
    mInjectedPods := fst (snd (snd (snd t))), mTotalPods := snd (snd (snd (snd t)))\<rparr>"
  note d = deep_both [OF deep_opt [OF time] deep_both [OF deep_opt [OF deep_Conditions [OF lib]] deep_flat]]
  have e: "Status_DeepCopyInto k x h = (case copy_both (copy_opt (TimeDeepCopy k))
      (copy_both (copy_opt (copy_Conditions k)) flat_copy) (?to x) h of (t, h') \<Rightarrow> (?from x t, h'))" for x h
    by (simp add: Status_DeepCopyInto_def copy_both_def copy_opt_def flat_copy_def Let_def
        split: option.split prod.split)
  have v: "?to (?from x t) = t" for x t by simp
  show ?thesis
    using deep_via [where tup = ?to and build = ?from, OF d e v]
    by (simp add: status_content_def [abs_def] status_foot_def [abs_def] status_wf_def [abs_def])
qed

lemma deep_Stub:
  assumes "lib_deep k lv lf lk"
  shows "deep_copy (Stub_DeepCopyInto k) (stub_content lv) (stub_foot lf) (stub_wf lk)"
proof -
  have lib: "deep_copy (LibDeepCopyInto k) lv lf lk" using assms by (simp add: lib_deep_def)
  let ?to = "\<lambda>x. (mObjectMeta x, mSpec x, mStatus x, mTypeMeta x)"
  let ?from = "\<lambda>x t. x\<lparr>mObjectMeta := fst t, mSpec := fst (snd t), mStatus := fst (snd (snd t)),
    mTypeMeta := snd (snd (snd t))\<rparr>"
  note d = deep_both [OF lib deep_both [OF deep_Spec [OF assms] deep_both [OF deep_Status [OF assms] deep_flat]]]
  have e: "Stub_DeepCopyInto k x h = (case copy_both (LibDeepCopyInto k) (copy_both (Spec_DeepCopyInto k)
      (copy_both (Status_DeepCopyInto k) flat_copy)) (?to x) h of (t, h') \<Rightarrow> (?from x t, h'))" for x h
    by (simp add: Stub_DeepCopyInto_def copy_both_def flat_copy_def Let_def split: prod.split)
  have v: "?to (?from x t) = t" for x :: "'a StubMem" and t by simp
  show ?thesis
    using deep_via [where tup = ?to and build = ?from, OF d e v]
    by (simp add: stub_content_def [abs_def] stub_foot_def [abs_def] stub_wf_def [abs_def])
qed

lemma deep_Items:
  assumes "lib_deep k lv lf lk"
  shows "deep_copy (copy_Items k) (slice_content asStubs (stub_content lv)) (slice_foot asStubs (stub_foot lf))
    (slice_wf asStubs (stub_wf lk))"
proof -
  have "copy_Items k = copy_slice asStubs (\<lambda>xs. asStubs_update (\<lambda>_. xs)) (zero_cell k)
      (zero_stub (ZeroOf k)) (Stub_DeepCopyInto k)"
    by (simp add: fun_eq_iff copy_Items_def copy_slice_def)
  then show ?thesis
    using deep_slice [OF deep_Stub [OF assms], of asStubs "\<lambda>xs. asStubs_update (\<lambda>_. xs)"] by simp
qed

lemma deep_List:
  assumes "lib_deep k lv lf lk"
  shows "deep_copy (List_DeepCopyInto k) (list_content lv) (list_foot lf) (list_wf lk)"
proof -
  have lib: "deep_copy (LibDeepCopyInto k) lv lf lk" using assms by (simp add: lib_deep_def)
  let ?to = "\<lambda>x. (mListMeta x, mItems x, mlTypeMeta x)"
  let ?from = "\<lambda>x t. x\<lparr>mListMeta := fst t, mItems := fst (snd t), mlTypeMeta := snd (snd t)\<rparr>"
  note d = deep_both [OF lib deep_both [OF deep_opt [OF deep_Items [OF assms]] deep_flat]]
  have e: "List_DeepCopyInto k x h = (case copy_both (LibDeepCopyInto k)
      (copy_both (copy_opt (copy_Items k)) flat_copy) (?to x) h of (t, h') \<Rightarrow> (?from x t, h'))" for x h
    by (simp add: List_DeepCopyInto_def copy_both_def copy_opt_def flat_copy_def Let_def
        split: option.split prod.split)
  have v: "?to (?from x t) = t" for x :: "'a ListMem" and t by simp
  show ?thesis
    using deep_via [where tup = ?to and build = ?from, OF d e v]
    by (simp add: list_content_def [abs_def] list_foot_def [abs_def] list_wf_def [abs_def])
qed

text \<open>A \<open>DeepCopy\<close> on a pointer.\<close>

lemma deep_DeepCopy:
  assumes "lib_deep k lv lf lk"
  shows "deep_copy (Stub_DeepCopy k) (\<lambda>h. map_option (\<lambda>p. stub_content lv h (asStub (cells h p))))
      (\<lambda>h. opt_foot (\<lambda>p. insert p (stub_foot lf h (asStub (cells h p)))))
      (\<lambda>h. opt_ok (\<lambda>p. p < next_free h \<and> stub_wf lk h (asStub (cells h p))))"
    and "deep_copy (List_DeepCopy k) (\<lambda>h. map_option (\<lambda>p. list_content lv h (asStubList (cells h p))))
      (\<lambda>h. opt_foot (\<lambda>p. insert p (list_foot lf h (asStubList (cells h p)))))
      (\<lambda>h. opt_ok (\<lambda>p. p < next_free h \<and> list_wf lk h (asStubList (cells h p))))"
    and "deep_copy (Spec_DeepCopy k) (\<lambda>h. map_option (\<lambda>p. spec_content lv h (asSpec (cells h p))))
      (\<lambda>h. opt_foot (\<lambda>p. insert p (spec_foot lf h (asSpec (cells h p)))))
      (\<lambda>h. opt_ok (\<lambda>p. p < next_free h \<and> spec_wf lk h (asSpec (cells h p))))"
    and "deep_copy (Status_DeepCopy k) (\<lambda>h. map_option (\<lambda>p. status_content lv h (asStatus (cells h p))))
      (\<lambda>h. opt_foot (\<lambda>p. insert p (status_foot lf h (asStatus (cells h p)))))
      (\<lambda>h. opt_ok (\<lambda>p. p < next_free h \<and> status_wf lk h (asStatus (cells h p))))"
proof -
  have "Stub_DeepCopy k = copy_opt (copy_ptr asStub (\<lambda>v. asStub_update (\<lambda>_. v)) (zero_cell k)
      (Stub_DeepCopyInto k))"
    by (simp add: fun_eq_iff Stub_DeepCopy_def copy_opt_def copy_ptr_def split: option.split prod.split)
  then show "deep_copy (Stub_DeepCopy k) (\<lambda>h. map_option (\<lambda>p. stub_content lv h (asStub (cells h p))))
      (\<lambda>h. opt_foot (\<lambda>p. insert p (stub_foot lf h (asStub (cells h p)))))
      (\<lambda>h. opt_ok (\<lambda>p. p < next_free h \<and> stub_wf lk h (asStub (cells h p))))"
    using deep_opt [OF deep_ptr [OF deep_Stub [OF assms], of asStub "\<lambda>v. asStub_update (\<lambda>_. v)"]] by simp
  have "List_DeepCopy k = copy_opt (copy_ptr asStubList (\<lambda>v. asStubList_update (\<lambda>_. v)) (zero_cell k)
      (List_DeepCopyInto k))"
    by (simp add: fun_eq_iff List_DeepCopy_def copy_opt_def copy_ptr_def split: option.split prod.split)
  then show "deep_copy (List_DeepCopy k) (\<lambda>h. map_option (\<lambda>p. list_content lv h (asStubList (cells h p))))
      (\<lambda>h. opt_foot (\<lambda>p. insert p (list_foot lf h (asStubList (cells h p)))))
      (\<lambda>h. opt_ok (\<lambda>p. p < next_free h \<and> list_wf lk h (asStubList (cells h p))))"
    using deep_opt [OF deep_ptr [OF deep_List [OF assms], of asStubList "\<lambda>v. asStubList_update (\<lambda>_. v)"]]
    by simp
  have "Spec_DeepCopy k = copy_opt (copy_ptr asSpec (\<lambda>v. asSpec_update (\<lambda>_. v)) (zero_cell k)
      (Spec_DeepCopyInto k))"
    by (simp add: fun_eq_iff Spec_DeepCopy_def copy_opt_def copy_ptr_def split: option.split prod.split)
  then show "deep_copy (Spec_DeepCopy k) (\<lambda>h. map_option (\<lambda>p. spec_content lv h (asSpec (cells h p))))
      (\<lambda>h. opt_foot (\<lambda>p. insert p (spec_foot lf h (asSpec (cells h p)))))
      (\<lambda>h. opt_ok (\<lambda>p. p < next_free h \<and> spec_wf lk h (asSpec (cells h p))))"
    using deep_opt [OF deep_ptr [OF deep_Spec [OF assms], of asSpec "\<lambda>v. asSpec_update (\<lambda>_. v)"]] by simp
  have "Status_DeepCopy k = copy_opt (copy_ptr asStatus (\<lambda>v. asStatus_update (\<lambda>_. v)) (zero_cell k)
      (Status_DeepCopyInto k))"
    by (simp add: fun_eq_iff Status_DeepCopy_def copy_opt_def copy_ptr_def split: option.split prod.split)
  then show "deep_copy (Status_DeepCopy k) (\<lambda>h. map_option (\<lambda>p. status_content lv h (asStatus (cells h p))))
      (\<lambda>h. opt_foot (\<lambda>p. insert p (status_foot lf h (asStatus (cells h p)))))
      (\<lambda>h. opt_ok (\<lambda>p. p < next_free h \<and> status_wf lk h (asStatus (cells h p))))"
    using deep_opt [OF deep_ptr [OF deep_Status [OF assms], of asStatus "\<lambda>v. asStatus_update (\<lambda>_. v)"]]
    by simp
qed

text \<open>What is behind a pointer to an object, and the addresses through which it can be changed.\<close>

definition stub_at where
  "stub_at lv h p = stub_content lv h (asStub (cells h p))"

definition stub_reach where
  "stub_reach lf h p = insert p (stub_foot lf h (asStub (cells h p)))"

definition stub_valid where
  "stub_valid lk h p \<longleftrightarrow> p < next_free h \<and> stub_wf lk h (asStub (cells h p))"

definition list_at where
  "list_at lv h p = list_content lv h (asStubList (cells h p))"

definition list_reach where
  "list_reach lf h p = insert p (list_foot lf h (asStubList (cells h p)))"

definition list_valid where
  "list_valid lk h p \<longleftrightarrow> p < next_free h \<and> list_wf lk h (asStubList (cells h p))"

text \<open>\<open>same_off A h g\<close>: \<open>g\<close> is \<open>h\<close> after writes to addresses of \<open>A\<close> only.\<close>

definition same_off :: "addr set \<Rightarrow> 'c heap \<Rightarrow> 'c heap \<Rightarrow> bool" where
  "same_off A h g \<longleftrightarrow> (\<forall>a. a \<notin> A \<longrightarrow> cells g a = cells h a)"

lemma deep_stub_ptr:
  "lib_deep k lv lf lk \<Longrightarrow> deep_copy (Stub_DeepCopy k) (\<lambda>h. map_option (stub_at lv h))
     (\<lambda>h. opt_foot (stub_reach lf h)) (\<lambda>h. opt_ok (stub_valid lk h))"
  unfolding stub_at_def [abs_def] stub_reach_def [abs_def] stub_valid_def [abs_def]
  by (rule deep_DeepCopy(1))

lemma deep_list_ptr:
  "lib_deep k lv lf lk \<Longrightarrow> deep_copy (List_DeepCopy k) (\<lambda>h. map_option (list_at lv h))
     (\<lambda>h. opt_foot (list_reach lf h)) (\<lambda>h. opt_ok (list_valid lk h))"
  unfolding list_at_def [abs_def] list_reach_def [abs_def] list_valid_def [abs_def]
  by (rule deep_DeepCopy(2))

text \<open>One statement for both: what a \<open>DeepCopy\<close> of a valid pointer gives.\<close>

lemma ptr_copy:
  fixes dc :: "addr option \<Rightarrow> 'c heap \<Rightarrow> addr option \<times> 'c heap"
  assumes d: "deep_copy dc (\<lambda>h. map_option (cont h)) (\<lambda>h. opt_foot (reach h)) (\<lambda>h. opt_ok (valid h))"
    and run: "dc (Some p) h = (r, h')" and ok: "valid h p" and self: "\<And>h q. q \<in> reach h q"
  shows "\<exists>q. r = Some q \<and> next_free h \<le> q \<and> cont h' q = cont h p \<and> valid h' q \<and> valid h' p \<and>
    (\<forall>g. same_off (reach h' q) h' g \<longrightarrow> cont g p = cont h p) \<and>
    (\<forall>g. same_off (reach h' p) h' g \<longrightarrow> cont g q = cont h p)"
proof -
  have k: "opt_ok (valid h) (Some p)" using ok by simp
  note F = deep_copy.same [OF d run k] deep_copy.fresh [OF d run k] deep_copy.okay [OF d run k]
  obtain q where q: "r = Some q" using F(1) by (cases r) auto
  have "next_free h \<le> q" using F(2) self [of q h'] unfolding q by auto
  moreover have "cont g p = cont h p" if "same_off (reach h' q) h' g" for g
    using deep_copy.write_copy [OF d run k, of g] that unfolding q same_off_def by simp
  moreover have "cont g q = cont h p" if "same_off (reach h' p) h' g" for g
    using deep_copy.write_original [OF d run k, of g] that unfolding q same_off_def by simp
  moreover have "valid h' p" using deep_copy.later(3) [OF d deep_copy.ext [OF d run k] k] by simp
  ultimately show ?thesis using F(1,3) q by auto
qed

section \<open>Properties\<close>

text \<open>
  C11: the copy of a \<open>BehaviorStub\<close> is a new object that reads the same, and the two share no memory: whatever
  is written afterwards through the copy, at any address that is reached from it, the original reads as
  before, and whatever is written through the original, the copy reads as before.
\<close>

theorem stub_deep_copy:
  assumes "lib_deep k lv lf lk" and "stub_valid lk h p" and "Stub_DeepCopy k (Some p) h = (r, h')"
  shows "\<exists>q. r = Some q \<and> next_free h \<le> q \<and> stub_at lv h' q = stub_at lv h p \<and>
    (\<forall>g. same_off (stub_reach lf h' q) h' g \<longrightarrow> stub_at lv g p = stub_at lv h p) \<and>
    (\<forall>g. same_off (stub_reach lf h' p) h' g \<longrightarrow> stub_at lv g q = stub_at lv h p)"
  using ptr_copy [OF deep_stub_ptr [OF assms(1)] assms(3,2)] by (auto simp: stub_reach_def)

text \<open>
  The same holds of a \<open>BehaviorStubList\<close>, whose items are copied one by one into a new array: the
  copy has as many items, item by item with the same content, and neither list can be changed
  through the other.
\<close>

theorem list_deep_copy:
  assumes "lib_deep k lv lf lk" and "list_valid lk h p" and "List_DeepCopy k (Some p) h = (r, h')"
  shows "\<exists>q. r = Some q \<and> next_free h \<le> q \<and> list_at lv h' q = list_at lv h p \<and>
    (\<forall>g. same_off (list_reach lf h' q) h' g \<longrightarrow> list_at lv g p = list_at lv h p) \<and>
    (\<forall>g. same_off (list_reach lf h' p) h' g \<longrightarrow> list_at lv g q = list_at lv h p)"
  using ptr_copy [OF deep_list_ptr [OF assms(1)] assms(3,2)] by (auto simp: list_reach_def)


subsection \<open>A library and a memory\<close>

text \<open>
  A library structure is a string or a pointer to one. The memory holds a list with one stub, whose
  specification has resources, behaviours and advanced settings, and whose status has a time and a condition.
\<close>

datatype lval = Str string | Ref addr

definition lib_copy :: "lval \<Rightarrow> lval memory \<Rightarrow> lval \<times> lval memory" where
  "lib_copy v h = (case v of
     Str s \<Rightarrow> (Str s, h)
   | Ref a \<Rightarrow> (case go_new (cells h a) h of (q, h1) \<Rightarrow> (Ref q, h1)))"

definition lib_text :: "lval memory \<Rightarrow> lval \<Rightarrow> string" where
  "lib_text h v = (case v of Str s \<Rightarrow> s | Ref a \<Rightarrow> (case asLib (cells h a) of Str s \<Rightarrow> s | Ref b \<Rightarrow> ''''))"

definition lib_foot :: "lval memory \<Rightarrow> lval \<Rightarrow> addr set" where
  "lib_foot h v = (case v of Str s \<Rightarrow> {} | Ref a \<Rightarrow> {a})"

definition lib_ok :: "lval memory \<Rightarrow> lval \<Rightarrow> bool" where
  "lib_ok h v = (case v of Str s \<Rightarrow> True | Ref a \<Rightarrow> a < next_free h)"

definition some_lib :: "lval k8s" where
  "some_lib = \<lparr>ZeroOf = Str '''', LibDeepCopyInto = lib_copy,
     TimeDeepCopy = copy_ptr asLib (\<lambda>v. asLib_update (\<lambda>_. v))
       (zero_cell \<lparr>ZeroOf = Str '''', LibDeepCopyInto = lib_copy, TimeDeepCopy = \<lambda>a h. (a, h)\<rparr>) lib_copy\<rparr>"

lemma some_lib_deep: "lib_deep some_lib lib_text lib_foot lib_ok"
proof -
  have "deep_copy lib_copy lib_text lib_foot lib_ok"
  proof
    fix x h y h'
    assume "lib_copy x h = (y, h')" and "lib_ok h x"
    then show "extends h h'" "lib_text h' y = lib_text h x" "lib_foot h' y \<subseteq> {next_free h..<next_free h'}"
        "lib_ok h' y"
      by (auto simp: lib_copy_def lib_text_def lib_foot_def lib_ok_def go_new_def extends_def
          split: lval.splits)
  qed (auto simp: lib_text_def lib_foot_def lib_ok_def split: lval.splits)
  then show ?thesis
    using deep_ptr [of lib_copy lib_text lib_foot lib_ok asLib "\<lambda>v. asLib_update (\<lambda>_. v)"]
    by (simp add: lib_deep_def some_lib_def)
qed

definition some_stub :: "lval StubMem" where
  "some_stub = \<lparr>mTypeMeta = (''BehaviorStub'', ''v1''), mObjectMeta = Ref 1,
     mSpec = \<lparr>mTargetSelector = Str ''app=x'', mSidecarImage = ''img'', mSidecarResources = Some 2,
       mScriptVolume = \<lparr>HostPath = ''/s'', MountPath = ''/m''\<rparr>,
       mBehaviors = Some \<lparr>array = 3, offset = 0, slen = 1, scap = 1\<rparr>, mAdvanced = Some 4\<rparr>,
     mStatus = \<lparr>mPhase = ''Running'', mInjectedPods = 1, mTotalPods = 1, mLastUpdateTime = Some 5,
       mConditions = Some \<lparr>array = 6, offset = 0, slen = 1, scap = 1\<rparr>\<rparr>\<rparr>"

definition some_memory :: "lval memory" where
  "some_memory = (let z = zero_cell some_lib in
     \<lparr>cells = (\<lambda>a. z)(0 := z\<lparr>asStub := some_stub\<rparr>, 1 := z\<lparr>asLib := Str ''labels''\<rparr>, 2 := z\<lparr>asLib := Str ''1Gi''\<rparr>,
        3 := z\<lparr>asBehaviors := [zero_behavior\<lparr>bName := ''ls''\<rparr>]\<rparr>, 6 := z\<lparr>asConditions := [Str ''Ready'']\<rparr>,
        7 := z\<lparr>asStubs := [some_stub]\<rparr>,
        8 := z\<lparr>asStubList := \<lparr>mlTypeMeta = (''BehaviorStubList'', ''v1''), mListMeta = Str ''3'',
          mItems = Some \<lparr>array = 7, offset = 0, slen = 1, scap = 1\<rparr>\<rparr>\<rparr>),
      next_free = 9\<rparr>)"

lemma some_memory_valid: "stub_valid lib_ok some_memory 0" "list_valid lib_ok some_memory 8"
  by code_simp+

lemma store_same_off: "a \<in> A \<Longrightarrow> same_off A h (store a f h)"
  by (simp add: same_off_def)

theorem stub_deep_copy_witness:
  "\<exists>q h'. Stub_DeepCopy some_lib (Some 0) some_memory = (Some q, h') \<and>
     stub_at lib_text h' q = stub_at lib_text some_memory 0 \<and>
     (\<forall>f. stub_at lib_text (store q f h') 0 = stub_at lib_text some_memory 0)"
proof -
  obtain r h' where run: "Stub_DeepCopy some_lib (Some 0) some_memory = (r, h')" by (rule prod.exhaust)
  obtain q where q: "r = Some q" "stub_at lib_text h' q = stub_at lib_text some_memory 0"
    "\<And>g. same_off (stub_reach lib_foot h' q) h' g \<Longrightarrow> stub_at lib_text g 0 = stub_at lib_text some_memory 0"
    using stub_deep_copy [OF some_lib_deep some_memory_valid(1) run] by blast
  have "stub_at lib_text (store q f h') 0 = stub_at lib_text some_memory 0" for f
    by (rule q(3) [OF store_same_off]) (simp add: stub_reach_def)
  with run q(1,2) show ?thesis by blast
qed

theorem list_deep_copy_witness:
  "\<exists>q h'. List_DeepCopy some_lib (Some 8) some_memory = (Some q, h') \<and>
     list_at lib_text h' q = list_at lib_text some_memory 8 \<and>
     (\<forall>f. list_at lib_text (store 8 f (store 7 f h')) q = list_at lib_text h' q)"
proof -
  obtain r h' where run: "List_DeepCopy some_lib (Some 8) some_memory = (r, h')" by (rule prod.exhaust)
  obtain q where q: "r = Some q" "list_at lib_text h' q = list_at lib_text some_memory 8"
    "\<And>g. same_off (list_reach lib_foot h' 8) h' g \<Longrightarrow> list_at lib_text g q = list_at lib_text some_memory 8"
    using list_deep_copy [OF some_lib_deep some_memory_valid(2) run] by blast
  have c: "cells h' 8 = cells some_memory 8"
    using deep_copy.ext [OF deep_list_ptr [OF some_lib_deep] run] some_memory_valid(2)
    by (auto simp: extends_def some_memory_def Let_def)
  have "7 \<in> list_reach lib_foot h' 8"
    unfolding list_reach_def list_foot_def slice_foot_def c by (simp add: some_memory_def Let_def)
  then have "same_off (list_reach lib_foot h' 8) h' (store 8 f (store 7 f h'))" for f
    by (simp add: same_off_def list_reach_def)
  then have "list_at lib_text (store 8 f (store 7 f h')) q = list_at lib_text h' q" for f
    using q(2,3) by simp
  with run q(1,2) show ?thesis by blast
qed


end
