(* ===== verification/ApiJson.thy ===== *)
theory ApiJson
  imports Sidecar KubeTypes "HOL-Library.Multiset"
begin

text \<open>
  The two ends of the custom resource. The operator and its users write a \<open>BehaviorStub\<close> with the types of
  \<open>api/v1/behavior_stub_types.go\<close>, the sidecar reads it with types of its own
  (\<open>cmd/sidecar/main.go\<close>): the JSON tags of the one are followed here to those of the other. The documents of the
  library's types are parameters, and the order of the keys of an object is not fixed, since the dynamic client
  goes through a map.
\<close>

section \<open>Documents of the API types\<close>

text \<open>The entries of a struct in the order of its fields; \<open>omitempty\<close> leaves out a zero value.\<close>

definition omitempty :: "bool \<Rightarrow> string \<Rightarrow> json \<Rightarrow> (string \<times> json) list" where
  "omitempty zero key j = (if zero then [] else [(key, j)])"

definition behavior_entries :: "Behavior \<Rightarrow> (string \<times> json) list" where
  "behavior_entries b =
     [(''name'', JStr (bName b)), (''targetPath'', JStr (TargetPath b)), (''scriptPath'', JStr (ScriptPath b))] @
     omitempty (\<not> bEnableLogging b) ''enableLogging'' (JBool (bEnableLogging b)) @
     omitempty (LogPath b = '''') ''logPath'' (JStr (LogPath b))"

definition volume_entries :: "ScriptVolume \<Rightarrow> (string \<times> json) list" where
  "volume_entries v = [(''hostPath'', JStr (HostPath v)), (''mountPath'', JStr (MountPath v))]"

definition advanced_entries :: "AdvancedConfig \<Rightarrow> (string \<times> json) list" where
  "advanced_entries a =
     omitempty (\<not> aEnableLogging a) ''enableLogging'' (JBool (aEnableLogging a)) @
     omitempty (SyncIntervalSeconds a = 0) ''syncIntervalSeconds'' (JNum (sint (SyncIntervalSeconds a)))"

record api_docs =
  docSelector :: "LabelSelector \<Rightarrow> json"
  docResources :: "ResourceRequirements \<Rightarrow> json"
  docMeta :: "ObjectMeta \<Rightarrow> json"
  docStatus :: "BehaviorStubStatus \<Rightarrow> json"

definition spec_entries :: "api_docs \<Rightarrow> BehaviorStubSpec \<Rightarrow> json \<Rightarrow> (string \<times> json) list" where
  "spec_entries docs s bdoc =
     [(''targetSelector'', docSelector docs (TargetSelector s)), (''sidecarImage'', JStr (SidecarImage s))] @
     (case SidecarResources s of None \<Rightarrow> [] | Some r \<Rightarrow> [(''sidecarResources'', docResources docs r)]) @
     [(''scriptVolume'', JObj (volume_entries (scriptVolume s))), (''behaviors'', bdoc)] @
     (case Advanced s of None \<Rightarrow> [] | Some a \<Rightarrow> [(''advanced'', JObj (advanced_entries a))])"

definition SchemeGroupVersion :: "string \<times> string" where
  "SchemeGroupVersion = (''dynastub.example.com'', ''v1'')"

definition stub_entries :: "api_docs \<Rightarrow> BehaviorStub \<Rightarrow> json \<Rightarrow> (string \<times> json) list" where
  "stub_entries docs bs spec =
     [(''kind'', JStr ''BehaviorStub''), (''apiVersion'', JStr (fst SchemeGroupVersion @ ''/'' @ snd SchemeGroupVersion)),
      (''metadata'', docMeta docs (bsMeta bs)), (''spec'', spec), (''status'', docStatus docs (Status bs))]"

text \<open>
  \<open>renders j bs\<close>: \<open>j\<close> is a document of the object, with the keys of each object in any order. A nil slice
  is \<open>null\<close>.
\<close>

definition renders_behavior :: "json \<Rightarrow> Behavior \<Rightarrow> bool" where
  "renders_behavior j b \<longleftrightarrow> (\<exists>kvs. j = JObj kvs \<and> mset kvs = mset (behavior_entries b))"

definition renders_behaviors :: "json \<Rightarrow> Behavior list \<Rightarrow> bool" where
  "renders_behaviors j bs \<longleftrightarrow>
     j = JNull \<and> bs = [] \<or> (\<exists>js. j = JArr js \<and> list_all2 renders_behavior js bs)"

definition renders :: "api_docs \<Rightarrow> json \<Rightarrow> BehaviorStub \<Rightarrow> bool" where
  "renders docs j bs \<longleftrightarrow>
     (\<exists>kvs sp be. j = JObj kvs \<and> mset kvs = mset (stub_entries docs bs (JObj sp)) \<and>
        mset sp = mset (spec_entries docs (Spec bs) be) \<and> renders_behaviors be (Behaviors (Spec bs)))"

section \<open>Decoding does not depend on the order of the keys\<close>

definition decode_entry ::
    "string list \<Rightarrow> (string \<Rightarrow> json \<Rightarrow> 'r \<Rightarrow> goerror + 'r) \<Rightarrow> string \<times> json \<Rightarrow> 'r \<Rightarrow> goerror + 'r" where
  "decode_entry names setf e r = (case field_of names (fst e) of None \<Rightarrow> Inr r | Some f \<Rightarrow> setf f (snd e) r)"

lemma decode_fields_fold:
  assumes "\<And>e r. e \<in> set kvs \<Longrightarrow> decode_entry names setf e r = Inr (g e r)"
  shows "decode_fields names setf kvs r = Inr (fold g kvs r)"
  using assms
proof (induction kvs arbitrary: r)
  case (Cons e kvs)
  obtain k j where e: "e = (k, j)" by (cases e)
  have "decode_entry names setf e r = Inr (g e r)" by (rule Cons.prems) simp
  then show ?case using Cons by (simp add: e decode_entry_def split: option.splits)
qed simp

lemma decode_fields_perm:
  assumes "\<And>e r. e \<in> set kvs \<Longrightarrow> decode_entry names setf e r = Inr (g e r)"
    and "\<And>x y. x \<in> set kvs \<Longrightarrow> y \<in> set kvs \<Longrightarrow> g x \<circ> g y = g y \<circ> g x"
    and "mset kvs' = mset kvs"
  shows "decode_fields names setf kvs' r = Inr (fold g kvs r)"
proof -
  have "set kvs' = set kvs" using assms(3) by (rule mset_eq_setD)
  then have "decode_fields names setf kvs' r = Inr (fold g kvs' r)"
    using assms(1) by (intro decode_fields_fold) simp
  also have "fold g kvs' = fold g kvs"
    using assms(2,3) \<open>set kvs' = set kvs\<close> by (intro fold_multiset_equiv) auto
  finally show ?thesis .
qed

text \<open>The sidecar asks for the resource under the group and version that the scheme registers.\<close>

lemma gvr_registered: "behaviorstub_gvr = (fst SchemeGroupVersion, snd SchemeGroupVersion, ''behaviorstubs'')"
  by (simp add: behaviorstub_gvr_def SchemeGroupVersion_def)

text \<open>The behaviour as the sidecar's type has it.\<close>

definition to_sidecar :: "Behavior \<Rightarrow> SBehavior" where
  "to_sidecar b = \<lparr>sbName = bName b, sbTargetPath = TargetPath b, sbScriptPath = ScriptPath b,
     sbEnableLogging = bEnableLogging b, sbLogPath = LogPath b\<rparr>"

abbreviation behavior_keys :: "string list" where
  "behavior_keys \<equiv> [''name'', ''targetPath'', ''scriptPath'', ''enableLogging'', ''logPath'']"

lemma behavior_entry:
  "decode_entry behavior_keys set_behavior_field (''name'', JStr s) r = Inr (r\<lparr>sbName := s\<rparr>)"
  "decode_entry behavior_keys set_behavior_field (''targetPath'', JStr s) r = Inr (r\<lparr>sbTargetPath := s\<rparr>)"
  "decode_entry behavior_keys set_behavior_field (''scriptPath'', JStr s) r = Inr (r\<lparr>sbScriptPath := s\<rparr>)"
  "decode_entry behavior_keys set_behavior_field (''enableLogging'', JBool b) r = Inr (r\<lparr>sbEnableLogging := b\<rparr>)"
  "decode_entry behavior_keys set_behavior_field (''logPath'', JStr s) r = Inr (r\<lparr>sbLogPath := s\<rparr>)"
  by (simp_all add: decode_entry_def field_of_def set_behavior_field_def)

definition effect :: "(string \<times> json) \<Rightarrow> SBehavior \<Rightarrow> SBehavior" where
  "effect e r = projr (decode_entry behavior_keys set_behavior_field e r)"

lemma effect_entry [simp]:
  "effect (''name'', JStr s) = sbName_update (\<lambda>_. s)"
  "effect (''targetPath'', JStr s) = sbTargetPath_update (\<lambda>_. s)"
  "effect (''scriptPath'', JStr s) = sbScriptPath_update (\<lambda>_. s)"
  "effect (''enableLogging'', JBool b) = sbEnableLogging_update (\<lambda>_. b)"
  "effect (''logPath'', JStr s) = sbLogPath_update (\<lambda>_. s)"
  by (simp_all add: fun_eq_iff effect_def behavior_entry)

lemma omitempty_set: "set (omitempty z k j) \<subseteq> {(k, j)}"
  by (simp add: omitempty_def)

lemma five_cases:
  "x \<in> set ([a, b, c] @ ds @ es) \<Longrightarrow> set ds \<subseteq> {d} \<Longrightarrow> set es \<subseteq> {e} \<Longrightarrow>
     x = a \<or> x = b \<or> x = c \<or> x = d \<or> x = e"
  by auto

lemma entry_cases:
  assumes "e \<in> set (behavior_entries b)"
  obtains "e = (''name'', JStr (bName b))" | "e = (''targetPath'', JStr (TargetPath b))"
    | "e = (''scriptPath'', JStr (ScriptPath b))" | "e = (''enableLogging'', JBool (bEnableLogging b))"
    | "e = (''logPath'', JStr (LogPath b))"
  using five_cases [OF assms [unfolded behavior_entries_def] omitempty_set omitempty_set] that
  by (elim disjE)

lemma effect_cases:
  assumes "e \<in> set (behavior_entries b)"
  shows "effect e = sbName_update (\<lambda>_. bName b) \<or> effect e = sbTargetPath_update (\<lambda>_. TargetPath b) \<or>
    effect e = sbScriptPath_update (\<lambda>_. ScriptPath b) \<or>
    effect e = sbEnableLogging_update (\<lambda>_. bEnableLogging b) \<or> effect e = sbLogPath_update (\<lambda>_. LogPath b)"
  by (rule entry_cases [OF assms]) (simp_all only: effect_entry simp_thms)

lemma effects_commute:
  assumes "x \<in> set (behavior_entries b)" "y \<in> set (behavior_entries b)"
  shows "effect x \<circ> effect y = effect y \<circ> effect x"
  using effect_cases [OF assms(1)] effect_cases [OF assms(2)]
  by (elim disjE) (simp_all only: fun_eq_iff o_apply, simp_all)

lemma decode_behavior_renders:
  assumes "renders_behavior j b"
  shows "decode_behavior j = Inr (to_sidecar b)"
proof -
  obtain kvs where j: "j = JObj kvs" and m: "mset kvs = mset (behavior_entries b)"
    using assms by (auto simp: renders_behavior_def)
  have 1: "decode_entry behavior_keys set_behavior_field e r = Inr (effect e r)"
    if "e \<in> set (behavior_entries b)" for e r
    by (rule entry_cases [OF that]) (simp_all add: behavior_entry)
  have "decode_fields behavior_keys set_behavior_field kvs zero_SBehavior =
      Inr (fold effect (behavior_entries b) zero_SBehavior)"
    by (rule decode_fields_perm [OF 1 effects_commute m])
  also have "fold effect (behavior_entries b) zero_SBehavior = to_sidecar b"
    by (simp add: behavior_entries_def omitempty_def zero_SBehavior_def to_sidecar_def)
  finally show ?thesis by (simp only: decode_behavior_def j decode_struct.simps)
qed

lemma decode_behaviors_renders:
  "list_all2 renders_behavior js bs \<Longrightarrow> decode_list decode_behavior js = Inr (map to_sidecar bs)"
  by (induction rule: list_all2_induct) (simp_all add: decode_behavior_renders)

text \<open>Of the entries of an object only those of one key count.\<close>

lemma decode_one_field:
  assumes "mset kvs = mset (as @ (key, j) # bs)" and "field_of names key = Some f"
    and "\<And>r. setf f j r = Inr (h r)" and "\<And>e. e \<in> set as \<union> set bs \<Longrightarrow> field_of names (fst e) = None"
  shows "decode_fields names setf kvs r = Inr (h r)"
proof -
  define g where "g e r = (if field_of names (fst e) = None then r else h r)" for e :: "string \<times> json" and r
  have 1: "decode_entry names setf e r = Inr (g e r)" if "e \<in> set (as @ (key, j) # bs)" for e r
    using that assms(2,3) assms(4) [of e] by (auto simp: decode_entry_def g_def)
  have id: "fold g es r = r" if "\<And>e. e \<in> set es \<Longrightarrow> field_of names (fst e) = None" for es r
    using that by (induction es arbitrary: r) (simp_all add: g_def)
  have "decode_fields names setf kvs r = Inr (fold g (as @ (key, j) # bs) r)"
    by (rule decode_fields_perm [OF 1 _ assms(1)]) (auto simp: g_def fun_eq_iff)
  also have "fold g (as @ (key, j) # bs) r = h r"
    using id [of as] id [of bs] assms(2,4) by (simp add: g_def)
  finally show ?thesis .
qed

lemma spec_split:
  "spec_entries docs s bdoc =
     ([(''targetSelector'', docSelector docs (TargetSelector s)), (''sidecarImage'', JStr (SidecarImage s))] @
      (case SidecarResources s of None \<Rightarrow> [] | Some r \<Rightarrow> [(''sidecarResources'', docResources docs r)]) @
      [(''scriptVolume'', JObj (volume_entries (scriptVolume s)))]) @
     (''behaviors'', bdoc) #
     (case Advanced s of None \<Rightarrow> [] | Some a \<Rightarrow> [(''advanced'', JObj (advanced_entries a))])"
  by (simp add: spec_entries_def)

lemma stub_split:
  "stub_entries docs bs spec =
     [(''kind'', JStr ''BehaviorStub''), (''apiVersion'', JStr (fst SchemeGroupVersion @ ''/'' @ snd SchemeGroupVersion)),
      (''metadata'', docMeta docs (bsMeta bs))] @ (''spec'', spec) # [(''status'', docStatus docs (Status bs))]"
  by (simp add: stub_entries_def)

section \<open>Properties\<close>

text \<open>
  C10: what is written with the operator's types is what the sidecar reads. From every document of a
  \<open>BehaviorStub\<close>, whatever the order of its keys and whatever fields are left out because they are
  zero, the sidecar decodes exactly its behaviours, field by field and in their order.
\<close>

theorem json_round_trip:
  assumes "renders docs j bs"
  shows "json_Unmarshal_stub j = Inr \<lparr>sbsBehaviors = map to_sidecar (Behaviors (Spec bs))\<rparr>"
proof -
  obtain kvs sp be where j: "j = JObj kvs" and top: "mset kvs = mset (stub_entries docs bs (JObj sp))"
    and spec: "mset sp = mset (spec_entries docs (Spec bs) be)" and be: "renders_behaviors be (Behaviors (Spec bs))"
    using assms by (auto simp: renders_def)
  let ?out = "\<lparr>sbsBehaviors = map to_sidecar (Behaviors (Spec bs))\<rparr>"
  have b: "set_spec_field ''behaviors'' be r = Inr ?out" for r
    using be decode_behaviors_renders unfolding renders_behaviors_def set_spec_field_def
    by (auto simp del: decode_list.simps)
  have k: "field_of [''behaviors''] (fst e) = None"
    if "e \<in> set ([(''targetSelector'', docSelector docs (TargetSelector (Spec bs))), (''sidecarImage'', JStr (SidecarImage (Spec bs)))] @
      (case SidecarResources (Spec bs) of None \<Rightarrow> [] | Some r \<Rightarrow> [(''sidecarResources'', docResources docs r)]) @
      [(''scriptVolume'', JObj (volume_entries (scriptVolume (Spec bs))))]) \<union>
      set (case Advanced (Spec bs) of None \<Rightarrow> [] | Some a \<Rightarrow> [(''advanced'', JObj (advanced_entries a))])" for e
  proof -
    have "fst e \<in> {''targetSelector'', ''sidecarImage'', ''sidecarResources'', ''scriptVolume'', ''advanced''}"
      using that by (cases "SidecarResources (Spec bs)"; cases "Advanced (Spec bs)") auto
    then show ?thesis by (elim insertE emptyE) (simp_all add: field_of_def fold_char_def)
  qed
  have "field_of [''behaviors''] ''behaviors'' = Some ''behaviors''" by (simp add: field_of_def)
  then have sp: "decode_fields [''behaviors''] set_spec_field sp r = Inr ?out" for r
    by (rule decode_one_field [where h = "\<lambda>_. ?out" and setf = set_spec_field, OF spec [unfolded spec_split]])
      (rule b, rule k)
  have "field_of [''spec''] ''spec'' = Some ''spec''" by (simp add: field_of_def)
  moreover have "set_stub_field ''spec'' (JObj sp) r = Inr ?out" for r by (simp add: set_stub_field_def sp)
  moreover have "field_of [''spec''] (fst e) = None"
    if "e \<in> set [(''kind'', JStr ''BehaviorStub''), (''apiVersion'', JStr (fst SchemeGroupVersion @ ''/'' @ snd SchemeGroupVersion)),
      (''metadata'', docMeta docs (bsMeta bs))] \<union> set [(''status'', docStatus docs (Status bs))]" for e
  proof -
    have "fst e \<in> {''kind'', ''apiVersion'', ''metadata'', ''status''}" using that by auto
    then show ?thesis by (elim insertE emptyE) (simp_all add: field_of_def fold_char_def)
  qed
  ultimately have "decode_fields [''spec''] set_stub_field kvs r = Inr ?out" for r
    by (rule decode_one_field [where h = "\<lambda>_. ?out" and setf = set_stub_field, OF top [unfolded stub_split]])
  then show ?thesis by (simp only: json_Unmarshal_stub_def j decode_struct.simps)
qed

definition plain_docs :: api_docs where
  "plain_docs = \<lparr>docSelector = (\<lambda>x. JNull), docResources = (\<lambda>x. JNull), docMeta = (\<lambda>x. JNull), docStatus = (\<lambda>x. JNull)\<rparr>"

definition ls_behavior :: Behavior where
  "ls_behavior = \<lparr>bName = ''ls'', TargetPath = ''/bin/ls'', ScriptPath = ''ls.sh'', bEnableLogging = True, LogPath = ''''\<rparr>"

definition cp_behavior :: Behavior where
  "cp_behavior = \<lparr>bName = ''cp'', TargetPath = ''/bin/cp'', ScriptPath = ''cp.sh'', bEnableLogging = False, LogPath = ''/log''\<rparr>"

definition two_behaviors :: BehaviorStub where
  "two_behaviors = \<lparr>bsMeta = \<lparr>mName = ''b'', mNamespace = ''ns'', mLabels = [], mGeneration = 1, mResourceVersion = ''1''\<rparr>,
     Spec = \<lparr>TargetSelector = \<lparr>MatchLabels = [], MatchExpressions = []\<rparr>, SidecarImage = ''img'', SidecarResources = None,
       scriptVolume = \<lparr>HostPath = ''/s'', MountPath = ''/m''\<rparr>, Behaviors = [ls_behavior, cp_behavior], Advanced = None\<rparr>,
     Status = \<lparr>Phase = '''', InjectedPods = 0, TotalPods = 0, LastUpdateTime = None, Conditions = []\<rparr>\<rparr>"

text \<open>The keys of every object backwards.\<close>

definition backwards_doc :: json where
  "backwards_doc = JObj (rev (stub_entries plain_docs two_behaviors (JObj (rev (spec_entries plain_docs (Spec two_behaviors)
     (JArr [JObj (rev (behavior_entries ls_behavior)), JObj (rev (behavior_entries cp_behavior))]))))))"

theorem json_round_trip_witness:
  "json_Unmarshal_stub backwards_doc = Inr \<lparr>sbsBehaviors = [to_sidecar ls_behavior, to_sidecar cp_behavior]\<rparr>"
proof -
  have "renders_behaviors (JArr [JObj (rev (behavior_entries ls_behavior)), JObj (rev (behavior_entries cp_behavior))])
      [ls_behavior, cp_behavior]"
    by (simp add: renders_behaviors_def renders_behavior_def)
  moreover have b: "Behaviors (Spec two_behaviors) = [ls_behavior, cp_behavior]" by (simp add: two_behaviors_def)
  ultimately have "renders plain_docs backwards_doc two_behaviors"
    unfolding renders_def backwards_doc_def by (metis mset_rev)
  from json_round_trip [OF this] show ?thesis by (simp add: b)
qed

end
