(* ===== verification/OperatorMain.thy ===== *)
theory OperatorMain
  imports GoHeap GoPath
begin

text \<open>
  The main function of the operator, \<open>cmd/main.go\<close>: the flags, the lists of TLS options of its two
  servers, and the order in which it builds, registers and starts. controller-runtime is a parameter: for every
  call, given the calls before it, whether it returns an error.
\<close>

section \<open>Flags\<close>

record Flags =
  metricsAddr :: string
  probeAddr :: string
  enableLeaderElection :: bool
  secureMetrics :: bool
  webhookCertPath :: string
  webhookCertName :: string
  webhookCertKey :: string
  metricsCertPath :: string
  metricsCertName :: string
  metricsCertKey :: string
  enableHTTP2 :: bool

definition default_flags :: Flags where
  "default_flags = \<lparr>metricsAddr = ''0'', probeAddr = '':8081'', enableLeaderElection = False,
     secureMetrics = True, webhookCertPath = '''', webhookCertName = ''tls.crt'', webhookCertKey = ''tls.key'',
     metricsCertPath = '''', metricsCertName = ''tls.crt'', metricsCertKey = ''tls.key'', enableHTTP2 = False\<rparr>"

section \<open>TLS options\<close>

text \<open>
  The two watchers are the two pointers of the function. An option is a function on \<open>*tls.Config\<close>; the
  code makes three of them.
\<close>

datatype cert_watcher = WebhookCertWatcher | MetricsCertWatcher

datatype tls_option = NilOption | DisableHTTP2 | UseCertificateOf cert_watcher

record tls_config =
  NextProtos :: "string list"
  GetCertificate :: "cert_watcher option"

fun apply_option :: "tls_option \<Rightarrow> tls_config \<Rightarrow> tls_config" where
  "apply_option DisableHTTP2 c = c\<lparr>NextProtos := [''http/1.1'']\<rparr>"
| "apply_option (UseCertificateOf w) c = c\<lparr>GetCertificate := Some w\<rparr>"
| "apply_option NilOption c = c"

type_synonym memory = "tls_option list heap"

definition append_option ::
    "(nat \<Rightarrow> nat) \<Rightarrow> slice option \<Rightarrow> tls_option \<Rightarrow> memory \<Rightarrow> slice option \<times> memory" where
  "append_option grow = go_append grow (\<lambda>c. c) (\<lambda>xs c. xs) [] NilOption"

text \<open>A server applies its options in their order when it starts, to a configuration of its own.\<close>

definition server_config :: "memory \<Rightarrow> slice option \<Rightarrow> tls_config \<Rightarrow> tls_config" where
  "server_config h s c = fold apply_option (slice_list (\<lambda>c. c) h s) c"

section \<open>Calls\<close>

record MetricsOptions =
  BindAddress :: string
  SecureServing :: bool
  TLSOpts :: "slice option"
  FilterProvider :: "string option"

record ManagerOptions =
  Metrics :: MetricsOptions
  WebhookServer :: "slice option"
  HealthProbeBindAddress :: string
  LeaderElection :: bool
  LeaderElectionID :: string

datatype call =
    CertWatcherNew cert_watcher string string
  | WebhookNewServer "slice option"
  | GetConfigOrDie
  | NewManager ManagerOptions
  | SetupController
  | RegisterHandler string
  | AddWatcher cert_watcher
  | AddHealthz string
  | AddReadyz string
  | Start

text \<open>
  \<open>env cs c\<close> is the error of the call \<open>c\<close> after the calls \<open>cs\<close>; \<open>GetConfigOrDie\<close> exits itself on an
  error. What a run leaves: the exit code when the process exited, all calls in their order, and the memory.
\<close>

type_synonym env = "call list \<Rightarrow> call \<Rightarrow> goerror option"

type_synonym run = "nat option \<times> call list \<times> memory"

definition or_exit :: "env \<Rightarrow> call \<Rightarrow> call list \<Rightarrow> memory \<Rightarrow> (call list \<Rightarrow> run) \<Rightarrow> run" where
  "or_exit env c cs h k = (case env cs c of Some err \<Rightarrow> (Some 1, cs @ [c], h) | None \<Rightarrow> k (cs @ [c]))"

section \<open>main\<close>

text \<open>From the construction of the manager to the end.\<close>

definition main_manager ::
    "env \<Rightarrow> Flags \<Rightarrow> slice option \<Rightarrow> MetricsOptions \<Rightarrow> bool \<Rightarrow> bool \<Rightarrow> call list \<Rightarrow> memory \<Rightarrow> run" where
  "main_manager env f webhookServer metricsServerOptions hasMetricsWatcher hasWebhookWatcher cs h =
     or_exit env GetConfigOrDie cs h (\<lambda>cs.
     or_exit env (NewManager \<lparr>Metrics = metricsServerOptions, WebhookServer = webhookServer,
         HealthProbeBindAddress = probeAddr f, LeaderElection = enableLeaderElection f,
         LeaderElectionID = ''8bc2543b.example.com''\<rparr>) cs h (\<lambda>cs.
     or_exit env SetupController cs h (\<lambda>cs.
     (let cs = cs @ [RegisterHandler ''/mutate-v1-pod'']; 
          finish = (\<lambda>cs.
            or_exit env (AddHealthz ''healthz'') cs h (\<lambda>cs.
            or_exit env (AddReadyz ''readyz'') cs h (\<lambda>cs.
            or_exit env Start cs h (\<lambda>cs. (None, cs, h)))));
          webhook = (\<lambda>cs. if hasWebhookWatcher
            then or_exit env (AddWatcher WebhookCertWatcher) cs h finish else finish cs)
      in if hasMetricsWatcher
         then or_exit env (AddWatcher MetricsCertWatcher) cs h webhook else webhook cs))))"

text \<open>The options of the two servers.\<close>

definition main_metrics ::
    "(nat \<Rightarrow> nat) \<Rightarrow> env \<Rightarrow> Flags \<Rightarrow> slice option \<Rightarrow> slice option \<Rightarrow> bool \<Rightarrow> call list \<Rightarrow> memory \<Rightarrow> run" where
  "main_metrics grow env f tlsOpts webhookServer hasWebhookWatcher cs h =
     (let metricsServerOptions = \<lparr>BindAddress = metricsAddr f, SecureServing = secureMetrics f,
            TLSOpts = tlsOpts, FilterProvider = None\<rparr>;
          metricsServerOptions = (if secureMetrics f
            then metricsServerOptions\<lparr>FilterProvider := Some ''WithAuthenticationAndAuthorization''\<rparr>
            else metricsServerOptions)
      in if metricsCertPath f \<noteq> ''''
         then or_exit env (CertWatcherNew MetricsCertWatcher (go_Join [metricsCertPath f, metricsCertName f])
                (go_Join [metricsCertPath f, metricsCertKey f])) cs h (\<lambda>cs.
              (case append_option grow (TLSOpts metricsServerOptions) (UseCertificateOf MetricsCertWatcher) h of
                 (opts, h1) \<Rightarrow> main_manager env f webhookServer (metricsServerOptions\<lparr>TLSOpts := opts\<rparr>)
                   True hasWebhookWatcher cs h1))
         else main_manager env f webhookServer metricsServerOptions False hasWebhookWatcher cs h)"

definition operator_main :: "(nat \<Rightarrow> nat) \<Rightarrow> env \<Rightarrow> Flags \<Rightarrow> memory \<Rightarrow> run" where
  "operator_main grow env f h =
     (case (if \<not> enableHTTP2 f then append_option grow None DisableHTTP2 h else (None, h)) of
        (tlsOpts, h1) \<Rightarrow>
          (let webhookTLSOpts = tlsOpts in
           if webhookCertPath f \<noteq> ''''
           then or_exit env (CertWatcherNew WebhookCertWatcher (go_Join [webhookCertPath f, webhookCertName f])
                  (go_Join [webhookCertPath f, webhookCertKey f])) [] h1 (\<lambda>cs.
                (case append_option grow webhookTLSOpts (UseCertificateOf WebhookCertWatcher) h1 of
                   (webhookTLSOpts, h2) \<Rightarrow>
                     main_metrics grow env f tlsOpts webhookTLSOpts True (cs @ [WebhookNewServer webhookTLSOpts]) h2))
           else main_metrics grow env f tlsOpts webhookTLSOpts False [WebhookNewServer webhookTLSOpts] h1))"

section \<open>The order of the calls\<close>

text \<open>
  The abstract machine: a fixed sequence of calls that depends on the flags only, run until the first call
  that returns an error. Making a server and registering a handler return none.
\<close>

fun fallible :: "call \<Rightarrow> bool" where
  "fallible (WebhookNewServer s) = False"
| "fallible (RegisterHandler p) = False"
| "fallible c = True"

fun run_plan :: "env \<Rightarrow> call list \<Rightarrow> call list \<Rightarrow> nat option \<times> call list" where
  "run_plan env cs [] = (None, cs)"
| "run_plan env cs (c # rest) =
     (if fallible c \<and> env cs c \<noteq> None then (Some 1, cs @ [c]) else run_plan env (cs @ [c]) rest)"

definition manager_options :: "Flags \<Rightarrow> slice option \<Rightarrow> slice option \<Rightarrow> ManagerOptions" where
  "manager_options f w m =
     \<lparr>Metrics = \<lparr>BindAddress = metricsAddr f, SecureServing = secureMetrics f, TLSOpts = m,
        FilterProvider = (if secureMetrics f then Some ''WithAuthenticationAndAuthorization'' else None)\<rparr>,
      WebhookServer = w, HealthProbeBindAddress = probeAddr f, LeaderElection = enableLeaderElection f,
      LeaderElectionID = ''8bc2543b.example.com''\<rparr>"

definition manager_plan :: "ManagerOptions \<Rightarrow> bool \<Rightarrow> bool \<Rightarrow> call list" where
  "manager_plan mo hasMetrics hasWebhook =
     [GetConfigOrDie, NewManager mo, SetupController, RegisterHandler ''/mutate-v1-pod''] @
     (if hasMetrics then [AddWatcher MetricsCertWatcher] else []) @
     (if hasWebhook then [AddWatcher WebhookCertWatcher] else []) @
     [AddHealthz ''healthz'', AddReadyz ''readyz'', Start]"

definition start_plan :: "Flags \<Rightarrow> slice option \<Rightarrow> slice option \<Rightarrow> call list" where
  "start_plan f w m =
     (let hasWebhook = webhookCertPath f \<noteq> ''''; hasMetrics = metricsCertPath f \<noteq> '''' in
      (if hasWebhook then [CertWatcherNew WebhookCertWatcher (go_Join [webhookCertPath f, webhookCertName f])
         (go_Join [webhookCertPath f, webhookCertKey f])] else []) @
      WebhookNewServer w #
      (if hasMetrics then [CertWatcherNew MetricsCertWatcher (go_Join [metricsCertPath f, metricsCertName f])
         (go_Join [metricsCertPath f, metricsCertKey f])] else []) @
      manager_plan (manager_options f w m) hasMetrics hasWebhook)"

text \<open>The option lists of the webhook server and of the metrics server, and the memory once both are made.\<close>

definition servers :: "(nat \<Rightarrow> nat) \<Rightarrow> Flags \<Rightarrow> memory \<Rightarrow> slice option \<times> slice option \<times> memory" where
  "servers grow f h =
     (case (if \<not> enableHTTP2 f then append_option grow None DisableHTTP2 h else (None, h)) of
        (t, h1) \<Rightarrow>
          (case (if webhookCertPath f \<noteq> '''' then append_option grow t (UseCertificateOf WebhookCertWatcher) h1
                 else (t, h1)) of
             (w, h2) \<Rightarrow>
               (case (if metricsCertPath f \<noteq> '''' then append_option grow t (UseCertificateOf MetricsCertWatcher) h2
                      else (t, h2)) of
                  (m, h3) \<Rightarrow> (w, m, h3))))"

definition with_memory :: "memory \<Rightarrow> nat option \<times> call list \<Rightarrow> run" where
  "with_memory h r = (fst r, snd r, h)"

lemma plan_end: "with_memory h (run_plan env cs []) = (None, cs, h)"
  by (simp add: with_memory_def)

lemma plan_step:
  "fallible c \<Longrightarrow> with_memory h (run_plan env cs (c # p)) =
     or_exit env c cs h (\<lambda>cs. with_memory h (run_plan env cs p))"
  by (auto simp: or_exit_def with_memory_def split: option.split)

lemma plan_skip:
  "\<not> fallible c \<Longrightarrow> with_memory h (run_plan env cs (c # p)) = with_memory h (run_plan env (cs @ [c]) p)"
  by simp

lemma manager_runs_plan:
  "main_manager env f w (Metrics (manager_options f w m)) a b cs h =
     with_memory h (run_plan env cs (manager_plan (manager_options f w m) a b))"
  by (cases a; cases b) (simp_all add: main_manager_def manager_plan_def manager_options_def
      plan_step plan_skip plan_end Let_def del: run_plan.simps)

lemma metrics_runs_plan:
  assumes "(if metricsCertPath f \<noteq> '''' then append_option grow t (UseCertificateOf MetricsCertWatcher) h
      else (t, h)) = (m, h3)"
  shows "\<exists>h'. main_metrics grow env f t w b cs h =
      with_memory h' (run_plan env cs
        ((if metricsCertPath f \<noteq> '''' then [CertWatcherNew MetricsCertWatcher (go_Join [metricsCertPath f, metricsCertName f])
         (go_Join [metricsCertPath f, metricsCertKey f])] else []) @
         manager_plan (manager_options f w m) (metricsCertPath f \<noteq> '''') b)) \<and>
    (\<forall>mo. NewManager mo \<in> set (fst (snd (main_metrics grow env f t w b cs h))) \<longrightarrow>
       NewManager mo \<in> set cs \<or> h' = h3)"
proof (cases "metricsCertPath f = ''''")
  case True
  with assms have m: "m = t" "h3 = h" by simp_all
  have "main_metrics grow env f t w b cs h = with_memory h (run_plan env cs
      (manager_plan (manager_options f w t) False b))"
    unfolding manager_runs_plan [symmetric]
    by (simp add: main_metrics_def True manager_options_def Let_def)
  with m True show ?thesis by (intro exI [of _ h]) simp
next
  case False
  let ?c = "CertWatcherNew MetricsCertWatcher (go_Join [metricsCertPath f, metricsCertName f])
    (go_Join [metricsCertPath f, metricsCertKey f])"
  have "main_metrics grow env f t w b cs h = or_exit env ?c cs h (\<lambda>cs.
      main_manager env f w (Metrics (manager_options f w m)) True b cs h3)"
    using assms False by (simp add: main_metrics_def manager_options_def Let_def)
  then have e: "main_metrics grow env f t w b cs h = or_exit env ?c cs h (\<lambda>cs.
      with_memory h3 (run_plan env cs (manager_plan (manager_options f w m) True b)))"
    unfolding manager_runs_plan .
  show ?thesis
  proof (cases "env cs ?c")
    case None
    then show ?thesis using False unfolding e
      by (intro exI [of _ h3]) (simp add: or_exit_def)
  next
    case (Some err)
    then show ?thesis using False unfolding e
      by (intro exI [of _ h]) (simp add: or_exit_def with_memory_def)
  qed
qed

lemma main_runs_plan:
  assumes "servers grow f h = (w, m, h3)"
  shows "\<exists>h'. operator_main grow env f h = with_memory h' (run_plan env [] (start_plan f w m)) \<and>
    (\<forall>mo. NewManager mo \<in> set (fst (snd (operator_main grow env f h))) \<longrightarrow> h' = h3)"
proof -
  obtain t h1 where t: "(if \<not> enableHTTP2 f then append_option grow None DisableHTTP2 h else (None, h)) = (t, h1)"
    by (rule prod.exhaust)
  obtain h2 where w: "(if webhookCertPath f \<noteq> '''' then append_option grow t (UseCertificateOf WebhookCertWatcher) h1
      else (t, h1)) = (w, h2)"
    and m: "(if metricsCertPath f \<noteq> '''' then append_option grow t (UseCertificateOf MetricsCertWatcher) h2
      else (t, h2)) = (m, h3)"
    using assms unfolding servers_def t by (auto split: prod.splits)
  show ?thesis
  proof (cases "webhookCertPath f = ''''")
    case True
    with w have w': "w = t" "h2 = h1" by simp_all
    have "operator_main grow env f h = main_metrics grow env f t t False [WebhookNewServer t] h1"
      using True unfolding operator_main_def t by simp
    then show ?thesis
      using metrics_runs_plan [OF m, of env w False "[WebhookNewServer t]"] True w'
      by (simp add: start_plan_def Let_def)
  next
    case False
    let ?c = "CertWatcherNew WebhookCertWatcher (go_Join [webhookCertPath f, webhookCertName f])
      (go_Join [webhookCertPath f, webhookCertKey f])"
    have e: "operator_main grow env f h = or_exit env ?c [] h1 (\<lambda>cs.
        main_metrics grow env f t w True (cs @ [WebhookNewServer w]) h2)"
      using False w unfolding operator_main_def t by simp
    show ?thesis
    proof (cases "env [] ?c")
      case None
      then show ?thesis
        using metrics_runs_plan [OF m, of env w True "[?c, WebhookNewServer w]"] False unfolding e
        by (simp add: or_exit_def start_plan_def Let_def)
    next
      case (Some err)
      then show ?thesis using False unfolding e
        by (intro exI [of _ h1]) (simp add: or_exit_def with_memory_def start_plan_def Let_def)
    qed
  qed
qed

lemma run_plan_shape:
  assumes "run_plan env cs p = (e, cs')"
  shows "\<exists>ds rest. p = ds @ rest \<and> cs' = cs @ ds \<and>
    (e = None \<and> rest = [] \<or>
     e = Some 1 \<and> ds \<noteq> [] \<and> fallible (last ds) \<and> env (cs @ butlast ds) (last ds) \<noteq> None) \<and>
    (\<forall>bs c as. ds = bs @ c # as \<longrightarrow> as \<noteq> [] \<or> e = None \<longrightarrow> fallible c \<longrightarrow> env (cs @ bs) c = None)"
  using assms
proof (induction p arbitrary: cs)
  case Nil
  then show ?case by auto
next
  case (Cons c p)
  show ?case
  proof (cases "fallible c \<and> env cs c \<noteq> None")
    case True
    with Cons.prems show ?thesis
      by (intro exI [of _ "[c]"] exI [of _ p]) (auto simp: Cons_eq_append_conv)
  next
    case False
    with Cons.prems have "run_plan env (cs @ [c]) p = (e, cs')" by auto
    from Cons.IH [OF this] obtain ds rest where
      ih: "p = ds @ rest" "cs' = (cs @ [c]) @ ds"
        "e = None \<and> rest = [] \<or> e = Some 1 \<and> ds \<noteq> [] \<and> fallible (last ds) \<and>
          env ((cs @ [c]) @ butlast ds) (last ds) \<noteq> None"
        "\<And>bs d as. ds = bs @ d # as \<Longrightarrow> as \<noteq> [] \<or> e = None \<Longrightarrow> fallible d \<Longrightarrow> env ((cs @ [c]) @ bs) d = None"
      by blast
    have "env (cs @ bs) d = None"
      if "c # ds = bs @ d # as" "as \<noteq> [] \<or> e = None" "fallible d" for bs d as
    proof (cases bs)
      case Nil
      with that False show ?thesis by auto
    next
      case (Cons b bs')
      with that ih(4) [of bs' d as] show ?thesis by auto
    qed
    with ih(1-3) show ?thesis by (intro exI [of _ "c # ds"] exI [of _ rest]) auto
  qed
qed

section \<open>The options the servers end up with\<close>

text \<open>
  \<open>shared\<close>: the array of \<open>tlsOpts\<close> has room for a second option, so that both appends write the same
  element of it.
\<close>

definition shared :: "(nat \<Rightarrow> nat) \<Rightarrow> Flags \<Rightarrow> bool" where
  "shared grow f \<longleftrightarrow> \<not> enableHTTP2 f \<and> grow 1 > 1 \<and> metricsCertPath f \<noteq> ''''"

definition base_config :: "Flags \<Rightarrow> tls_config \<Rightarrow> tls_config" where
  "base_config f c = (if enableHTTP2 f then c else c\<lparr>NextProtos := [''http/1.1'']\<rparr>)"

lemma append_nil:
  obtains h1 where "append_option grow None x h =
      (Some \<lparr>array = next_free h, offset = 0, slen = 1, scap = max 1 (grow 1)\<rparr>, h1)"
    "cells h1 = (cells h)(next_free h := x # replicate (max 1 (grow 1) - 1) NilOption)"
    "next_free h1 = Suc (next_free h)"
proof -
  obtain h1 where "go_new (x # replicate (max 1 (grow 1) - 1) NilOption) h = (next_free h, h1)"
    "next_free h1 = Suc (next_free h)"
    "cells h1 = (cells h)(next_free h := x # replicate (max 1 (grow 1) - 1) NilOption)"
    by (rule go_newE)
  then show thesis
    by (intro that [of h1]) (simp_all add: append_option_def go_append_def has_room_def slice_list_def)
qed

lemma append_full:
  assumes "slen s = 1" "scap s \<le> 1" "offset s = 0" "cells h (array s) = [y]"
  obtains h1 n where "append_option grow (Some s) x h =
      (Some \<lparr>array = next_free h, offset = 0, slen = 2, scap = max 2 (grow 2)\<rparr>, h1)"
    "cells h1 = (cells h)(next_free h := y # x # replicate n NilOption)"
    "next_free h1 = Suc (next_free h)"
proof -
  let ?n = "max 2 (grow 2) - 2"
  obtain h1 where "go_new (y # x # replicate ?n NilOption) h = (next_free h, h1)"
    "next_free h1 = Suc (next_free h)" "cells h1 = (cells h)(next_free h := y # x # replicate ?n NilOption)"
    by (rule go_newE)
  then show thesis
    using assms by (intro that [of h1 ?n])
      (simp_all add: append_option_def go_append_def has_room_def slice_list_def elems_def numeral_2_eq_2)
qed

lemma append_in_place:
  assumes "slen s = 1" "1 < scap s" "offset s = 0" "cells h (array s) = y # z # ys"
  obtains h1 where "append_option grow (Some s) x h = (Some (s\<lparr>slen := 2\<rparr>), h1)"
    "cells h1 = (cells h)(array s := y # x # ys)" "next_free h1 = next_free h"
  using assms by (intro that [of "store (array s) (\<lambda>c. c[1 := x]) h"])
    (simp_all add: append_option_def go_append_def has_room_def numeral_2_eq_2)

lemma servers_configs:
  assumes "servers grow f h = (w, m, h3)"
  shows "server_config h3 w c = (if webhookCertPath f = '''' then base_config f c
      else (base_config f c)\<lparr>GetCertificate := Some (if shared grow f then MetricsCertWatcher else WebhookCertWatcher)\<rparr>)"
    and "server_config h3 m c = (if metricsCertPath f = '''' then base_config f c
      else (base_config f c)\<lparr>GetCertificate := Some MetricsCertWatcher\<rparr>)"
proof -
  let ?wb = "UseCertificateOf WebhookCertWatcher" and ?mt = "UseCertificateOf MetricsCertWatcher"
  let ?W = "\<lambda>t h. if webhookCertPath f \<noteq> '''' then append_option grow t ?wb h else (t, h)"
  let ?M = "\<lambda>t h. if metricsCertPath f \<noteq> '''' then append_option grow t ?mt h else (t, h)"
  obtain t h1 where t: "(if \<not> enableHTTP2 f then append_option grow None DisableHTTP2 h else (None, h)) = (t, h1)"
    by (rule prod.exhaust)
  obtain h2 where w: "?W t h1 = (w, h2)" and m: "?M t h2 = (m, h3)"
    using assms unfolding servers_def t by (auto split: prod.splits)
  note cfg = server_config_def slice_list_def elems_def base_config_def shared_def
  have "server_config h3 w c = (if webhookCertPath f = '''' then base_config f c
      else (base_config f c)\<lparr>GetCertificate := Some (if shared grow f then MetricsCertWatcher else WebhookCertWatcher)\<rparr>) \<and>
    server_config h3 m c = (if metricsCertPath f = '''' then base_config f c
      else (base_config f c)\<lparr>GetCertificate := Some MetricsCertWatcher\<rparr>)"
  proof (cases "enableHTTP2 f")
    case True
    then have t': "t = None" "h1 = h" using t by simp_all
    obtain a where a: "append_option grow None ?wb h =
        (Some \<lparr>array = next_free h, offset = 0, slen = 1, scap = max 1 (grow 1)\<rparr>, a)"
      "cells a = (cells h)(next_free h := ?wb # replicate (max 1 (grow 1) - 1) NilOption)"
      "next_free a = Suc (next_free h)" by (rule append_nil)
    obtain b where b: "append_option grow None ?mt h2 =
        (Some \<lparr>array = next_free h2, offset = 0, slen = 1, scap = max 1 (grow 1)\<rparr>, b)"
      "cells b = (cells h2)(next_free h2 := ?mt # replicate (max 1 (grow 1) - 1) NilOption)"
      "next_free b = Suc (next_free h2)" by (rule append_nil)
    show ?thesis
      using w m True a b unfolding t' by (auto simp: cfg split: if_splits)
  next
    case False
    obtain a where a: "append_option grow None DisableHTTP2 h =
        (Some \<lparr>array = next_free h, offset = 0, slen = 1, scap = max 1 (grow 1)\<rparr>, a)"
      "cells a = (cells h)(next_free h := DisableHTTP2 # replicate (max 1 (grow 1) - 1) NilOption)"
      "next_free a = Suc (next_free h)" by (rule append_nil)
    have t': "t = Some \<lparr>array = next_free h, offset = 0, slen = 1, scap = max 1 (grow 1)\<rparr>" "h1 = a"
      using t False a(1) by simp_all
    let ?t = "\<lparr>array = next_free h, offset = 0, slen = 1, scap = max 1 (grow 1)\<rparr>"
    show ?thesis
    proof (cases "grow 1 \<le> 1")
      case True
      have ca: "cells a (array ?t) = [DisableHTTP2]" using a(2) True by simp
      obtain b n where b: "append_option grow (Some ?t) ?wb a =
          (Some \<lparr>array = next_free a, offset = 0, slen = 2, scap = max 2 (grow 2)\<rparr>, b)"
        "cells b = (cells a)(next_free a := DisableHTTP2 # ?wb # replicate n NilOption)"
        "next_free b = Suc (next_free a)"
        by (rule append_full [of ?t a DisableHTTP2 grow ?wb]) (use True ca in auto)
      have h2: "cells h2 (array ?t) = [DisableHTTP2]" "next_free h < next_free h2"
        using w b a(3) ca unfolding t' by (auto split: if_splits)
      obtain d k where d: "append_option grow (Some ?t) ?mt h2 =
          (Some \<lparr>array = next_free h2, offset = 0, slen = 2, scap = max 2 (grow 2)\<rparr>, d)"
        "cells d = (cells h2)(next_free h2 := DisableHTTP2 # ?mt # replicate k NilOption)"
        "next_free d = Suc (next_free h2)"
        by (rule append_full [of ?t h2 DisableHTTP2 grow ?mt]) (use True h2 in auto)
      show ?thesis
        using w m True False b d h2 ca unfolding t' by (auto simp: cfg split: if_splits)
    next
      case gt: False
      then obtain k where k: "max 1 (grow 1) = Suc (Suc k)" by (metis Suc_leI add_Suc leI le_Suc_ex less_imp_le max.absorb2 One_nat_def plus_1_eq_Suc)
      have ca: "cells a (array ?t) = DisableHTTP2 # NilOption # replicate k NilOption" using a(2) k by simp
      obtain b where b: "append_option grow (Some ?t) ?wb a = (Some (?t\<lparr>slen := 2\<rparr>), b)"
        "cells b = (cells a)(array ?t := DisableHTTP2 # ?wb # replicate k NilOption)" "next_free b = next_free a"
        by (rule append_in_place [of ?t a DisableHTTP2 NilOption "replicate k NilOption" grow ?wb])
          (use k ca in auto)
      obtain z where h2: "cells h2 (array ?t) = DisableHTTP2 # z # replicate k NilOption"
        and z: "webhookCertPath f \<noteq> '''' \<Longrightarrow> z = ?wb"
        using w b a(3) ca unfolding t' by (auto split: if_splits)
      obtain d where d: "append_option grow (Some ?t) ?mt h2 = (Some (?t\<lparr>slen := 2\<rparr>), d)"
        "cells d = (cells h2)(array ?t := DisableHTTP2 # ?mt # replicate k NilOption)" "next_free d = next_free h2"
        by (rule append_in_place [of ?t h2 DisableHTTP2 z "replicate k NilOption" grow ?mt])
          (use k h2 in auto)
      show ?thesis
        using w m gt False b d h2 z ca unfolding t' by (auto simp: cfg split: if_splits)
    qed
  qed
  then show "server_config h3 w c = (if webhookCertPath f = '''' then base_config f c
      else (base_config f c)\<lparr>GetCertificate := Some (if shared grow f then MetricsCertWatcher else WebhookCertWatcher)\<rparr>)"
    "server_config h3 m c = (if metricsCertPath f = '''' then base_config f c
      else (base_config f c)\<lparr>GetCertificate := Some MetricsCertWatcher\<rparr>)" by blast+
qed

lemma main_shape:
  assumes "operator_main grow env f h = (e, cs, h')"
  shows "\<exists>w m h3. servers grow f h = (w, m, h3) \<and> run_plan env [] (start_plan f w m) = (e, cs) \<and>
    ((\<exists>mo. NewManager mo \<in> set cs) \<longrightarrow> h' = h3)"
proof -
  obtain w m h3 where s: "servers grow f h = (w, m, h3)" by (rule prod_cases3)
  from main_runs_plan [OF s, of env] assms
  have "with_memory h' (run_plan env [] (start_plan f w m)) = (e, cs, h')"
    and "(\<exists>mo. NewManager mo \<in> set cs) \<longrightarrow> h' = h3"
    by (auto simp: with_memory_def)
  with s show ?thesis by (auto simp: with_memory_def prod_eq_iff)
qed

lemma plan_calls:
  "WebhookNewServer ws \<in> set (start_plan f w m) \<Longrightarrow> ws = w"
  "NewManager mo \<in> set (start_plan f w m) \<Longrightarrow> mo = manager_options f w m"
  by (auto simp: start_plan_def manager_plan_def Let_def split: if_splits)

lemma run_plan_subset: "run_plan env [] p = (e, cs) \<Longrightarrow> set cs \<subseteq> set p"
  using run_plan_shape [of env "[]" p e cs] by auto

text \<open>A run that reaches the start of the manager has made every call of the sequence.\<close>

lemma started_plan:
  assumes "operator_main grow env f h = (e, cs, h')" and "Start \<in> set cs"
  obtains w m where "servers grow f h = (w, m, h')" and "cs = start_plan f w m"
proof -
  obtain w m h3 where s: "servers grow f h = (w, m, h3)" "run_plan env [] (start_plan f w m) = (e, cs)"
    "(\<exists>mo. NewManager mo \<in> set cs) \<longrightarrow> h' = h3" using main_shape [OF assms(1)] by blast
  obtain rest where p: "start_plan f w m = cs @ rest" using run_plan_shape [OF s(2)] by auto
  obtain pre where pre: "start_plan f w m = pre @ [Start]" "Start \<notin> set pre" "NewManager (manager_options f w m) \<in> set pre"
  proof -
    let ?p = "butlast (start_plan f w m)"
    have "start_plan f w m = ?p @ [Start]" "Start \<notin> set ?p" "NewManager (manager_options f w m) \<in> set ?p"
      by (auto simp: start_plan_def manager_plan_def Let_def butlast_append split: if_splits)
    then show thesis by (rule that)
  qed
  have "rest = []"
  proof (rule ccontr)
    assume "rest \<noteq> []"
    then obtain r x where "rest = r @ [x]" by (metis rev_exhaust)
    with p pre(1) have "pre = cs @ r" by simp
    with pre(2) assms(2) show False by simp
  qed
  with p have cs: "cs = start_plan f w m" by simp
  with pre(1,3) have "h' = h3" using s(3) by auto
  with s(1) cs show thesis by (intro that) simp_all
qed

section \<open>Properties\<close>

text \<open>
  C12: the TLS configuration that each server of the operator starts with. HTTP/2 is off on both unless the
  flag enables it; the metrics server presents the certificate of its own watcher; the webhook server presents
  its own one too, except when the runtime gives the first \<open>append\<close> of \<open>tlsOpts\<close> room for more than one
  option: then both appends write the same element, and the webhook server presents the certificate of the
  metrics server. The Go runtime gives a slice of one function a capacity of one, the language does not say so.
\<close>

theorem server_certificates:
  assumes "operator_main grow env f h = (e, cs, h')"
    and "WebhookNewServer ws \<in> set cs" and "NewManager mo \<in> set cs"
  shows "server_config h' ws c = (if webhookCertPath f = '''' then base_config f c
      else (base_config f c)\<lparr>GetCertificate := Some
        (if \<not> enableHTTP2 f \<and> grow 1 > 1 \<and> metricsCertPath f \<noteq> '''' then MetricsCertWatcher
         else WebhookCertWatcher)\<rparr>) \<and>
    server_config h' (TLSOpts (Metrics mo)) c = (if metricsCertPath f = '''' then base_config f c
      else (base_config f c)\<lparr>GetCertificate := Some MetricsCertWatcher\<rparr>)"
proof -
  obtain w m h3 where s: "servers grow f h = (w, m, h3)" "run_plan env [] (start_plan f w m) = (e, cs)"
    "h' = h3" using main_shape [OF assms(1)] assms(3) by blast
  have "ws = w" "mo = manager_options f w m"
    using plan_calls run_plan_subset [OF s(2)] assms(2,3) by blast+
  then show ?thesis
    using servers_configs [OF s(1), of c] s(3) unfolding shared_def by (simp add: manager_options_def)
qed

text \<open>
  C13: the order of the start. Whatever fails, the calls of a run are a beginning of the sequence watcher,
  webhook server, watcher, configuration, manager, controller, handler, watchers, health check, ready check,
  start, in which all fallible calls but the last one have succeeded; the process exits with code 1 exactly
  when that last call failed. So the manager is started only after everything is registered, and nothing
  is called after a failure.
\<close>

theorem operator_start_order:
  assumes "operator_main grow env f h = (e, cs, h')"
  shows "\<exists>w m rest. start_plan f w m = cs @ rest \<and>
    (e = None \<and> rest = [] \<or>
     e = Some 1 \<and> cs \<noteq> [] \<and> fallible (last cs) \<and> env (butlast cs) (last cs) \<noteq> None) \<and>
    (\<forall>bs c as. cs = bs @ c # as \<longrightarrow> as \<noteq> [] \<or> e = None \<longrightarrow> fallible c \<longrightarrow> env bs c = None)"
proof -
  obtain w m where "run_plan env [] (start_plan f w m) = (e, cs)" using main_shape [OF assms] by blast
  from run_plan_shape [OF this] show ?thesis by auto
qed

subsection \<open>Runs\<close>

definition cert_flags :: Flags where
  "cert_flags = default_flags\<lparr>webhookCertPath := ''/w'', metricsCertPath := ''/m''\<rparr>"

definition no_memory :: memory where
  "no_memory = \<lparr>cells = \<lambda>a. [], next_free = 0\<rparr>"

text \<open>The last call fails in \<open>no_start\<close>.\<close>

definition no_start :: env where
  "no_start cs c = (case c of Start \<Rightarrow> Some ''listen: address in use'' | _ \<Rightarrow> None)"

definition good_run :: run where
  "good_run = operator_main (\<lambda>n. n) (\<lambda>cs c. None) cert_flags no_memory"

definition roomy_run :: run where
  "roomy_run = operator_main (\<lambda>n. n + 3) (\<lambda>cs c. None) cert_flags no_memory"

definition made_server :: "call list \<Rightarrow> slice option" where
  "made_server cs = (case cs of _ # WebhookNewServer s # _ \<Rightarrow> s | _ \<Rightarrow> None)"

definition plain_config :: tls_config where
  "plain_config = \<lparr>NextProtos = [''h2''], GetCertificate = None\<rparr>"

lemma manager_call: "(case c of NewManager mo \<Rightarrow> True | _ \<Rightarrow> False) \<Longrightarrow> \<exists>mo. c = NewManager mo"
  by (cases c) auto

theorem server_certificates_witness:
  "GetCertificate (server_config (snd (snd good_run)) (made_server (fst (snd good_run))) plain_config) =
     Some WebhookCertWatcher \<and>
   GetCertificate (server_config (snd (snd roomy_run)) (made_server (fst (snd roomy_run))) plain_config) =
     Some MetricsCertWatcher"
proof -
  have e: "operator_main (\<lambda>n. n) (\<lambda>cs c. None) cert_flags no_memory = (fst good_run, fst (snd good_run), snd (snd good_run))"
    "operator_main (\<lambda>n. n + 3) (\<lambda>cs c. None) cert_flags no_memory = (fst roomy_run, fst (snd roomy_run), snd (snd roomy_run))"
    by (simp_all add: good_run_def roomy_run_def)
  have "list_ex (\<lambda>c. c = WebhookNewServer (made_server (fst (snd good_run)))) (fst (snd good_run))"
    "list_ex (\<lambda>c. c = WebhookNewServer (made_server (fst (snd roomy_run)))) (fst (snd roomy_run))"
    "list_ex (\<lambda>c. case c of NewManager mo \<Rightarrow> True | _ \<Rightarrow> False) (fst (snd good_run))"
    "list_ex (\<lambda>c. case c of NewManager mo \<Rightarrow> True | _ \<Rightarrow> False) (fst (snd roomy_run))"
    by code_simp+
  then obtain mo1 mo2 where s: "WebhookNewServer (made_server (fst (snd good_run))) \<in> set (fst (snd good_run))"
    "WebhookNewServer (made_server (fst (snd roomy_run))) \<in> set (fst (snd roomy_run))"
    "NewManager mo1 \<in> set (fst (snd good_run))" "NewManager mo2 \<in> set (fst (snd roomy_run))"
    unfolding list_ex_iff using manager_call by blast
  show ?thesis
    using server_certificates [OF e(1) s(1,3), of plain_config] server_certificates [OF e(2) s(2,4), of plain_config]
    by (simp add: cert_flags_def default_flags_def)
qed

theorem operator_start_order_witness:
  "\<exists>cs h' w m. operator_main (\<lambda>n. n) no_start cert_flags no_memory = (Some 1, cs, h') \<and>
     cs = start_plan cert_flags w m"
proof -
  obtain e cs h' where run: "operator_main (\<lambda>n. n) no_start cert_flags no_memory = (e, cs, h')"
    by (rule prod_cases3)
  have "fst (operator_main (\<lambda>n. n) no_start cert_flags no_memory) = Some 1"
    "length (fst (snd (operator_main (\<lambda>n. n) no_start cert_flags no_memory))) = 12" by code_simp+
  then have r: "e = Some 1" "length cs = 12" unfolding run by simp_all
  obtain w m rest where p: "start_plan cert_flags w m = cs @ rest"
    using operator_start_order [OF run] by blast
  have "length (start_plan cert_flags w m) = 12"
    by (simp add: start_plan_def manager_plan_def cert_flags_def default_flags_def Let_def)
  with r(2) have "rest = []" unfolding p by simp
  with p run r(1) show ?thesis by auto
qed

end
