(* ===== verification/CheckCert.thy ===== *)
theory CheckCert
  imports CertGen
begin

text \<open>
  \<open>build/check-cert.go\<close>: the tool that prints a certificate file and warns when it cannot serve a webhook. The
  decoder of PEM blocks and the parser of certificates are parameters; base64 is written out.
\<close>

section \<open>Base64\<close>

text \<open>\<open>base64.StdEncoding\<close>: three bytes are four digits of six bits, the rest is padded.\<close>

definition b64_alphabet :: string where
  "b64_alphabet = ''ABCDEFGHIJKLMNOPQRSTUVWXYZabcdefghijklmnopqrstuvwxyz0123456789+/''"

definition b64_digit :: "nat \<Rightarrow> char" where
  "b64_digit n = b64_alphabet ! (n mod 64)"

fun base64 :: "bytes \<Rightarrow> string" where
  "base64 [] = []"
| "base64 [a] = (let n = unat a * 16 in [b64_digit (n div 64), b64_digit n, CHR ''='', CHR ''=''])"
| "base64 [a, b] = (let n = (unat a * 256 + unat b) * 4 in
     [b64_digit (n div 4096), b64_digit (n div 64), b64_digit n, CHR ''=''])"
| "base64 (a # b # c # xs) = (let n = (unat a * 256 + unat b) * 256 + unat c in
     [b64_digit (n div 262144), b64_digit (n div 4096), b64_digit (n div 64), b64_digit n] @ base64 xs)"

section \<open>main\<close>

text \<open>What the tool reads of an \<open>x509.Certificate\<close>; the two names are their printed forms.\<close>

record x509 =
  xSubject :: string
  xIssuer :: string
  xDNSNames :: "string list"
  xIsCA :: bool
  xCommonName :: string

definition nl :: char where
  "nl = CHR 0x0A"

fun print_list :: "string list \<Rightarrow> string" where
  "print_list [] = []"
| "print_list [x] = x"
| "print_list (x # xs) = x @ '' '' @ print_list xs"

text \<open>The warning sign is U+26A0 U+FE0F in UTF-8.\<close>

definition warning_sign :: string where
  "warning_sign = [CHR 0xE2, CHR 0x9A, CHR 0xA0, CHR 0xEF, CHR 0xB8, CHR 0x8F]"

definition ca_warning :: string where
  "ca_warning = nl # warning_sign @ ''  WARNING: This is a CA certificate, not a server certificate!'' @ [nl]"

definition san_warning :: string where
  "san_warning = nl # warning_sign @ ''  WARNING: No DNS SANs found in the certificate!'' @ [nl]"

text \<open>The output, one element per call of a print function; \<open>rd\<close> is the result of reading the file.\<close>

definition check_cert ::
    "(bytes \<Rightarrow> bytes option) \<Rightarrow> (bytes \<Rightarrow> goerror + x509) \<Rightarrow> goerror + bytes \<Rightarrow> string list" where
  "check_cert pemDecode parseCertificate rd =
     (case rd of
        Inl err \<Rightarrow> [''Error reading file: '' @ err @ [nl]]
      | Inr data \<Rightarrow>
     (case pemDecode data of
        None \<Rightarrow> [''Failed to decode PEM'' @ [nl]]
      | Some block \<Rightarrow>
     (case parseCertificate block of
        Inl err \<Rightarrow> [''Error parsing certificate: '' @ err @ [nl]]
      | Inr cert \<Rightarrow>
          [''Subject: '' @ xSubject cert @ [nl], ''Issuer: '' @ xIssuer cert @ [nl],
           ''DNS Names: ['' @ print_list (xDNSNames cert) @ '']'' @ [nl],
           ''Is CA: '' @ (if xIsCA cert then ''true'' else ''false'') @ [nl],
           ''Subject CommonName: '' @ xCommonName cert @ [nl]] @
          (if xIsCA cert
           then [ca_warning, ''The certificate needs to be a server certificate with DNS SANs.'' @ [nl]] else []) @
          (if length (xDNSNames cert) = 0
           then [san_warning, ''The certificate needs DNS SANs for the webhook service.'' @ [nl]] else []) @
          [nl # ''Base64 encoded:'' @ nl # base64 data @ [nl]])))"

section \<open>The tool on the certificates of the operator\<close>

definition warnings :: "string list \<Rightarrow> string list" where
  "warnings out = filter (\<lambda>l. l = ca_warning \<or> l = san_warning) out"

text \<open>
  What the libraries promise of a certificate that was made from a template: its PEM form decodes to it, and
  it parses to the names of the template, as a CA exactly when the template says so in valid basic constraints.
\<close>

definition parses_back ::
    "(date, 'priv, 'pub, 'r) crypto \<Rightarrow> (bytes \<Rightarrow> bytes option) \<Rightarrow> (bytes \<Rightarrow> goerror + x509) \<Rightarrow> bool" where
  "parses_back cr pemDecode parseCertificate \<longleftrightarrow>
     (\<forall>t p pub priv r der r'. createCertificate cr t p pub priv r = (Inr der, r') \<longrightarrow>
        pemDecode (pemEncode cr ''CERTIFICATE'' der) = Some der \<and>
        (\<exists>c. parseCertificate der = Inr c \<and> xDNSNames c = DNSNames t \<and>
           xIsCA c = (BasicConstraintsValid t \<and> IsCA t)))"

lemma warnings_check:
  assumes "pemDecode data = Some block" "parseCertificate block = Inr c"
  shows "warnings (check_cert pemDecode parseCertificate (Inr data)) =
    (if xIsCA c then [ca_warning] else []) @ (if xDNSNames c = [] then [san_warning] else [])"
  using assms by (simp add: check_cert_def warnings_def ca_warning_def san_warning_def nl_def warning_sign_def)

section \<open>Properties\<close>

text \<open>
  C36: the tool tells the certificates of the operator apart. Of what \<open>GenerateCertificates\<close> makes, the server
  certificate passes without a warning when it was made for at least one name, and otherwise with the warning
  about missing names only; the CA certificate, put in its place, gives both warnings.
\<close>

theorem check_generated:
  assumes "parses_back cr pemDecode parseCertificate"
    and "GenerateCertificates cr hosts r = (Inr (caCert, serverCert, serverKey), r')"
  shows "warnings (check_cert pemDecode parseCertificate (Inr serverCert)) =
      (if hosts = [] then [san_warning] else []) \<and>
    warnings (check_cert pemDecode parseCertificate (Inr caCert)) = [ca_warning, san_warning]"
proof -
  from generated_from_templates [OF assms(2)] obtain caKey sKey t1 t2 t3 t4 caBytes sBytes s1 s2 s3 s4 where
    ca: "createCertificate cr (ca_template t1 t2) (ca_template t1 t2) (publicKey cr caKey) caKey s1 = (Inr caBytes, s2)"
    and sv: "createCertificate cr (server_template hosts t3 t4) (ca_template t1 t2) (publicKey cr sKey) caKey s3 = (Inr sBytes, s4)"
    and pem: "caCert = pemEncode cr ''CERTIFICATE'' caBytes" "serverCert = pemEncode cr ''CERTIFICATE'' sBytes"
    by blast
  obtain c where c: "pemDecode caCert = Some caBytes" "parseCertificate caBytes = Inr c"
    "xDNSNames c = []" "xIsCA c"
    using assms(1) ca pem(1) unfolding parses_back_def by (fastforce simp: ca_template_def)
  obtain s where s: "pemDecode serverCert = Some sBytes" "parseCertificate sBytes = Inr s"
    "xDNSNames s = hosts" "\<not> xIsCA s"
    using assms(1) sv pem(2) unfolding parses_back_def by (fastforce simp: server_template_def)
  show ?thesis
    using warnings_check [of pemDecode serverCert sBytes parseCertificate s, OF s(1,2)]
      warnings_check [of pemDecode caCert caBytes parseCertificate c, OF c(1,2)] s(3,4) c(3,4) by simp
qed

text \<open>A library in which a certificate is its kind and its names.\<close>

fun write_names :: "string list \<Rightarrow> bytes" where
  "write_names [] = []"
| "write_names (s # ss) = concat (map (\<lambda>c. [1, of_nat (of_char c)]) s) @ 0 # write_names ss"

fun read_names :: "bytes \<Rightarrow> string \<Rightarrow> string list" where
  "read_names (x # c # bs) s = (if x = 0 then rev s # read_names (c # bs) [] else read_names bs (char_of (unat c) # s))"
| "read_names [x] s = [rev s]"
| "read_names [] s = []"

lemma byte_char: "char_of (unat (of_nat (of_char c) :: 8 word)) = c"
  by (simp add: unat_of_nat)

lemma read_name: "read_names (concat (map (\<lambda>c. [1, of_nat (of_char c)]) t) @ 0 # bs) s = (rev s @ t) # read_names bs []"
proof (induction t arbitrary: s)
  case Nil
  then show ?case by (cases bs) simp_all
qed (simp add: byte_char)

lemma read_write_names: "read_names (write_names ss) [] = ss"
  by (induction ss) (simp_all add: read_name)

definition toy_crypto :: "(date, nat, nat, nat) crypto" where
  "toy_crypto = \<lparr>now = (\<lambda>r. (\<lparr>year = 2026, month = 1, day = 1, nanos = 0\<rparr>, r)), generateKey = (\<lambda>r. (Inr r, Suc r)),
     createCertificate = (\<lambda>t p pub priv r.
       (Inr ((if BasicConstraintsValid t \<and> IsCA t then 1 else 0) # write_names (DNSNames t)), r)),
     publicKey = id, pemEncode = (\<lambda>ty b. b), marshalPKCS1 = (\<lambda>k. [])\<rparr>"

definition toy_parse :: "bytes \<Rightarrow> goerror + x509" where
  "toy_parse b = Inr \<lparr>xSubject = [], xIssuer = [], xDNSNames = read_names (tl b) [], xIsCA = (hd b = 1), xCommonName = []\<rparr>"

theorem check_generated_witness:
  "warnings (check_cert Some toy_parse (Inr (0 # write_names [''a.b'']))) = [] \<and>
   warnings (check_cert Some toy_parse (Inr [1])) = [ca_warning, san_warning]"
proof -
  have p: "parses_back toy_crypto Some toy_parse"
    by (simp add: parses_back_def toy_crypto_def toy_parse_def read_write_names)
  have "GenerateCertificates toy_crypto [''a.b''] 0 = (Inr ([1], 0 # write_names [''a.b''], []), 2)"
    by (simp add: GenerateCertificates_def toy_crypto_def ca_template_def server_template_def Let_def)
  from check_generated [OF p this] show ?thesis by simp
qed

end
