(* ===== verification/CertgenCli.thy ===== *)
theory CertgenCli
  imports WebhookCertgen
begin

text \<open>
  The command line of \<open>build/kube-webhook-certgen\<close>: the defaults of the flags, the commands with what runs
  before them, and the ways the process ends. The parsing by cobra is a parameter: its result is an
  error, or the chosen command with the configuration after all flags were set.
\<close>

section \<open>Flags and commands\<close>

text \<open>
  The configuration when \<open>main\<close> is entered: the zero value, over which the \<open>init\<close> functions of the three
  files have written the defaults of their flags. \<open>secret-name\<close> and \<open>namespace\<close> of \<open>create\<close> and \<open>patch\<close> are
  the same variables.
\<close>

definition zero_cfg :: CliConfig where
  "zero_cfg = \<lparr>logLevel = '''', logfmt = '''', secretName = '''', namespace = '''', certName = '''', keyName = '''',
     host = '''', webhookName = '''', patchValidating = False, patchMutating = False, patchFailurePolicy = '''',
     kubeconfig = ''''\<rparr>"

definition init_create :: "CliConfig \<Rightarrow> CliConfig" where
  "init_create cfg = cfg\<lparr>host := '''', secretName := '''', namespace := '''', certName := ''cert'', keyName := ''key''\<rparr>"

definition init_patch :: "CliConfig \<Rightarrow> CliConfig" where
  "init_patch cfg = cfg\<lparr>secretName := '''', namespace := '''', webhookName := '''', patchValidating := True,
     patchMutating := True, patchFailurePolicy := ''''\<rparr>"

definition init_root :: "CliConfig \<Rightarrow> CliConfig" where
  "init_root cfg = cfg\<lparr>logLevel := ''info'', logfmt := ''json'', kubeconfig := ''''\<rparr>"

definition initial_cfg :: CliConfig where
  "initial_cfg = init_root (init_patch (init_create zero_cfg))"

datatype command = RootCmd | VersionCmd | CreateCmd | PatchCmd

definition core_Version :: string where "core_Version = ''0.0.1-dev''"
definition core_BuildTime :: string where "core_BuildTime = ''0001-01-01T00:00:00Z''"

definition newline :: string where "newline = [CHR 0x0A]"

text \<open>The output of a run that ends well; a run that exits with code 1 is \<open>Fatal\<close>.\<close>

definition versionCmdRun :: "string \<Rightarrow> string list" where
  "versionCmdRun runtimeVersion =
     [core_Version @ newline, ''build '' @ core_BuildTime @ newline, runtimeVersion @ newline]"

definition rootCommand :: "'s \<Rightarrow> string list outcome \<times> 's" where
  "rootCommand s = (Fatal ''exit status 1'', s)"

text \<open>\<open>Execute\<close>: the command's \<open>PreRun\<close>, then its \<open>Run\<close>.\<close>

definition lift_outcome :: "'a outcome \<Rightarrow> 's \<Rightarrow> 'a outcome \<times> 's" where
  "lift_outcome r s = (r, s)"

definition Execute ::
    "('conf, 'k) cluster \<Rightarrow> ('priv, 'pub, 'r) ec_crypto \<Rightarrow> (string \<Rightarrow> goerror + 'level) \<Rightarrow> string \<Rightarrow>
     goerror + command \<times> CliConfig \<Rightarrow> 'k \<times> 'r \<Rightarrow> string list outcome \<times> 'k \<times> 'r" where
  "Execute cl cr parseLevel runtimeVersion parsed s =
     (case parsed of
        Inl err \<Rightarrow> (Fatal ''exit status 1'', s)
      | Inr (cmd, cfg) \<Rightarrow>
          (case cmd of
             RootCmd \<Rightarrow> obind (lift_outcome (configureLogging parseLevel cfg) s) (\<lambda>_ s. rootCommand s)
           | VersionCmd \<Rightarrow> (Returned (versionCmdRun runtimeVersion), s)
           | CreateCmd \<Rightarrow> obind (lift_outcome (configureLogging parseLevel cfg) s) (\<lambda>_ s.
               obind (createCommand cl cr cfg s) (\<lambda>_ s. (Returned [], s)))
           | PatchCmd \<Rightarrow> obind (lift_outcome (prePatchCommand parseLevel cfg '''') s) (\<lambda>policy (k, r).
               case patchCommand cl cfg policy k of (res, k') \<Rightarrow>
               obind (res, (k', r)) (\<lambda>_ s. (Returned [], s)))))"

section \<open>Lemmas\<close>

lemma lift_outcome_Returned [simp]: "lift_outcome m s = (Returned x, s') \<longleftrightarrow> m = Returned x \<and> s' = s"
  by (auto simp: lift_outcome_def)

lemma SaveCerts_ca:
  assumes "lawful st view" and "SaveCertsToSecret st name ns cn kn ca cert key k = (Returned (), k')"
    and "cn \<noteq> ''ca''" "kn \<noteq> ''ca''"
  shows "\<exists>s. view k' (ns, name) = Some s \<and> data_get (sData s) ''ca'' = Some ca"
proof -
  let ?d = "AList.update kn key (AList.update cn cert [(''ca'', ca)])"
  have c: "stCreate st (ns, name) \<lparr>sName = name, sData = Some ?d, sType = []\<rparr> k = (None, k')"
    using assms(2) by (auto simp: SaveCertsToSecret_def Let_def split: prod.splits option.splits)
  have "data_get (Some ?d) ''ca'' = Some ca"
    using assms(3,4) by (simp add: data_get_def update_conv' del: AList.update.simps)
  with lawful_create(1) [OF assms(1) c] show ?thesis by auto
qed

text \<open>A run of \<open>create\<close> against a cluster without the secret.\<close>

lemma create_fresh:
  assumes law: "\<forall>c cs. newForConfig cl c = Inr cs \<longrightarrow> lawful (csSecrets cs) view"
    and run: "createCommand cl cr cfg (k, r) = (Returned (), (k', r'))"
    and none: "view k (namespace cfg, secretName cfg) = None"
    and names: "certName cfg \<noteq> ''ca''" "keyName cfg \<noteq> ''ca''"
  shows "\<exists>ca cert key s. GenerateCerts cr (host cfg) r = (Returned (ca, cert, key), r') \<and>
    view k' (namespace cfg, secretName cfg) = Some s \<and> data_get (sData s) ''ca'' = Some ca"
proof -
  obtain cs where cs: "k8s_New cl (kubeconfig cfg) = Returned cs"
    using run by (auto simp: createCommand_def obind_Returned)
  then have l: "lawful (csSecrets cs) view" using law k8s_New_connected by blast
  obtain got k1 where get: "GetCaFromSecret (csSecrets cs) (secretName cfg) (namespace cfg) k = (got, k1)"
    by (rule prod.exhaust)
  obtain ca0 where got: "got = Returned ca0"
    using run cs get by (auto simp: createCommand_def obind_Returned)
  have ca0: "ca0 = None" using GetCa_view(2) [OF l get] got none by (cases ca0) auto
  obtain gen r1 where gen: "GenerateCerts cr (host cfg) r = (gen, r1)" by (rule prod.exhaust)
  have "\<exists>certs. gen = Returned certs"
    using run cs get got ca0 gen by (cases gen) (simp_all add: createCommand_def, metis prod_cases3)
  then obtain a b c where abc: "gen = Returned (a, b, c)" by auto
  obtain sv k2 where sv': "SaveCertsToSecret (csSecrets cs) (secretName cfg) (namespace cfg) (certName cfg)
      (keyName cfg) a b c k1 = (sv, k2)" by (rule prod.exhaust)
  have eq: "sv = Returned ()" "k2 = k'" and r: "r1 = r'"
    using run cs get got ca0 gen abc sv' by (simp_all add: createCommand_def)
  have sv: "SaveCertsToSecret (csSecrets cs) (secretName cfg) (namespace cfg) (certName cfg) (keyName cfg) a b c k1 =
      (Returned (), k')" using sv' eq by simp
  from SaveCerts_ca [OF l sv names] gen abc r show ?thesis by auto
qed

lemma pre_patch_policy:
  assumes "prePatchCommand parseLevel cfg '''' = Returned policy"
  shows "policy = (if patchFailurePolicy cfg = ''Fail'' then ''Fail'' else '''')"
  using assms by (auto simp: prePatchCommand_def split: outcome.splits if_splits)

section \<open>Properties\<close>


subsection \<open>An installation\<close>

definition install_cfg :: CliConfig where
  "install_cfg = initial_cfg\<lparr>secretName := ''s'', namespace := ''ns'', host := ''a,10.0.0.1'', webhookName := ''w'',
     patchValidating := False, patchFailurePolicy := ''Fail''\<rparr>"

definition install_cluster :: demo_cluster where
  "install_cluster = (Map.empty, [([], ''w'') \<mapsto> new_webhook ''w'' ''ns'' ''svc'' [1]])"

definition run_create :: "string list outcome \<times> demo_cluster \<times> nat" where
  "run_create = Execute demo_net demo_ec (\<lambda>l. Inr l) ''go1.22'' (Inr (CreateCmd, install_cfg)) (install_cluster, 6)"

definition run_patch :: "string list outcome \<times> demo_cluster \<times> nat" where
  "run_patch = Execute demo_net demo_ec (\<lambda>l. Inr l) ''go1.22'' (Inr (PatchCmd, install_cfg)) (fst (snd run_create), 0)"


text \<open>With the name \<open>ca\<close> for the certificate, which the flags allow, the secret has the leaf as its CA certificate.\<close>

theorem cert_named_ca:
  assumes "lawful st view" and "SaveCertsToSecret st name ns ''ca'' kn ca cert key k = (Returned (), k')"
    and "kn \<noteq> ''ca''"
  shows "\<exists>s. view k' (ns, name) = Some s \<and> data_get (sData s) ''ca'' = Some cert"
proof -
  let ?d = "AList.update kn key (AList.update ''ca'' cert [(''ca'', ca)])"
  have c: "stCreate st (ns, name) \<lparr>sName = name, sData = Some ?d, sType = []\<rparr> k = (None, k')"
    using assms(2) by (auto simp: SaveCertsToSecret_def Let_def split: prod.splits option.splits)
  have "data_get (Some ?d) ''ca'' = Some cert"
    using assms(3) by (simp add: data_get_def update_conv' del: AList.update.simps)
  with lawful_create(1) [OF assms(1) c] show ?thesis by auto
qed

end
