(* ===== verification/CopyAll.thy ===== *)
theory CopyAll
  imports Copier
begin

text \<open>
  \<open>ScriptCopier.CopyAll\<close> (\<open>internal/sidecar/copier.go\<close>) as a run of publications: the loop over the entries
  of the source directory is the loop \<open>for_return\<close> over the names of its regular files, in the order of
  the names, so the theorems of the interface \<open>publisher\<close> apply.
\<close>

definition files_in :: "world \<Rightarrow> string \<Rightarrow> string list" where
  "files_in w d = filter (\<lambda>n. fget w (go_Join [d, n]) \<noteq> Some Dir) (dir_names w d)"

lemma files_in_names: "set (files_in w d) \<subseteq> set (dir_names w d)"
  by (auto simp: files_in_def)

lemma distinct_files_in: "distinct (files_in w d)"
  by (simp add: files_in_def dir_names_def)

lemma published_cong: "fget w s = fget v s \<Longrightarrow> published w s n = published v s n"
  by (simp add: published_def)

text \<open>The loop of \<open>CopyAll\<close> is the loop over the regular files.\<close>

lemma copy_all_loop:
  assumes "for_return (CopyAll_entry c srcDir) es w = (r, w')"
  shows "\<exists>r'. for_return (\<lambda>name. ScriptCopier_Copy c (go_Join [srcDir, name]) name)
      (map fst (filter (\<lambda>e. \<not> snd e) es)) w = (r', w') \<and> (r = None \<longleftrightarrow> r' = None)"
proof -
  define job where "job = (\<lambda>name. ScriptCopier_Copy c (go_Join [srcDir, name]) name)"
  define msg where "msg = (\<lambda>(x :: string \<times> bool) e. ''failed to copy '' @ fst x @ '': '' @ e)"
  have "CopyAll_entry c srcDir x v =
      (if snd x then (None, v) else (map_option (msg x) (fst (job (fst x) v)), snd (job (fst x) v)))" for x v
    by (simp add: CopyAll_entry_def job_def msg_def case_prod_beta split: option.split prod.split)
  from for_return_filter [where body = "CopyAll_entry c srcDir" and P = snd and f = msg and g = fst
      and job = job, OF this, of es w] assms
  show ?thesis unfolding job_def [symmetric]
    by (cases "for_return job (map fst (filter (\<lambda>e. \<not> snd e) es)) w") simp
qed

lemma copy_all_run:
  assumes "ScriptCopier_CopyAll c srcDir w = (r, w')"
  obtains (unread) e where "r = Some e" and "fget w' = fget w"
  | (run) v r' where "fget w srcDir = Some Dir" and "fget v = fget w"
      and "for_return (\<lambda>name. ScriptCopier_Copy c (go_Join [srcDir, name]) name) (files_in w srcDir) v = (r', w')"
      and "r = None \<longleftrightarrow> r' = None"
proof -
  obtain q v where rd: "osReadDir srcDir w = (q, v)" by fastforce
  have v: "fget v = fget w" using rd by (rule osReadDir_frame)
  show thesis
  proof (cases q)
    case (Inl err)
    with assms rd v show thesis by (intro unread) (auto simp: ScriptCopier_CopyAll_def)
  next
    case (Inr es)
    have es: "map fst (filter (\<lambda>e. \<not> snd e) es) = files_in w srcDir" and d: "fget w srcDir = Some Dir"
      using osReadDir_ok [OF rd [unfolded Inr]] by (simp_all add: files_in_def filter_map comp_def)
    have "for_return (CopyAll_entry c srcDir) es v = (r, w')"
      using assms by (simp add: ScriptCopier_CopyAll_def rd Inr)
    from copy_all_loop [OF this] run [OF d v] show thesis unfolding es by blast
  qed
qed

lemma files_in_apart:
  assumes "publishable srcDir (outputDir c) (set (dir_names w srcDir))"
  shows "scp.apart srcDir c (files_in w srcDir)"
    and "distinct (map (go_Clean \<circ> (\<lambda>name. go_Join [outputDir c, name])) (files_in w srcDir))"
proof -
  have p: "publishable srcDir (outputDir c) (set (files_in w srcDir))"
    using assms files_in_names [of w srcDir] by (auto simp: publishable_def)
  then show "scp.apart srcDir c (files_in w srcDir)" by (rule scp_apart)
  show "distinct (map (go_Clean \<circ> (\<lambda>name. go_Join [outputDir c, name])) (files_in w srcDir))"
    using publishable_apart(4) [OF p]
    by (auto simp: distinct_map distinct_files_in inj_on_def)
qed

text \<open>
  C31: \<open>CopyAll\<close> under every failure of its system calls. A path that is no temporary file of the run is as
  it was, or the whole executable copy of a file of the source directory. When it returns \<open>nil\<close>, every
  regular file of the source directory is published. When it returns an error, the files of the directory
  before some name are published and all others are not touched; or the directory could not be listed and nothing
  has changed.
\<close>

theorem copy_all:
  assumes "publishable srcDir (outputDir c) (set (dir_names w srcDir))"
    and "ScriptCopier_CopyAll c srcDir w = (r, w')"
  shows "(\<forall>x. (\<forall>n \<in> set (files_in w srcDir). \<not> same_path (tmp_of (go_Join [outputDir c, n])) x) \<longrightarrow>
        fget w' x = fget w x \<or> (\<exists>n \<in> set (files_in w srcDir). same_path (go_Join [outputDir c, n]) x \<and>
          published w (go_Join [srcDir, n]) (fget w' x))) \<and>
      (r = None \<longrightarrow> fget w srcDir = Some Dir \<and> (\<forall>n \<in> set (files_in w srcDir).
        published w (go_Join [srcDir, n]) (fget w' (go_Join [outputDir c, n])))) \<and>
      (r \<noteq> None \<longrightarrow> fget w' = fget w \<or> (\<exists>ys j zs. files_in w srcDir = ys @ j # zs \<and>
        (\<forall>n \<in> set ys. published w (go_Join [srcDir, n]) (fget w' (go_Join [outputDir c, n]))) \<and>
        (\<forall>n \<in> set (j # zs). fget w' (go_Join [outputDir c, n]) = fget w (go_Join [outputDir c, n]))))"
    (is "?A \<and> ?B \<and> ?C")
proof -
  let ?fs = "files_in w srcDir" and ?pub = "\<lambda>name. ScriptCopier_Copy c (go_Join [srcDir, name]) name"
  note ap = files_in_apart [OF assms(1)]
  from assms(2) show ?thesis
  proof (cases rule: copy_all_run)
    case (unread e)
    then show ?thesis by simp
  next
    case (run v r')
    have same: "published v s n = published w s n" for s n
      by (rule published_cong) (simp add: run(2))
    have w': "snd (for_return ?pub ?fs v) = w'" by (simp add: run(3))
    have ?A using scp.return_all_or_nothing [OF ap(1), where w = v] unfolding w' same run(2) by blast
    moreover have ?B
      using scp.continue_full [OF for_return_all ap, of v w'] run(1,3,4) unfolding same by simp
    moreover have ?C
    proof (cases r')
      case None
      with run(4) show ?thesis by simp
    next
      case (Some e)
      with run(3) have "for_return ?pub ?fs v = (Some e, w')" by simp
      from scp.return_stops [OF this ap] show ?thesis unfolding same run(2) by blast
    qed
    ultimately show ?thesis by blast
  qed
qed

definition two_scripts :: world where
  "two_scripts = \<lparr>files = [(''/in'', Dir), (''/in/b'', File ''two'' 420 1), (''/in/a'', File ''one'' 420 1),
     (''/in/lib'', Dir), (''/out'', Dir)], sched = [], clock = 2\<rparr>"

theorem copy_all_witness:
  "files_in two_scripts ''/in'' = [''a'', ''b''] \<and>
   (case ScriptCopier_CopyAll (NewScriptCopier ''/out'') ''/in'' two_scripts of (r, w') \<Rightarrow> r = None \<and>
     (\<forall>n \<in> {''a'', ''b''}. published two_scripts (go_Join [''/in'', n]) (fget w' (go_Join [''/out'', n]))))"
proof -
  obtain r w' where run: "ScriptCopier_CopyAll (NewScriptCopier ''/out'') ''/in'' two_scripts = (r, w')"
    by fastforce
  have "fst (ScriptCopier_CopyAll (NewScriptCopier ''/out'') ''/in'' two_scripts) = None" by code_simp
  then have r: "r = None" by (simp only: run fst_conv)
  have fs: "files_in two_scripts ''/in'' = [''a'', ''b'']" by code_simp
  have names: "set (dir_names two_scripts ''/in'') = {''a'', ''b'', ''lib''}" by code_simp
  have out: "outputDir (NewScriptCopier ''/out'') = ''/out''" by code_simp
  have p: "publishable ''/in'' (outputDir (NewScriptCopier ''/out'')) (set (dir_names two_scripts ''/in''))"
    unfolding names out by (simp add: publishable_def abs_dir_def plain_name_def)
  from copy_all [OF p run, unfolded fs out, THEN conjunct2, THEN conjunct1, THEN mp, OF r, THEN conjunct2]
  have "\<forall>n \<in> {''a'', ''b''}. published two_scripts (go_Join [''/in'', n]) (fget w' (go_Join [''/out'', n]))"
    by (simp only: list.set)
  then show ?thesis by (simp only: fs run r prod.case simp_thms)
qed

end
