(* ===== verification/TestUtils.thy ===== *)
theory TestUtils
  imports GoOS "HOL-Library.Sublist"
begin

text \<open>
  \<open>test/utils/utils.go\<close>: the helpers of the end-to-end tests. They run \<open>kubectl\<close> and \<open>kind\<close>, look for
  resource types in the printed lists, and edit a source file in place (\<open>UncommentCode\<close>). What runs an external
  program is a parameter, a record of functions on the state of the machine.
\<close>

section \<open>strings and bufio\<close>

text \<open>\<open>strings.Index\<close> (\<open>None\<close> is -1), \<open>Contains\<close>, \<open>TrimPrefix\<close> and the removal of a text by \<open>ReplaceAll\<close>.\<close>

fun go_Index :: "string \<Rightarrow> string \<Rightarrow> nat option" where
  "go_Index s pat =
     (if prefix pat s then Some 0
      else (case s of [] \<Rightarrow> None | _ # t \<Rightarrow> map_option Suc (go_Index t pat)))"

declare go_Index.simps [simp del]

definition go_Contains :: "string \<Rightarrow> string \<Rightarrow> bool" where
  "go_Contains s pat \<longleftrightarrow> go_Index s pat \<noteq> None"

definition go_TrimPrefix :: "string \<Rightarrow> string \<Rightarrow> string" where
  "go_TrimPrefix s pre = (if prefix pre s then drop (length pre) s else s)"

function go_remove :: "string \<Rightarrow> string \<Rightarrow> string" where
  "go_remove pat s =
     (case s of
        [] \<Rightarrow> []
      | c # t \<Rightarrow>
          (if pat \<noteq> [] \<and> prefix pat s then go_remove pat (drop (length pat) s)
           else c # go_remove pat t))"
  by pat_completeness auto
termination by (relation "measure (\<lambda>(pat, s). length s)") auto

declare go_remove.simps [simp del]

text \<open>
  \<open>bufio.Scanner\<close> on lines: a line without its end, nor a carriage return before it; \<open>None\<close> at the end of the
  text and when no line ends in the 65536 bytes of the largest buffer.
\<close>

definition newline :: char where
  "newline = CHR 0x0A"

definition max_token :: nat where
  "max_token = 65536"

definition drop_cr :: "string \<Rightarrow> string" where
  "drop_cr l = (if l \<noteq> [] \<and> last l = CHR 0x0D then butlast l else l)"

definition scan_line :: "string \<Rightarrow> (string \<times> string) option" where
  "scan_line s =
     (let l = takeWhile (\<lambda>c. c \<noteq> newline) s in
      if s = [] \<or> max_token \<le> length l then None
      else Some (drop_cr l, drop (Suc (length l)) s))"

lemma scan_line_shorter: "scan_line s = Some (l, rest) \<Longrightarrow> length rest < length s"
  by (auto simp: scan_line_def Let_def split: if_splits)

section \<open>Commands\<close>

record Cmd =
  Args :: "string list"
  CmdDir :: string
  CmdEnv :: "string list"

text \<open>
  The calls on the machine: the working directory, the environment, and the run of a program with its combined
  output. A failed \<open>os.Getwd\<close> still returns a string.
\<close>

record 'k host =
  hGetwd :: "'k \<Rightarrow> string \<times> oserr option"
  hChdir :: "string \<Rightarrow> 'k \<Rightarrow> oserr option \<times> 'k"
  hEnviron :: "'k \<Rightarrow> string list"
  hLookupEnv :: "string \<Rightarrow> 'k \<Rightarrow> string option"
  hOutput :: "Cmd \<Rightarrow> 'k \<Rightarrow> (string \<times> goerror option) \<times> 'k"

text \<open>The errors, with the arguments of their message.\<close>

datatype util_error =
    WorkingDir oserr
  | CommandFailed (cmd_text: string) (cmd_output: string) (cmd_error: goerror)
  | ReadFailed string oserr
  | CodeNotFound string
  | WriteFailed string oserr

definition GetProjectDir :: "'k host \<Rightarrow> 'k \<Rightarrow> string \<times> util_error option" where
  "GetProjectDir h k =
     (case hGetwd h k of
        (wd, Some err) \<Rightarrow> (wd, Some (WorkingDir err))
      | (wd, None) \<Rightarrow> (go_remove ''/test/e2e'' wd, None))"

fun join_words :: "string list \<Rightarrow> string" where
  "join_words [] = []"
| "join_words [x] = x"
| "join_words (x # y # ys) = x @ '' '' @ join_words (y # ys)"

definition Run :: "'k host \<Rightarrow> string list \<Rightarrow> 'k \<Rightarrow> (string \<times> util_error option) \<times> 'k" where
  "Run h args k =
     (let dir = fst (GetProjectDir h k);
          k1 = snd (hChdir h dir k);
          cmd = \<lparr>Args = args, CmdDir = dir, CmdEnv = hEnviron h k1 @ [''GO111MODULE=on'']\<rparr>
      in case hOutput h cmd k1 of
           ((output, Some err), k2) \<Rightarrow> ((output, Some (CommandFailed (join_words args) output err)), k2)
         | ((output, None), k2) \<Rightarrow> ((output, None), k2))"

definition run_err :: "'k host \<Rightarrow> string list \<Rightarrow> 'k \<Rightarrow> util_error option \<times> 'k" where
  "run_err h args k = (case Run h args k of ((_, err), k1) \<Rightarrow> (err, k1))"

definition prometheusURL :: string where
  "prometheusURL = ''https://github.com/prometheus-operator/prometheus-operator/'' @
     ''releases/download/v0.77.1/bundle.yaml''"

definition certmanagerURL :: string where
  "certmanagerURL = ''https://github.com/cert-manager/cert-manager/releases/download/v1.16.3/cert-manager.yaml''"

definition InstallPrometheusOperator :: "'k host \<Rightarrow> 'k \<Rightarrow> util_error option \<times> 'k" where
  "InstallPrometheusOperator h = run_err h [''kubectl'', ''create'', ''-f'', prometheusURL]"

text \<open>The two removals only log an error.\<close>

definition UninstallPrometheusOperator :: "'k host \<Rightarrow> 'k \<Rightarrow> 'k" where
  "UninstallPrometheusOperator h k = snd (Run h [''kubectl'', ''delete'', ''-f'', prometheusURL] k)"

definition UninstallCertManager :: "'k host \<Rightarrow> 'k \<Rightarrow> 'k" where
  "UninstallCertManager h k = snd (Run h [''kubectl'', ''delete'', ''-f'', certmanagerURL] k)"

definition InstallCertManager :: "'k host \<Rightarrow> 'k \<Rightarrow> util_error option \<times> 'k" where
  "InstallCertManager h k =
     (case Run h [''kubectl'', ''apply'', ''-f'', certmanagerURL] k of
        ((_, Some err), k1) \<Rightarrow> (Some err, k1)
      | ((_, None), k1) \<Rightarrow>
          run_err h [''kubectl'', ''wait'', ''deployment.apps/cert-manager-webhook'',
            ''--for'', ''condition=Available'', ''--namespace'', ''cert-manager'', ''--timeout'', ''5m''] k1)"

definition LoadImageToKindClusterWithName :: "'k host \<Rightarrow> string \<Rightarrow> 'k \<Rightarrow> util_error option \<times> 'k" where
  "LoadImageToKindClusterWithName h name k =
     (let cluster = (case hLookupEnv h ''KIND_CLUSTER'' k of Some v \<Rightarrow> v | None \<Rightarrow> ''kind'')
      in run_err h [''kind'', ''load'', ''docker-image'', name, ''--name'', cluster] k)"

text \<open>The lines of an output that are not empty, and the search for resource types in them.\<close>

definition GetNonEmptyLines :: "string \<Rightarrow> string list" where
  "GetNonEmptyLines output = filter (\<lambda>e. e \<noteq> []) (split_char newline output)"

definition crd_listed :: "string list \<Rightarrow> string list \<Rightarrow> bool" where
  "crd_listed crds crdList = list_ex (\<lambda>crd. list_ex (\<lambda>line. go_Contains line crd) crdList) crds"

definition prometheusCRDs :: "string list" where
  "prometheusCRDs = [''prometheuses.monitoring.coreos.com'', ''prometheusrules.monitoring.coreos.com'',
     ''prometheusagents.monitoring.coreos.com'']"

definition certManagerCRDs :: "string list" where
  "certManagerCRDs = [''certificates.cert-manager.io'', ''issuers.cert-manager.io'',
     ''clusterissuers.cert-manager.io'', ''certificaterequests.cert-manager.io'',
     ''orders.acme.cert-manager.io'', ''challenges.acme.cert-manager.io'']"

definition IsPrometheusCRDsInstalled :: "'k host \<Rightarrow> 'k \<Rightarrow> bool \<times> 'k" where
  "IsPrometheusCRDsInstalled h k =
     (case Run h [''kubectl'', ''get'', ''crds'', ''-o'', ''custom-columns=NAME:.metadata.name''] k of
        ((_, Some err), k1) \<Rightarrow> (False, k1)
      | ((output, None), k1) \<Rightarrow> (crd_listed prometheusCRDs (GetNonEmptyLines output), k1))"

definition IsCertManagerCRDsInstalled :: "'k host \<Rightarrow> 'k \<Rightarrow> bool \<times> 'k" where
  "IsCertManagerCRDsInstalled h k =
     (case Run h [''kubectl'', ''get'', ''crds''] k of
        ((_, Some err), k1) \<Rightarrow> (False, k1)
      | ((output, None), k1) \<Rightarrow> (crd_listed certManagerCRDs (GetNonEmptyLines output), k1))"

section \<open>UncommentCode\<close>

text \<open>The loop over the lines of the target, after the first of them has been scanned.\<close>

function uncomment_lines :: "string \<Rightarrow> string \<Rightarrow> string \<Rightarrow> string" where
  "uncomment_lines pre line rest =
     go_TrimPrefix line pre @
     (case scan_line rest of
        None \<Rightarrow> []
      | Some (line', rest') \<Rightarrow> newline # uncomment_lines pre line' rest')"
  by pat_completeness auto
termination
  by (relation "measure (\<lambda>(pre, line, rest). length rest)") (auto dest: scan_line_shorter)

declare uncomment_lines.simps [simp del]

definition UncommentCode :: "string \<Rightarrow> string \<Rightarrow> string \<Rightarrow> world \<Rightarrow> util_error option \<times> world" where
  "UncommentCode filename target pre w =
     (case osReadFile filename w of
        (Inl err, w1) \<Rightarrow> (Some (ReadFailed filename err), w1)
      | (Inr strContent, w1) \<Rightarrow>
          (case go_Index strContent target of
             None \<Rightarrow> (Some (CodeNotFound target), w1)
           | Some idx \<Rightarrow>
               (case scan_line target of
                  None \<Rightarrow> (None, w1)
                | Some (line, rest) \<Rightarrow>
                    (let out = take idx strContent @ uncomment_lines pre line rest @
                               drop (idx + length target) strContent
                     in case osWriteFile filename out 420 w1 of
                          (Inl err, w2) \<Rightarrow> (Some (WriteFailed filename err), w2)
                        | (Inr _, w2) \<Rightarrow> (None, w2)))))"

section \<open>What the helpers do\<close>

lemma contains_sublist: "go_Contains s pat \<longleftrightarrow> sublist pat s"
proof -
  have "go_Index s pat \<noteq> None \<longleftrightarrow> sublist pat s"
    by (induction s pat rule: go_Index.induct) (subst go_Index.simps, auto simp: sublist_Cons_right split: list.split)
  then show ?thesis by (simp add: go_Contains_def)
qed

lemma index_split: "go_Index s pat = Some i \<Longrightarrow> i + length pat \<le> length s \<and> s = take i s @ pat @ drop (i + length pat) s"
proof (induction s pat arbitrary: i rule: go_Index.induct)
  case (1 s pat)
  show ?case
  proof (cases "prefix pat s")
    case True
    with 1(2) have "i = 0" by (simp add: go_Index.simps)
    with True show ?thesis by (auto simp: prefix_def)
  next
    case False
    then obtain c t j where s: "s = c # t" and j: "go_Index t pat = Some j" and i: "i = Suc j"
      using 1(2) by (subst (asm) go_Index.simps) (auto split: list.splits)
    from 1(1) [OF False s j] show ?thesis by (simp add: s i)
  qed
qed

text \<open>A word without the separator is in a text when it is in one of the parts.\<close>

lemma prefix_first_part:
  "c \<notin> set p \<Longrightarrow> prefix p s \<longleftrightarrow> prefix p (hd (split_char c s))"
proof (induction p arbitrary: s)
  case Nil
  then show ?case by simp
next
  case (Cons x p)
  show ?case
  proof (cases s)
    case Nil
    then show ?thesis by simp
  next
    case (Cons y t)
    with Cons.IH [of t] Cons.prems show ?thesis by (auto split: list.split)
  qed
qed

lemma sublist_parts:
  assumes "c \<notin> set p" and "p \<noteq> []"
  shows "sublist p s \<longleftrightarrow> (\<exists>e \<in> set (split_char c s). sublist p e)"
proof (induction s)
  case Nil
  show ?case using assms(2) by simp
next
  case (Cons x s)
  obtain y ys where sp: "split_char c s = y # ys" by (cases "split_char c s") simp_all
  have "sublist p (x # s) \<longleftrightarrow> prefix p (hd (split_char c (x # s))) \<or> sublist p s"
    using prefix_first_part [OF assms(1), of "x # s"] by (simp only: sublist_Cons_right)
  moreover have "prefix p [] \<longleftrightarrow> False" "sublist p [] \<longleftrightarrow> False" using assms(2) by simp_all
  ultimately show ?case using Cons.IH by (auto simp: sp sublist_Cons_right)
qed

lemma crd_listed_iff:
  assumes "\<forall>crd \<in> set crds. newline \<notin> set crd \<and> crd \<noteq> []"
  shows "crd_listed crds (GetNonEmptyLines output) \<longleftrightarrow> (\<exists>crd \<in> set crds. sublist crd output)"
proof -
  have "(\<exists>line \<in> set (GetNonEmptyLines output). sublist crd line) \<longleftrightarrow> sublist crd output" if "crd \<in> set crds" for crd
    using assms that sublist_parts [of newline crd "output"] by (auto simp: GetNonEmptyLines_def)
  then show ?thesis by (simp add: crd_listed_def list_ex_iff contains_sublist)
qed

text \<open>
  The resource types are found when the command has succeeded and its output contains one of their names, however the
  output is broken into lines.
\<close>

theorem crds_installed:
  "fst (IsPrometheusCRDsInstalled h k) \<longleftrightarrow>
     (\<exists>output. fst (Run h [''kubectl'', ''get'', ''crds'', ''-o'', ''custom-columns=NAME:.metadata.name''] k) = (output, None) \<and>
       (\<exists>crd \<in> set prometheusCRDs. sublist crd output))" (is ?P)
  and "fst (IsCertManagerCRDsInstalled h k) \<longleftrightarrow>
     (\<exists>output. fst (Run h [''kubectl'', ''get'', ''crds''] k) = (output, None) \<and>
       (\<exists>crd \<in> set certManagerCRDs. sublist crd output))" (is ?C)
proof -
  have p: "\<forall>crd \<in> set prometheusCRDs. newline \<notin> set crd \<and> crd \<noteq> []" by code_simp
  have c: "\<forall>crd \<in> set certManagerCRDs. newline \<notin> set crd \<and> crd \<noteq> []" by code_simp
  show ?P unfolding IsPrometheusCRDsInstalled_def by (auto simp: crd_listed_iff [OF p] split: prod.split option.split)
  show ?C unfolding IsCertManagerCRDsInstalled_def by (auto simp: crd_listed_iff [OF c] split: prod.split option.split)
qed

section \<open>The edit of a file\<close>

definition plain_line :: "string \<Rightarrow> bool" where
  "plain_line l \<longleftrightarrow> newline \<notin> set l \<and> length l < max_token \<and> (l = [] \<or> last l \<noteq> CHR 0x0D)"

lemma scan_plain:
  assumes "plain_line l"
  shows "l \<noteq> [] \<Longrightarrow> scan_line l = Some (l, [])" and "scan_line (l @ newline # s) = Some (l, s)"
proof -
  have tw: "takeWhile (\<lambda>c. c \<noteq> newline) l = l" "takeWhile (\<lambda>c. c \<noteq> newline) (l @ newline # s) = l"
    using assms by (auto simp: plain_line_def takeWhile_eq_all_conv takeWhile_append)
  have cr: "drop_cr l = l" and "\<not> max_token \<le> length l"
    using assms by (auto simp: plain_line_def drop_cr_def)
  then show "l \<noteq> [] \<Longrightarrow> scan_line l = Some (l, [])" and "scan_line (l @ newline # s) = Some (l, s)"
    by (simp_all add: scan_line_def tw)
qed

lemma trim_prefixed [simp]: "go_TrimPrefix (pre @ l) pre = l"
  by (simp add: go_TrimPrefix_def)

lemma uncomment_run:
  assumes "ls \<noteq> []" and "\<forall>l \<in> set ls. plain_line (pre @ l)"
    and "e = [newline] \<or> e = [] \<and> pre @ last ls \<noteq> []"
  shows "\<exists>line rest. scan_line (join_char newline (map ((@) pre) ls) @ e) = Some (line, rest) \<and>
    uncomment_lines pre line rest = join_char newline ls"
  using assms
proof (induction ls)
  case Nil
  then show ?case by simp
next
  case (Cons l ls)
  have l: "plain_line (pre @ l)" using Cons.prems(2) by simp
  show ?case
  proof (cases ls)
    case Nil
    have "scan_line ((pre @ l) @ e) = Some (pre @ l, [])"
      using Cons.prems(3) scan_plain(1) [OF l] scan_plain(2) [OF l, of "[]"] Nil by auto
    moreover have "scan_line [] = None" by (simp add: scan_line_def)
    ultimately show ?thesis by (simp add: Nil uncomment_lines.simps)
  next
    case (Cons l' ls')
    then obtain line rest where sc: "scan_line (join_char newline (map ((@) pre) ls) @ e) = Some (line, rest)"
      and un: "uncomment_lines pre line rest = join_char newline ls"
      using Cons.IH Cons.prems by auto
    have "scan_line (join_char newline (map ((@) pre) (l # ls)) @ e) =
        Some (pre @ l, join_char newline (map ((@) pre) ls) @ e)"
      using scan_plain(2) [OF l] by (simp add: Cons)
    moreover have "uncomment_lines pre (pre @ l) (join_char newline (map ((@) pre) ls) @ e) = join_char newline (l # ls)"
      by (subst uncomment_lines.simps) (simp add: sc un, simp add: Cons)
    ultimately show ?thesis by blast
  qed
qed

text \<open>
  C40: the edit. When the target is a block of lines that all begin with the prefix, and it occurs in the file,
  a call that reports success has taken the prefix off each line of its first occurrence and has left the text
  before and after as it was; a newline at the end of the target is lost, so that the last line runs into the text
  behind it. No other file is touched, and without failures of the machine the call succeeds.
\<close>

theorem uncomment_code:
  assumes "fget w filename = Some (File (before @ target @ after) m t)"
    and "go_Index (before @ target @ after) target = Some (length before)"
    and "target = join_char newline (map ((@) pre) ls) @ e" and "ls \<noteq> []"
    and "\<forall>l \<in> set ls. plain_line (pre @ l)" and "e = [newline] \<or> e = [] \<and> pre @ last ls \<noteq> []"
    and "UncommentCode filename target pre w = (r, w')"
  shows "(r = None \<longrightarrow> (\<exists>m' t'. fget w' filename = Some (File (before @ join_char newline ls @ after) m' t'))) \<and>
    (\<forall>x. \<not> same_path filename x \<longrightarrow> fget w' x = fget w x) \<and>
    (sched w = [] \<longrightarrow> r = None)"
proof -
  obtain line rest where sc: "scan_line target = Some (line, rest)"
    and un: "uncomment_lines pre line rest = join_char newline ls"
    using uncomment_run [OF assms(4-6)] assms(3) by blast
  obtain q w1 where rd: "osReadFile filename w = (q, w1)" by fastforce
  have w1: "fget w1 = fget w" using rd by (rule osReadFile_frame)
  show ?thesis
  proof (cases q)
    case (Inl err)
    then have "\<not> sched w = []" using osReadFile_nil [OF _ assms(1)] rd by auto
    moreover have "r = Some (ReadFailed filename err)" "w' = w1"
      using assms(7) by (simp_all add: UncommentCode_def rd Inl)
    ultimately show ?thesis by (simp add: w1)
  next
    case (Inr c)
    then have c: "c = before @ target @ after" using osReadFile_ok [of filename w c w1] rd assms(1) by simp
    define out where "out = before @ join_char newline ls @ after"
    obtain q2 w2 where wr: "osWriteFile filename out 420 w1 = (q2, w2)" by fastforce
    have run: "(r, w') = (case q2 of Inl err \<Rightarrow> (Some (WriteFailed filename err), w2) | Inr _ \<Rightarrow> (None, w2))"
      using assms(7) by (simp add: UncommentCode_def rd Inr c assms(2) sc un wr [unfolded out_def] split: sum.splits)
    have "w' = w2" using run by (simp split: sum.splits)
    with osWriteFile_off [OF wr] have "\<forall>x. \<not> same_path filename x \<longrightarrow> fget w' x = fget w x"
      by (simp add: w1)
    moreover have "\<exists>m' t'. fget w' filename = Some (File out m' t')" if "r = None"
      using osWriteFile_ok [of filename out 420 w1] run that wr \<open>w' = w2\<close> by (auto split: sum.splits)
    moreover have "r = None" if "sched w = []"
    proof -
      have "w1 = w" using osReadFile_nil [OF that assms(1)] rd by simp
      with osWriteFile_nil [OF that, of filename out 420] wr assms(1) have "q2 = Inr ()" by simp
      with run show ?thesis by simp
    qed
    ultimately show ?thesis by (simp add: out_def)
  qed
qed

definition kustomization :: "string \<Rightarrow> world" where
  "kustomization s = \<lparr>files = [(''/'', Dir), (''/k.yaml'', File (''a'' @ [newline] @ s @ [newline] @ ''b'') 420 1)],
     sched = [], clock = 2\<rparr>"

theorem uncomment_code_witness:
  "\<exists>m t. fget (snd (UncommentCode ''/k.yaml'' (''#x'' @ newline # ''#y'') ''#'' (kustomization (''#x'' @ newline # ''#y''))))
     ''/k.yaml'' = Some (File (''a'' @ newline # ''x'' @ newline # ''y'' @ newline # ''b'') m t)"
proof -
  define target where "target = ''#x'' @ newline # ''#y''"
  define before where "before = ''a'' @ [newline]"
  define after where "after = newline # ''b''"
  obtain r w' where run: "UncommentCode ''/k.yaml'' target ''#'' (kustomization target) = (r, w')" by fastforce
  have f: "fget (kustomization target) ''/k.yaml'' = Some (File (before @ target @ after) 420 1)"
    unfolding target_def before_def after_def by code_simp
  have i: "go_Index (before @ target @ after) target = Some (length before)"
    unfolding target_def before_def after_def by code_simp
  have t: "target = join_char newline (map ((@) ''#'') [''x'', ''y'']) @ []"
    unfolding target_def by code_simp
  have p: "\<forall>l \<in> set [''x'', ''y'']. plain_line (''#'' @ l)"
    by (simp add: plain_line_def max_token_def newline_def)
  have e: "[] = [newline] \<or> ([] :: string) = [] \<and> ''#'' @ last [''x'', ''y''] \<noteq> []" by simp
  have s: "sched (kustomization target) = []" by (simp add: kustomization_def)
  note main = uncomment_code [OF f i t list.distinct(2) p e run]
  from main [THEN conjunct2, THEN conjunct2, THEN mp, OF s]
  have "\<exists>m t. fget w' ''/k.yaml'' = Some (File (before @ join_char newline [''x'', ''y''] @ after) m t)"
    by (rule main [THEN conjunct1, THEN mp])
  moreover have "before @ join_char newline [''x'', ''y''] @ after = ''a'' @ newline # ''x'' @ newline # ''y'' @ newline # ''b''"
    by (simp add: before_def after_def)
  ultimately show ?thesis by (simp only: target_def [symmetric] run snd_conv)
qed

end
