(* ===== verification/SyncSteps.thy ===== *)
theory SyncSteps
  imports CopySteps WatchLoop
begin

text \<open>
  The goroutine of the sidecar call by call. A turn of the watch loop (\<open>WatchBehaviorStub\<close>) or of the polling
  loop (\<open>WatchScripts\<close>) of \<open>cmd/sidecar/main.go\<close> is a sequence of calls; between two of them the API server, the
  other processes of the machine and the main goroutine of the sidecar itself may run, and the signal
  may end the process in the middle of a turn. The theory gives the program counter of a turn, shows that a turn run
  to its end with nothing in between is the function of WatchLoop, and lifts the invariant of the shared
  directory to every call.
\<close>

section \<open>The calls of one turn\<close>

text \<open>
  One constructor per call that is about to run: the request to the API server, \<open>MkdirAll\<close>, the check of a
  source, the calls of a copy, the check of the result; then the same for the fallback, the removal of the
  directory, and the end of a turn with its error, which the loops only log. The calls of a loop carry what is left of
  its list.
\<close>

datatype turn_pc =
    Fetch
  | Mkdir "SBehavior list"
  | StatSrc SBehavior "SBehavior list"
  | CopyScript SBehavior copy_pc "SBehavior list"
  | Verify SBehavior "SBehavior list"
  | FMkdir
  | FReadDir
  | FCopy string copy_pc "(string \<times> bool) list"
  | Cleanup
  | TurnDone "goerror option"

fun next_behavior :: "SBehavior list \<Rightarrow> turn_pc" where
  "next_behavior [] = TurnDone None"
| "next_behavior (b # bs) = StatSrc b bs"

fun next_entry :: "(string \<times> bool) list \<Rightarrow> turn_pc" where
  "next_entry [] = TurnDone None"
| "next_entry (e # es) = (if snd e then next_entry es else FCopy (fst e) AtOpen es)"

text \<open>A copy that returns an error is logged and skipped; the file of one that succeeds is checked.\<close>

fun in_copy :: "SBehavior \<Rightarrow> SBehavior list \<Rightarrow> copy_pc \<Rightarrow> turn_pc" where
  "in_copy b bs (AtReturn None) = Verify b bs"
| "in_copy b bs (AtReturn (Some err)) = next_behavior bs"
| "in_copy b bs pc = CopyScript b pc bs"

fun in_entry :: "string \<Rightarrow> (string \<times> bool) list \<Rightarrow> copy_pc \<Rightarrow> turn_pc" where
  "in_entry n es (AtReturn r) = next_entry es"
| "in_entry n es pc = FCopy n pc es"

fun turn_next ::
    "'raw dynclient \<Rightarrow> turn_pc \<Rightarrow> SidecarManager \<Rightarrow> world \<Rightarrow> (turn_pc \<times> SidecarManager \<times> world) option" where
  "turn_next dc Fetch s w = Some (case getBehaviorStub dc s of
     Inl err \<Rightarrow> (FMkdir, s, w)
   | Inr bs \<Rightarrow> (Mkdir (sbsBehaviors bs), s\<lparr>behaviors := sbsBehaviors bs\<rparr>, w))"
| "turn_next dc (Mkdir bs) s w = Some (case osMkdirAll (SharedDir (config s)) w of
     (Inl err, w') \<Rightarrow> (TurnDone (Some (''failed to create shared directory: '' @ oserr_string err)), s, w')
   | (Inr _, w') \<Rightarrow> (next_behavior bs, s, w'))"
| "turn_next dc (StatSrc b bs) s w = Some (case osStat (script_src (config s) b) w of
     (r, w') \<Rightarrow> (if (case r of Inl e \<Rightarrow> is_not_exist e | Inr _ \<Rightarrow> False) then next_behavior bs
                else CopyScript b AtOpen bs, s, w'))"
| "turn_next dc (CopyScript b pc bs) s w =
     map_option (\<lambda>(pc', w'). (in_copy b bs pc', s, w')) (copy_next (script_src (config s) b) (script_dst (config s) b) pc w)"
| "turn_next dc (Verify b bs) s w = Some (next_behavior bs, s, snd (osStat (script_dst (config s) b) w))"
| "turn_next dc FMkdir s w = Some (case osMkdirAll (SharedDir (config s)) w of
     (Inl err, w') \<Rightarrow> (TurnDone (Some (''failed to create shared directory: '' @ oserr_string err)), s, w')
   | (Inr _, w') \<Rightarrow> (FReadDir, s, w'))"
| "turn_next dc FReadDir s w = Some (case osReadDir (ScriptMountPath (config s)) w of
     (Inl err, w') \<Rightarrow> (TurnDone (Some (''failed to read source directory: '' @ oserr_string err)), s, w')
   | (Inr entries, w') \<Rightarrow> (next_entry entries, s, w'))"
| "turn_next dc (FCopy n pc es) s w =
     map_option (\<lambda>(pc', w'). (in_entry n es pc', s, w'))
       (copy_next (go_Join [ScriptMountPath (config s), n]) (go_Join [SharedDir (config s), n]) pc w)"
| "turn_next dc Cleanup s w = Some (TurnDone None, s, cleanupScripts s w)"
| "turn_next dc (TurnDone r) s w = None"

text \<open>Every call of a turn brings it closer to its end.\<close>

fun turn_phase :: "turn_pc \<Rightarrow> nat" where
  "turn_phase Fetch = 4"
| "turn_phase (Mkdir bs) = 3"
| "turn_phase FMkdir = 3"
| "turn_phase FReadDir = 2"
| "turn_phase (TurnDone r) = 0"
| "turn_phase pc = 1"

fun jobs_left :: "turn_pc \<Rightarrow> nat" where
  "jobs_left (StatSrc b bs) = Suc (length bs)"
| "jobs_left (CopyScript b pc bs) = Suc (length bs)"
| "jobs_left (Verify b bs) = Suc (length bs)"
| "jobs_left (FCopy n pc es) = Suc (length es)"
| "jobs_left pc = 0"

fun job_calls :: "turn_pc \<Rightarrow> nat" where
  "job_calls (StatSrc b bs) = 12"
| "job_calls (CopyScript b pc bs) = Suc (Suc (calls_left pc))"
| "job_calls (Verify b bs) = 1"
| "job_calls (FCopy n pc es) = calls_left pc"
| "job_calls pc = 0"

definition turn_order :: "(turn_pc \<times> turn_pc) set" where
  "turn_order = measures [turn_phase, jobs_left, job_calls]"

lemma wf_turn_order: "wf turn_order"
  by (simp add: turn_order_def)

lemma next_behavior_less:
  "turn_phase (next_behavior bs) \<le> 1" "turn_phase (next_behavior bs) = 1 \<Longrightarrow> jobs_left (next_behavior bs) = length bs"
  by (cases bs; simp)+

lemma next_entry_less:
  "turn_phase (next_entry es) \<le> 1 \<and> (turn_phase (next_entry es) = 1 \<longrightarrow> jobs_left (next_entry es) \<le> length es)"
  by (induction es) auto

lemma turn_next_less:
  assumes "turn_next dc pc s w = Some (pc', s', w')"
  shows "(pc', pc) \<in> turn_order"
proof (cases pc)
  case (CopyScript b cp bs)
  then obtain cp' where cp: "copy_next (script_src (config s) b) (script_dst (config s) b) cp w = Some (cp', w')"
    and pc': "pc' = in_copy b bs cp'"
    using assms by auto
  from calls_left_less [OF cp] show ?thesis
    using next_behavior_less [of bs] unfolding CopyScript pc'
    by (cases "(b, bs, cp')" rule: in_copy.cases) (auto simp: turn_order_def)
next
  case (FCopy n cp es)
  then obtain cp' where cp: "copy_next (go_Join [ScriptMountPath (config s), n]) (go_Join [SharedDir (config s), n]) cp w = Some (cp', w')"
    and pc': "pc' = in_entry n es cp'"
    using assms by auto
  from calls_left_less [OF cp] show ?thesis
    using next_entry_less [of es] unfolding FCopy pc'
    by (cases "(n, es, cp')" rule: in_entry.cases) (auto simp: turn_order_def)
next
  case (Mkdir bs)
  with assms next_behavior_less [of bs] show ?thesis
    by (auto simp: turn_order_def split: prod.splits sum.splits)
next
  case (StatSrc b bs)
  with assms next_behavior_less [of bs] show ?thesis
    by (auto simp: turn_order_def split: prod.splits sum.splits if_splits)
next
  case (Verify b bs)
  with assms next_behavior_less [of bs] show ?thesis by (auto simp: turn_order_def)
next
  case FReadDir
  have "turn_phase (next_entry es) < 2" for es using next_entry_less [of es] by linarith
  with FReadDir assms show ?thesis by (auto simp: turn_order_def split: prod.splits sum.splits)
qed (use assms in \<open>auto simp: turn_order_def split: prod.splits sum.splits\<close>)

text \<open>A turn run to its end with nothing in between.\<close>

function turn_run ::
    "'raw dynclient \<Rightarrow> turn_pc \<Rightarrow> SidecarManager \<Rightarrow> world \<Rightarrow> goerror option \<times> SidecarManager \<times> world" where
  "turn_run dc pc s w = (case turn_next dc pc s w of
     Some (pc', s', w') \<Rightarrow> turn_run dc pc' s' w'
   | None \<Rightarrow> (case pc of TurnDone r \<Rightarrow> r | _ \<Rightarrow> None, s, w))"
  by pat_completeness auto
termination
  by (relation "inv_image turn_order (\<lambda>(dc, pc, s, w). pc)")
     (auto simp: wf_turn_order wf_inv_image turn_next_less)

declare turn_run.simps [simp del]

lemma turn_run_done [simp]: "turn_run dc (TurnDone r) s w = (r, s, w)"
  by (subst turn_run.simps) simp

lemma turn_run_step: "turn_next dc pc s w = Some (pc', s', w') \<Longrightarrow> turn_run dc pc s w = turn_run dc pc' s' w'"
  by (subst turn_run.simps) simp

lemma turn_run_next:
  "turn_next dc pc s w = Some x \<Longrightarrow> turn_run dc pc s w = turn_run dc (fst x) (fst (snd x)) (snd (snd x))"
  by (cases x) (simp add: turn_run_step)

lemmas turn_run_unfold = turn_next.simps(1-3,5-7,9) [THEN turn_run_next]

section \<open>A turn is the function of the model\<close>

lemma copy_next_None: "copy_next s d pc w = None \<Longrightarrow> \<exists>r. pc = AtReturn r"
  by (cases pc) simp_all

lemma in_copy_running:
  "copy_next s d pc w = Some x \<Longrightarrow> in_copy b bs pc = CopyScript b pc bs"
  "copy_next s d pc w = Some x \<Longrightarrow> in_entry n es pc = FCopy n pc es"
  by (cases pc; simp)+

lemma run_in_copy:
  "turn_run dc (in_copy b bs pc) s w =
     (case copy_run (script_src (config s) b) (script_dst (config s) b) pc w of
        (r, w') \<Rightarrow> turn_run dc (in_copy b bs (AtReturn r)) s w')"
proof (induction "script_src (config s) b" "script_dst (config s) b" pc w rule: copy_run.induct)
  case (1 pc w)
  let ?next = "copy_next (script_src (config s) b) (script_dst (config s) b) pc w"
  show ?case
  proof (cases ?next)
    case None
    with copy_next_None [OF None] show ?thesis by auto
  next
    case (Some x)
    then obtain pc' w' where x: "?next = Some (pc', w')" by (cases x) simp
    then have "turn_run dc (in_copy b bs pc) s w = turn_run dc (in_copy b bs pc') s w'"
      by (intro turn_run_step) (simp add: in_copy_running(1) [OF x])
    with 1 [OF x refl] copy_run_step [OF x] show ?thesis by simp
  qed
qed

lemma run_in_entry:
  "turn_run dc (in_entry n es pc) s w =
     (case copy_run (go_Join [ScriptMountPath (config s), n]) (go_Join [SharedDir (config s), n]) pc w of
        (r, w') \<Rightarrow> turn_run dc (next_entry es) s w')"
proof (induction "go_Join [ScriptMountPath (config s), n]" "go_Join [SharedDir (config s), n]" pc w rule: copy_run.induct)
  case (1 pc w)
  let ?next = "copy_next (go_Join [ScriptMountPath (config s), n]) (go_Join [SharedDir (config s), n]) pc w"
  show ?case
  proof (cases ?next)
    case None
    with copy_next_None [OF None] show ?thesis by auto
  next
    case (Some x)
    then obtain pc' w' where x: "?next = Some (pc', w')" by (cases x) simp
    then have "turn_run dc (in_entry n es pc) s w = turn_run dc (in_entry n es pc') s w'"
      by (intro turn_run_step) (simp add: in_copy_running(2) [OF x])
    with 1 [OF x refl] copy_run_step [OF x] show ?thesis by simp
  qed
qed

lemma run_behavior:
  "turn_run dc (StatSrc b bs) s w =
     turn_run dc (next_behavior bs) s (snd (syncBehaviorScript (config s) b w))"
proof -
  obtain r w1 where st: "osStat (script_src (config s) b) w = (r, w1)" by fastforce
  show ?thesis
  proof (cases "case r of Inl e \<Rightarrow> is_not_exist e | Inr _ \<Rightarrow> False")
    case True
    then show ?thesis by (simp add: turn_run_unfold(3) st syncBehaviorScript_def Let_def)
  next
    case False
    obtain e w2 where cp: "SidecarManager_atomicCopy (script_src (config s) b) (script_dst (config s) b) w1 = (e, w2)"
      by fastforce
    have "turn_run dc (StatSrc b bs) s w = turn_run dc (in_copy b bs AtOpen) s w1"
      using False by (simp add: turn_run_unfold(3) st)
    also have "\<dots> = turn_run dc (in_copy b bs (AtReturn e)) s w2"
      using run_in_copy [of dc b bs AtOpen s w1] by (simp only: run_is_atomicCopy cp prod.case)
    also have "\<dots> = turn_run dc (next_behavior bs) s (snd (syncBehaviorScript (config s) b w))"
      using False by (cases e) (simp_all add: turn_run_unfold(4) syncBehaviorScript_def Let_def st cp)
    finally show ?thesis .
  qed
qed

lemma run_behaviors:
  "turn_run dc (next_behavior bs) s w = (None, s, snd (for_continue (syncBehaviorScript (config s)) bs w))"
  by (induction bs arbitrary: w) (simp_all add: run_behavior split: prod.split option.split)

lemma run_entries:
  "turn_run dc (next_entry es) s w = (None, s, snd (for_continue (copy_entry (config s)) es w))"
proof (induction es arbitrary: w)
  case (Cons e es)
  show ?case
  proof (cases "snd e")
    case False
    have "turn_run dc (FCopy (fst e) AtOpen es) s w =
        turn_run dc (next_entry es) s (snd (copy_entry (config s) e w))"
      using run_in_entry [of dc "fst e" es AtOpen s w] False
      by (simp add: run_is_atomicCopy copy_entry_def split: prod.split)
    with False Cons show ?thesis by (simp split: prod.split option.split)
  qed (simp add: Cons copy_entry_def split: prod.split)
qed simp

lemma turn_is_sync: "turn_run dc Fetch s w = SyncAllScripts dc s w"
proof (cases "getBehaviorStub dc s")
  case (Inl err)
  then show ?thesis
    by (simp add: turn_run_unfold(1,5,6) run_entries SyncAllScripts_def syncAllFromDirectory_def
        split: prod.split sum.split)
next
  case (Inr bs)
  then show ?thesis
    by (simp add: turn_run_unfold(1,2) run_behaviors SyncAllScripts_def Let_def
        split: prod.split sum.split)
qed

lemma turn_is_cleanup: "turn_run dc Cleanup s w = (None, s, cleanupScripts s w)"
  by (simp add: turn_run_unfold(7))

section \<open>The process call by call\<close>

definition turn_of :: "watch_event \<Rightarrow> turn_pc option" where
  "turn_of ty =
     (if ty = watch_Added \<or> ty = watch_Modified then Some Fetch
      else if ty = watch_Deleted then Some Cleanup
      else None)"

text \<open>The copy a turn is in: source, destination and the call of the copy that is next.\<close>

fun turn_job :: "Config \<Rightarrow> turn_pc \<Rightarrow> (string \<times> string \<times> copy_pc) option" where
  "turn_job c (CopyScript b pc bs) = Some (script_src c b, script_dst c b, pc)"
| "turn_job c (FCopy n pc es) = Some (go_Join [ScriptMountPath c, n], go_Join [SharedDir c, n], pc)"
| "turn_job c pc = None"

text \<open>
  The second component is the turn the goroutine is in. The \<open>piece\<close> steps are the inside of the library
  routines that make several system calls: the writes of \<open>io.Copy\<close>, the directories of \<open>MkdirAll\<close>, the
  removals of \<open>RemoveAll\<close>. The signal and the exit of \<open>main\<close> may come at any time; after the exit the
  goroutine has no step.
\<close>

inductive fine_step ::
    "'raw dynclient set \<Rightarrow> (world \<Rightarrow> bool) \<Rightarrow> proc \<times> turn_pc option \<Rightarrow> proc \<times> turn_pc option \<Rightarrow> bool" for D ok where
  start_event: "mainpc p \<noteq> Exited \<Longrightarrow> routine p = Watching \<Longrightarrow> chan_recv (chan p) = Some (ty, ch) \<Longrightarrow>
     fine_step D ok (p, None) (p\<lparr>chan := ch\<rparr>, turn_of ty)"
| start_tick: "mainpc p \<noteq> Exited \<Longrightarrow> routine p = Polling \<Longrightarrow> fine_step D ok (p, None) (p, Some Fetch)"
| call: "mainpc p \<noteq> Exited \<Longrightarrow> dc \<in> D \<Longrightarrow> turn_next dc pc (manager p) (os p) = Some (pc', s', w') \<Longrightarrow>
     fine_step D ok (p, Some pc) (with_state p (s', w'), Some pc')"
| copy_piece: "mainpc p \<noteq> Exited \<Longrightarrow> turn_job (config (manager p)) pc = Some (src, dst, AtCopy) \<Longrightarrow>
     fget (os p) src = Some (File c m t) \<Longrightarrow> fget (os p) (tmp_of dst) = Some (File c1 m1 t1) \<Longrightarrow>
     fine_step D ok (p, Some pc) (p\<lparr>os := fput (tmp_of dst) (File (take k c) m1 t2) (os p)\<rparr>, Some pc)"
| mkdir_piece: "mainpc p \<noteq> Exited \<Longrightarrow> pc = Mkdir bs \<or> pc = FMkdir \<Longrightarrow>
     a \<in> set (ancestors (go_Clean (SharedDir (config (manager p))))) \<Longrightarrow> fget (os p) a = None \<Longrightarrow>
     fine_step D ok (p, Some pc) (p\<lparr>os := fput a Dir (os p)\<rparr>, Some pc)"
| remove_piece: "mainpc p \<noteq> Exited \<Longrightarrow> under (go_Clean (SharedDir (config (manager p)))) (go_Clean x) \<Longrightarrow>
     fine_step D ok (p, Some Cleanup) (p\<lparr>os := fdel x (os p)\<rparr>, Some Cleanup)"
| end_turn: "mainpc p \<noteq> Exited \<Longrightarrow> fine_step D ok (p, Some (TurnDone r)) (p, None)"
| stop: "mainpc p \<noteq> Exited \<Longrightarrow> routine p = Watching \<or> routine p = Polling \<Longrightarrow> ctxDone p \<Longrightarrow>
     fine_step D ok (p, None) (p\<lparr>routine := Finished\<rparr>, None)"
| fine_signal: "mainpc p = Waiting \<Longrightarrow> fine_step D ok (p, t) (p\<lparr>mainpc := Cancelled\<rparr>, t)"
| fine_exit: "mainpc p = Cancelled \<Longrightarrow>
     fine_step D ok (p, t) (p\<lparr>mainpc := Exited, os := snd (osRemove readyMarkerFile (os p))\<rparr>, t)"
| fine_server_event: "\<not> closed (chan p) \<Longrightarrow>
     fine_step D ok (p, t) (p\<lparr>chan := (chan p)\<lparr>pending := pending (chan p) @ [ty]\<rparr>\<rparr>, t)"
| fine_server_close: "fine_step D ok (p, t) (p\<lparr>chan := (chan p)\<lparr>closed := True\<rparr>\<rparr>, t)"
| fine_edit: "environment ok (config (manager p)) (os p) w' \<Longrightarrow> fine_step D ok (p, t) (p\<lparr>os := w'\<rparr>, t)"

inductive_cases fine_stepE: "fine_step D ok x y"

section \<open>One call keeps whole scripts whole\<close>

text \<open>A job whose source is under the mount path and whose destination is a script of the shared directory.\<close>

definition job_safe :: "Config \<Rightarrow> string \<Rightarrow> string \<Rightarrow> bool" where
  "job_safe c src dst \<longleftrightarrow> under (ScriptMountPath c) (go_Clean src) \<and>
     (\<exists>n. plain_name n \<and> \<not> tmp_name n \<and> dst = SharedDir c @ slash # n)"

text \<open>What is known of the temporary file once the copy has filled it.\<close>

definition tmp_ok :: "string set \<Rightarrow> string \<Rightarrow> copy_pc \<Rightarrow> world \<Rightarrow> bool" where
  "tmp_ok C dst pc w \<longleftrightarrow>
     (pc = AtClose \<or> pc = AtChmod \<longrightarrow> (\<exists>ct m t. fget w (tmp_of dst) = Some (File ct m t) \<and> ct \<in> C)) \<and>
     (pc = AtRename \<longrightarrow> (\<exists>ct t. fget w (tmp_of dst) = Some (File ct 493 t) \<and> ct \<in> C))"

lemma tmp_ok_idle: "pc \<notin> {AtClose, AtChmod, AtRename} \<Longrightarrow> tmp_ok C dst pc w"
  by (simp add: tmp_ok_def)

lemma job_paths:
  assumes "dirs_apart c" and "job_safe c src dst"
  obtains n where "plain_name n" "\<not> tmp_name n" "dst = SharedDir c @ slash # n" "go_Clean dst = SharedDir c @ slash # n"
    "go_Clean (tmp_of dst) = SharedDir c @ slash # tmp_of n"
    "\<And>x. under (ScriptMountPath c) (go_Clean x) \<Longrightarrow> \<not> same_path (tmp_of dst) x \<and> \<not> same_path dst x"
proof -
  from assms(2) obtain n where n: "plain_name n" "\<not> tmp_name n" "dst = SharedDir c @ slash # n"
    by (auto simp: job_safe_def)
  have d: "abs_dir (SharedDir c)" using assms(1) by (simp add: dirs_apart_def)
  have cl: "go_Clean dst = SharedDir c @ slash # n" "go_Clean (tmp_of dst) = SharedDir c @ slash # tmp_of n"
    unfolding n(3) by (rule joined [OF d n(1)])+
  have "\<not> same_path (tmp_of dst) x \<and> \<not> same_path dst x" if "under (ScriptMountPath c) (go_Clean x)" for x
    using mount_apart(2) [OF assms(1) that, of n] mount_apart(2) [OF assms(1) that, of "tmp_of n"]
      plain_noslash [OF n(1)] unfolding cl by simp
  with n cl show thesis by (rule that)
qed

lemma sources_ok_frame:
  assumes "dirs_apart c" and "sources_ok C c w"
    and "\<And>x. under (ScriptMountPath c) (go_Clean x) \<Longrightarrow> fget w' x = fget w x"
  shows "sources_ok C c w'"
proof -
  have d: "abs_dir (ScriptMountPath c)" using assms(1) by (simp add: dirs_apart_def)
  have "under (ScriptMountPath c) (go_Clean (ScriptMountPath c @ slash # n))" if "plain_name n" for n
    using clean_abs_snoc [OF d that] under_child by simp
  with assms(2,3) show ?thesis unfolding sources_ok_def by metis
qed

lemma copy_call_keeps:
  assumes "dirs_apart c" and "job_safe c src dst" and "sources_ok C c w" and "scripts_whole C c w"
    and "tmp_ok C dst pc w" and step: "copy_next src dst pc w = Some (pc', w')"
  shows "sources_ok C c w' \<and> scripts_whole C c w' \<and> tmp_ok C dst pc' w'"
proof (intro conjI)
  obtain n where n: "plain_name n" "\<not> tmp_name n" "dst = SharedDir c @ slash # n" "go_Clean dst = SharedDir c @ slash # n"
    "go_Clean (tmp_of dst) = SharedDir c @ slash # tmp_of n"
    and off: "\<And>x. under (ScriptMountPath c) (go_Clean x) \<Longrightarrow> \<not> same_path (tmp_of dst) x \<and> \<not> same_path dst x"
    using job_paths [OF assms(1,2)] by metis
  have d: "abs_dir (SharedDir c)" using assms(1) by (simp add: dirs_apart_def)
  have keep: "fget w' x = fget w x" if "\<not> same_path (tmp_of dst) x" "\<not> same_path dst x" for x
    using own_guarantee [OF step that] .
  show "sources_ok C c w'"
    by (rule sources_ok_frame [OF assms(1,3)]) (use keep off in blast)
  have dest: "fget w' dst = fget w dst \<or> (\<exists>ct t. fget w' dst = Some (File ct 493 t) \<and> ct \<in> C)"
  proof (cases "pc = AtRename")
    case True
    then obtain r where r: "osRename (tmp_of dst) dst w = (r, w')" using step by (auto split: prod.splits sum.splits)
    then show ?thesis
      using osRename_ok [of "tmp_of dst" dst w "projr r" w'] osRename_err [of "tmp_of dst" dst w "projl r" w']
        assms(5) True by (cases r) (auto simp: tmp_ok_def)
  next
    case False
    with own_dest [OF step] show ?thesis by simp
  qed
  show "scripts_whole C c w'"
    unfolding scripts_whole_def
  proof (intro allI impI)
    fix k ct m t
    assume k: "plain_name k" "\<not> tmp_name k" and f: "fget w' (SharedDir c @ slash # k) = Some (File ct m t)"
    have cl: "go_Clean (SharedDir c @ slash # k) = SharedDir c @ slash # k" by (rule clean_abs_snoc [OF d k(1)])
    have "k \<noteq> tmp_of n" using k(2) tmp_name_tmp by blast
    then have nt: "\<not> same_path (tmp_of dst) (SharedDir c @ slash # k)" unfolding n(5) cl by auto
    have old: "ct \<in> C \<and> m = 493" if "fget w' (SharedDir c @ slash # k) = fget w (SharedDir c @ slash # k)"
      using assms(4) k f that by (auto simp: scripts_whole_def)
    show "ct \<in> C \<and> m = 493"
    proof (cases "k = n")
      case True
      with dest f old show ?thesis unfolding n(3) by auto
    next
      case False
      then have "\<not> same_path dst (SharedDir c @ slash # k)" unfolding n(4) cl by simp
      with keep [OF nt] old show ?thesis by blast
    qed
  qed
  have src: "fget w src = Some (File ct m t) \<Longrightarrow> ct \<in> C" for ct m t
    using assms(2,3) by (auto simp: sources_ok_def job_safe_def)
  show "tmp_ok C dst pc' w'"
  proof (cases "pc \<in> {AtCopy, AtClose, AtChmod}")
    case False
    have "pc' \<notin> {AtClose, AtChmod, AtRename}"
    proof (cases "pc = AtRename")
      case True
      with step show ?thesis by (auto split: prod.splits sum.splits)
    next
      case ne: False
      with False own_other(1) [OF step] show ?thesis by simp
    qed
    then show ?thesis by (rule tmp_ok_idle)
  next
    case True
    then consider "pc = AtCopy" | "pc = AtClose" | "pc = AtChmod" by auto
    then show ?thesis
    proof cases
      case 1
      from own_tmp(1) [OF step 1] src show ?thesis by (auto simp: tmp_ok_def full_tmp_def)
    next
      case 2
      from own_tmp(2) [OF step 2] assms(5) 2 show ?thesis by (auto simp: tmp_ok_def)
    next
      case 3
      have "osChmod (tmp_of dst) 493 w = (Inr u, w') \<Longrightarrow> tmp_ok C dst AtRename w'" for u
        using osChmod_ok [of "tmp_of dst" 493 w u w'] assms(5) 3 by (auto simp: tmp_ok_def)
      then show ?thesis using step 3
        by (auto intro: tmp_ok_idle split: prod.splits sum.splits)
    qed
  qed
qed

section \<open>The invariant of the process\<close>

fun turn_safe :: "Config \<Rightarrow> turn_pc \<Rightarrow> bool" where
  "turn_safe c (Mkdir bs) \<longleftrightarrow> (\<forall>b \<in> set bs. job_safe c (script_src c b) (script_dst c b))"
| "turn_safe c (StatSrc b bs) \<longleftrightarrow> (\<forall>b \<in> set (b # bs). job_safe c (script_src c b) (script_dst c b))"
| "turn_safe c (CopyScript b pc bs) \<longleftrightarrow> (\<forall>b \<in> set (b # bs). job_safe c (script_src c b) (script_dst c b))"
| "turn_safe c (Verify b bs) \<longleftrightarrow> (\<forall>b \<in> set (b # bs). job_safe c (script_src c b) (script_dst c b))"
| "turn_safe c (FCopy n pc es) \<longleftrightarrow> (\<forall>m \<in> insert n (fst ` set es). plain_name m \<and> \<not> tmp_name m)"
| "turn_safe c pc \<longleftrightarrow> True"

definition turn_tmp :: "string set \<Rightarrow> Config \<Rightarrow> turn_pc \<Rightarrow> world \<Rightarrow> bool" where
  "turn_tmp C c pc w \<longleftrightarrow> (\<forall>src dst cp. turn_job c pc = Some (src, dst, cp) \<longrightarrow> tmp_ok C dst cp w)"

lemma stub_safe_job: "stub_safe c bs \<Longrightarrow> b \<in> set bs \<Longrightarrow> job_safe c (script_src c b) (script_dst c b)"
  unfolding stub_safe_def job_safe_def using stub_paths(1,6) by blast

lemma entry_job:
  assumes "dirs_apart c" and "plain_name n" and "\<not> tmp_name n"
  shows "job_safe c (go_Join [ScriptMountPath c, n]) (go_Join [SharedDir c, n])"
proof -
  have d: "abs_dir (SharedDir c)" "abs_dir (ScriptMountPath c)" using assms(1) by (simp_all add: dirs_apart_def)
  show ?thesis
    using joined(1) [OF d(1) assms(2)] joined(1,2) [OF d(2) assms(2)] under_child assms(2,3)
    by (auto simp: job_safe_def)
qed

lemma turn_job_safe:
  assumes "dirs_apart c" and "turn_safe c pc" and "turn_job c pc = Some (src, dst, cp)"
  shows "job_safe c src dst"
  using assms entry_job [OF assms(1)] by (cases pc) auto

lemma next_behavior_safe:
  "\<forall>b \<in> set bs. job_safe c (script_src c b) (script_dst c b) \<Longrightarrow>
     turn_safe c (next_behavior bs) \<and> turn_tmp C c (next_behavior bs) w"
  by (cases bs) (simp_all add: turn_tmp_def)

lemma next_entry_safe:
  "\<forall>m \<in> fst ` set es. plain_name m \<and> \<not> tmp_name m \<Longrightarrow>
     turn_safe c (next_entry es) \<and> turn_tmp C c (next_entry es) w"
  by (induction es) (auto simp: turn_tmp_def tmp_ok_idle)

lemma in_copy_safe:
  assumes "\<forall>b \<in> set (b # bs). job_safe c (script_src c b) (script_dst c b)" and "tmp_ok C (script_dst c b) pc w"
  shows "turn_safe c (in_copy b bs pc) \<and> turn_tmp C c (in_copy b bs pc) w"
  using assms next_behavior_safe [of bs c C w]
  by (cases "(b, bs, pc)" rule: in_copy.cases) (simp_all add: turn_tmp_def)

lemma in_entry_safe:
  assumes "\<forall>m \<in> insert n (fst ` set es). plain_name m \<and> \<not> tmp_name m" and "tmp_ok C (go_Join [SharedDir c, n]) pc w"
  shows "turn_safe c (in_entry n es pc) \<and> turn_tmp C c (in_entry n es pc) w"
  using assms next_entry_safe [of es c C w]
  by (cases "(n, es, pc)" rule: in_entry.cases) (simp_all add: turn_tmp_def)

text \<open>Changes that only remove files or make directories keep whole scripts whole.\<close>

lemma scripts_whole_fewer:
  assumes "scripts_whole C c w" and "\<And>x. fget w' x = fget w x \<or> fget w' x = None \<or> fget w' x = Some Dir"
  shows "scripts_whole C c w'"
  unfolding scripts_whole_def
proof (intro allI impI)
  fix n ct m t
  assume n: "plain_name n" "\<not> tmp_name n" and f: "fget w' (SharedDir c @ slash # n) = Some (File ct m t)"
  from assms(2) [of "SharedDir c @ slash # n"] f have "fget w (SharedDir c @ slash # n) = Some (File ct m t)" by simp
  with assms(1) n show "ct \<in> C \<and> m = 493" by (auto simp: scripts_whole_def)
qed

lemma sources_ok_fewer:
  assumes "sources_ok C c w" and "\<And>x. fget w' x = fget w x \<or> fget w' x = None"
  shows "sources_ok C c w'"
  using assms unfolding sources_ok_def by (metis option.distinct(1))

lemma mkdir_keeps:
  assumes "dirs_apart c" and "sources_ok C c w" and "scripts_whole C c w"
    and "osMkdirAll (SharedDir c) w = (r, w')"
  shows "sources_ok C c w' \<and> scripts_whole C c w'"
proof
  have d: "abs_dir (SharedDir c)" using assms(1) by (simp add: dirs_apart_def)
  show "sources_ok C c w'"
    by (rule sources_ok_frame [OF assms(1,2)])
       (rule osMkdirAll_other [OF assms(4) d mount_apart(1) [OF assms(1)]])
  show "scripts_whole C c w'"
    by (rule scripts_whole_fewer [OF assms(3)]) (use osMkdirAll_new [OF assms(4)] in blast)
qed

lemma stat_frame: "fget (snd (osStat p w)) = fget w"
  by (rule osStat_frame [OF prod.collapse [symmetric]])

lemma sources_ok_cong: "fget w' = fget w \<Longrightarrow> sources_ok C c w' = sources_ok C c w"
  by (simp add: sources_ok_def)

lemma scripts_whole_same: "fget w' = fget w \<Longrightarrow> scripts_whole C c w' = scripts_whole C c w"
  by (simp add: scripts_whole_def)

lemma call_keeps:
  assumes ap: "dirs_apart c" and "client_safe c dc" and "config s = c"
    and so: "sources_ok C c w" and sw: "scripts_whole C c w" and safe: "turn_safe c pc" and "turn_tmp C c pc w"
    and step: "turn_next dc pc s w = Some (pc', s', w')"
  shows "config s' = c \<and> sources_ok C c w' \<and> scripts_whole C c w' \<and> turn_safe c pc' \<and> turn_tmp C c pc' w'"
proof (cases pc)
  case Fetch
  show ?thesis
  proof (cases "getBehaviorStub dc s")
    case (Inl err)
    with Fetch step assms(3) so sw show ?thesis by (auto simp: turn_tmp_def)
  next
    case (Inr bs)
    then have "getBehaviorStub dc (NewSidecarManager c) = Inr bs"
      using getBehaviorStub_config [of s "NewSidecarManager c" dc] assms(3) by (simp add: NewSidecarManager_def)
    then have "stub_safe c (sbsBehaviors bs)" using assms(2) by (simp add: client_safe_def)
    with stub_safe_job have "\<forall>b \<in> set (sbsBehaviors bs). job_safe c (script_src c b) (script_dst c b)" by blast
    with Inr Fetch step assms(3) so sw show ?thesis by (auto simp: turn_tmp_def)
  qed
next
  case (Mkdir bs)
  obtain r w1 where mk: "osMkdirAll (SharedDir c) w = (r, w1)" by fastforce
  with Mkdir step assms(3) next_behavior_safe [of bs c C w1] safe mkdir_keeps [OF ap so sw mk] show ?thesis
    by (auto simp: turn_tmp_def split: sum.splits)
next
  case (StatSrc b bs)
  obtain r w1 where st: "osStat (script_src c b) w = (r, w1)" by fastforce
  have "fget w1 = fget w" using st by (rule osStat_frame)
  then have "sources_ok C c w1" "scripts_whole C c w1" using so sw sources_ok_cong scripts_whole_same by blast+
  with StatSrc step assms(3) next_behavior_safe [of bs c C w1] safe st show ?thesis
    by (auto simp: turn_tmp_def tmp_ok_idle split: if_splits)
next
  case (CopyScript b cp bs)
  then obtain cp' where cp: "copy_next (script_src c b) (script_dst c b) cp w = Some (cp', w')"
    and e: "pc' = in_copy b bs cp'" "s' = s"
    using step assms(3) by auto
  have j: "\<forall>b \<in> set (b # bs). job_safe c (script_src c b) (script_dst c b)" using safe CopyScript by simp
  then have "job_safe c (script_src c b) (script_dst c b)" by simp
  moreover have "tmp_ok C (script_dst c b) cp w" using assms(7) CopyScript by (simp add: turn_tmp_def)
  ultimately have k: "sources_ok C c w' \<and> scripts_whole C c w' \<and> tmp_ok C (script_dst c b) cp' w'"
    using copy_call_keeps [OF ap _ so sw _ cp] by blast
  with in_copy_safe [OF j, of C cp' w'] e assms(3) show ?thesis by blast
next
  case (Verify b bs)
  have "sources_ok C c (snd (osStat p w))" "scripts_whole C c (snd (osStat p w))" for p
    using so sw sources_ok_cong [OF stat_frame] scripts_whole_same [OF stat_frame] by blast+
  with Verify step assms(3) next_behavior_safe [of bs c C w'] safe show ?thesis by auto
next
  case FMkdir
  obtain r w1 where mk: "osMkdirAll (SharedDir c) w = (r, w1)" by fastforce
  with FMkdir step assms(3) mkdir_keeps [OF ap so sw mk] show ?thesis
    by (auto simp: turn_tmp_def split: sum.splits)
next
  case FReadDir
  obtain r w1 where rd: "osReadDir (ScriptMountPath c) w = (r, w1)" by fastforce
  have "fget w1 = fget w" using rd by (rule osReadDir_frame)
  then have k: "sources_ok C c w1" "scripts_whole C c w1" using so sw sources_ok_cong scripts_whole_same by blast+
  show ?thesis
  proof (cases r)
    case (Inl e)
    with FReadDir step assms(3) rd k show ?thesis by (auto simp: turn_tmp_def)
  next
    case (Inr es)
    have "\<forall>m \<in> fst ` set es. plain_name m \<and> \<not> tmp_name m"
      using osReadDir_ok(1) [OF rd [unfolded Inr]] dirs_apart_fallback [OF ap so]
      by (auto simp: publishable_def)
    from next_entry_safe [OF this] FReadDir step assms(3) rd k Inr show ?thesis by auto
  qed
next
  case (FCopy n cp es)
  then obtain cp' where cp: "copy_next (go_Join [ScriptMountPath c, n]) (go_Join [SharedDir c, n]) cp w = Some (cp', w')"
    and e: "pc' = in_entry n es cp'" "s' = s"
    using step assms(3) by auto
  have j: "\<forall>m \<in> insert n (fst ` set es). plain_name m \<and> \<not> tmp_name m" using safe FCopy by simp
  then have "job_safe c (go_Join [ScriptMountPath c, n]) (go_Join [SharedDir c, n])" using entry_job [OF ap] by simp
  moreover have "tmp_ok C (go_Join [SharedDir c, n]) cp w" using assms(7) FCopy by (simp add: turn_tmp_def)
  ultimately have k: "sources_ok C c w' \<and> scripts_whole C c w' \<and> tmp_ok C (go_Join [SharedDir c, n]) cp' w'"
    using copy_call_keeps [OF ap _ so sw _ cp] by blast
  with in_entry_safe [OF j, of C c cp' w'] e assms(3) show ?thesis by blast
next
  case Cleanup
  with step cleanup_keeps_whole [OF so sw] assms(3) show ?thesis by (auto simp: turn_tmp_def)
next
  case (TurnDone r)
  with step show ?thesis by simp
qed

text \<open>
  The turn counts only as long as the process runs: its exit removes the ready marker, which may be any file
  to a turn that will not go on.
\<close>

definition fine_inv :: "string set \<Rightarrow> Config \<Rightarrow> proc \<times> turn_pc option \<Rightarrow> bool" where
  "fine_inv C c x \<longleftrightarrow> proc_inv C c (fst x) \<and>
     (\<forall>pc. snd x = Some pc \<longrightarrow> mainpc (fst x) \<noteq> Exited \<longrightarrow> turn_safe c pc \<and> turn_tmp C c pc (os (fst x)))"

lemma turn_of_safe: "turn_of ty = Some pc \<Longrightarrow> turn_safe c pc \<and> turn_tmp C c pc w"
  by (auto simp: turn_of_def turn_tmp_def split: if_splits)

text \<open>A change of the files in the middle of a turn.\<close>

lemma fine_inv_os:
  assumes "fine_inv C c (p, Some pc)" and "mainpc p \<noteq> Exited" and "sources_ok C c w'" and "scripts_whole C c w'"
    and "turn_tmp C c pc w'"
  shows "fine_inv C c (p\<lparr>os := w'\<rparr>, Some pc)"
  using assms by (simp add: fine_inv_def proc_inv_def)

lemma fine_step_inv:
  assumes ap: "dirs_apart c" and "\<forall>dc \<in> D. client_safe c dc" and inv: "fine_inv C c x"
    and "fine_step D (sources_ok C c) x y"
  shows "fine_inv C c y"
  using assms(4)
proof (cases rule: fine_step.cases)
  case (start_event p ty ch)
  then show ?thesis using inv turn_of_safe by (auto simp: fine_inv_def proc_inv_def)
next
  case (start_tick p)
  then show ?thesis using inv by (simp add: fine_inv_def turn_tmp_def)
next
  case (call p dc pc pc' s' w')
  then have p: "config (manager p) = c" "sources_ok C c (os p)" "scripts_whole C c (os p)"
    "turn_safe c pc" "turn_tmp C c pc (os p)" "client_safe c dc"
    using inv assms(2) by (auto simp: fine_inv_def proc_inv_def)
  from call_keeps [OF ap p(6,1-5) call(5)] show ?thesis by (simp add: call fine_inv_def proc_inv_def)
next
  case (copy_piece p pc src dst ct m t c1 m1 t1 k t2)
  then have p: "config (manager p) = c" "sources_ok C c (os p)" "scripts_whole C c (os p)" "turn_safe c pc"
    and I: "fine_inv C c (p, Some pc)"
    using inv by (auto simp: fine_inv_def proc_inv_def)
  have job: "turn_job c pc = Some (src, dst, AtCopy)" using copy_piece(4) p(1) by simp
  let ?w = "fput (tmp_of dst) (File (take k ct) m1 t2) (os p)"
  obtain n where n: "plain_name n" "go_Clean (tmp_of dst) = SharedDir c @ slash # tmp_of n"
    "\<And>x. under (ScriptMountPath c) (go_Clean x) \<Longrightarrow> \<not> same_path (tmp_of dst) x \<and> \<not> same_path dst x"
    using job_paths [OF ap turn_job_safe [OF ap p(4) job]] by metis
  have "sources_ok C c ?w" by (rule sources_ok_frame [OF ap p(2)]) (use n(3) in simp)
  moreover have "scripts_whole C c ?w"
    unfolding scripts_whole_def
  proof (intro allI impI)
    fix k' ct' m' t'
    assume k: "plain_name k'" "\<not> tmp_name k'" and f: "fget ?w (SharedDir c @ slash # k') = Some (File ct' m' t')"
    have "abs_dir (SharedDir c)" using ap by (simp add: dirs_apart_def)
    from clean_abs_snoc [OF this k(1)] have "\<not> same_path (tmp_of dst) (SharedDir c @ slash # k')"
      using n(2) k(2) tmp_name_tmp by auto
    with p(3) k f show "ct' \<in> C \<and> m' = 493" by (auto simp: scripts_whole_def)
  qed
  moreover have "turn_tmp C c pc ?w" using job by (simp add: turn_tmp_def tmp_ok_idle)
  ultimately show ?thesis using fine_inv_os [OF I copy_piece(3)] copy_piece(2) by blast
next
  case (mkdir_piece p pc bs a)
  then have p: "config (manager p) = c" "sources_ok C c (os p)" "scripts_whole C c (os p)"
    and I: "fine_inv C c (p, Some pc)"
    using inv by (auto simp: fine_inv_def proc_inv_def)
  let ?w = "fput a Dir (os p)"
  have d: "abs_dir (SharedDir c)" using ap by (simp add: dirs_apart_def)
  have a: "a \<in> set (ancestors (SharedDir c))" using mkdir_piece(5) p(1) d by simp
  have "go_Clean a = a" using ancestors_abs [OF d a] by simp
  then have "\<not> same_path a x" if "under (ScriptMountPath c) (go_Clean x)" for x
    using mount_apart(1) [OF ap that] a by metis
  then have "sources_ok C c ?w" by (intro sources_ok_frame [OF ap p(2)]) simp
  moreover have "scripts_whole C c ?w" by (rule scripts_whole_fewer [OF p(3)]) simp
  moreover have "turn_tmp C c pc ?w" using mkdir_piece(4) by (auto simp: turn_tmp_def)
  ultimately show ?thesis using fine_inv_os [OF I mkdir_piece(3)] mkdir_piece(2) by blast
next
  case (remove_piece p x)
  then have p: "sources_ok C c (os p)" "scripts_whole C c (os p)" and I: "fine_inv C c (p, Some Cleanup)"
    using inv by (auto simp: fine_inv_def proc_inv_def)
  have "sources_ok C c (fdel x (os p))" by (rule sources_ok_fewer [OF p(1)]) simp
  moreover have "scripts_whole C c (fdel x (os p))" by (rule scripts_whole_fewer [OF p(2)]) simp
  moreover have "turn_tmp C c Cleanup (fdel x (os p))" by (simp add: turn_tmp_def)
  ultimately show ?thesis using fine_inv_os [OF I remove_piece(3)] remove_piece(2) by blast
next
  case (fine_exit p t)
  then show ?thesis using inv osRemove_keeps_whole by (auto simp: fine_inv_def proc_inv_def)
next
  case (fine_edit p w' t)
  then have p: "config (manager p) = c" "scripts_whole C c (os p)" and
    e: "sources_ok C c w'" "\<forall>x. under (SharedDir c) (go_Clean x) \<longrightarrow> fget w' x = fget (os p) x"
    using inv by (auto simp: fine_inv_def proc_inv_def environment_def)
  have d: "abs_dir (SharedDir c)" using ap by (simp add: dirs_apart_def)
  have sw: "scripts_whole C c w'" using scripts_whole_cong [OF d e(2) p(2)] .
  have "turn_tmp C c pc w'" if t: "t = Some pc" "mainpc p \<noteq> Exited" for pc
  proof -
    have s: "turn_safe c pc" "turn_tmp C c pc (os p)" using inv fine_edit(1) t by (auto simp: fine_inv_def)
    have "fget w' (tmp_of dst) = fget (os p) (tmp_of dst)" if "turn_job c pc = Some (src, dst, cp)" for src dst cp
      using job_paths [OF ap turn_job_safe [OF ap s(1) that]] e(2) under_child by metis
    with s(2) show ?thesis by (auto simp: turn_tmp_def tmp_ok_def)
  qed
  with inv fine_edit e(1) sw p(1) show ?thesis by (auto simp: fine_inv_def proc_inv_def)
qed (use inv in \<open>auto simp: fine_inv_def proc_inv_def\<close>)

section \<open>What a container sees of the shared directory\<close>

text \<open>
  The abstract machine: the scripts of the shared directory by their names, temporary names left out. It changes
  by the publication of one whole executable script or, when the sidecar cleans up or leaves, by a removal.
\<close>

definition shared_view :: "Config \<Rightarrow> world \<Rightarrow> string \<rightharpoonup> node" where
  "shared_view c w n = (if plain_name n \<and> \<not> tmp_name n then fget w (SharedDir c @ slash # n) else None)"

inductive shared_step :: "string set \<Rightarrow> bool \<Rightarrow> (string \<rightharpoonup> node) \<Rightarrow> (string \<rightharpoonup> node) \<Rightarrow> bool" for C leaving where
  publish: "ct \<in> C \<Longrightarrow> shared_step C leaving v (v(n \<mapsto> File ct 493 t))"
| remove: "leaving \<Longrightarrow> shared_step C leaving v (v |` A)"

lemma shared_step_mono: "shared_step C l v v' \<Longrightarrow> (l \<Longrightarrow> l') \<Longrightarrow> shared_step C l' v v'"
  by (induction rule: shared_step.induct) (auto intro: shared_step.intros)

lemma shared_view_cong:
  "(\<And>n. plain_name n \<Longrightarrow> \<not> tmp_name n \<Longrightarrow> fget w' (SharedDir c @ slash # n) = fget w (SharedDir c @ slash # n)) \<Longrightarrow>
     shared_view c w' = shared_view c w"
  by (auto simp: shared_view_def)

lemma shared_view_fewer:
  assumes "\<And>x. fget w' x = fget w x \<or> fget w' x = None"
  shows "\<exists>A. shared_view c w' = shared_view c w |` A"
proof -
  have "shared_view c w' n = (shared_view c w |` {n. shared_view c w' n \<noteq> None}) n" for n
    using assms [of "SharedDir c @ slash # n"] by (auto simp: shared_view_def restrict_map_def)
  then show ?thesis by blast
qed

lemma copy_call_view:
  assumes "dirs_apart c" and "job_safe c src dst" and "tmp_ok C dst pc w"
    and step: "copy_next src dst pc w = Some (pc', w')"
  shows "shared_view c w' = shared_view c w \<or> shared_step C l (shared_view c w) (shared_view c w')"
proof -
  obtain n where n: "plain_name n" "\<not> tmp_name n" "dst = SharedDir c @ slash # n"
    "go_Clean dst = SharedDir c @ slash # n" "go_Clean (tmp_of dst) = SharedDir c @ slash # tmp_of n"
    using job_paths [OF assms(1,2)] by metis
  have d: "abs_dir (SharedDir c)" using assms(1) by (simp add: dirs_apart_def)
  have other: "fget w' (SharedDir c @ slash # k) = fget w (SharedDir c @ slash # k)"
    if k: "plain_name k" "\<not> tmp_name k" "k \<noteq> n" for k
  proof (rule own_guarantee [OF step])
    have "k \<noteq> tmp_of n" using k(2) tmp_name_tmp by blast
    then show "\<not> same_path (tmp_of dst) (SharedDir c @ slash # k)" "\<not> same_path dst (SharedDir c @ slash # k)"
      unfolding n(4,5) clean_abs_snoc [OF d k(1)] using k(3) by auto
  qed
  show ?thesis
  proof (cases "fget w' dst = fget w dst")
    case True
    then have "shared_view c w' = shared_view c w" using other n(3) by (intro shared_view_cong) metis
    then show ?thesis ..
  next
    case False
    then have pc: "pc = AtRename" using own_dest [OF step] by blast
    with step obtain r where r: "osRename (tmp_of dst) dst w = (r, w')" by (auto split: prod.splits sum.splits)
    then obtain ct t where new: "ct \<in> C" "fget w' dst = Some (File ct 493 t)"
      using osRename_ok [of "tmp_of dst" dst w "projr r" w'] osRename_err [of "tmp_of dst" dst w "projl r" w']
        assms(3) pc False by (cases r) (auto simp: tmp_ok_def)
    have "shared_view c w' = (shared_view c w)(n \<mapsto> File ct 493 t)"
      using other new(2) n(1-3) by (auto simp: shared_view_def fun_eq_iff)
    with new(1) show ?thesis by (metis shared_step.publish)
  qed
qed

lemma mkdir_view:
  assumes "dirs_apart c" and "\<And>x. go_Clean x \<notin> set (ancestors (SharedDir c)) \<Longrightarrow> fget w' x = fget w x"
  shows "shared_view c w' = shared_view c w"
proof (rule shared_view_cong)
  fix n :: string assume n: "plain_name n"
  have d: "abs_dir (SharedDir c)" using assms(1) by (simp add: dirs_apart_def)
  have "SharedDir c @ slash # n \<notin> set (ancestors (SharedDir c))" using ancestors_shorter [OF d] by fastforce
  then show "fget w' (SharedDir c @ slash # n) = fget w (SharedDir c @ slash # n)"
    by (intro assms(2)) (simp add: clean_abs_snoc [OF d n])
qed

lemma shared_view_same: "fget w' = fget w \<Longrightarrow> shared_view c w' = shared_view c w"
  by (simp add: shared_view_def fun_eq_iff)

lemma call_view:
  assumes ap: "dirs_apart c" and "config s = c" and "turn_safe c pc" and "turn_tmp C c pc w"
    and step: "turn_next dc pc s w = Some (pc', s', w')"
  shows "shared_view c w' = shared_view c w \<or> shared_step C (pc = Cleanup) (shared_view c w) (shared_view c w')"
proof -
  have d: "abs_dir (SharedDir c)" using ap by (simp add: dirs_apart_def)
  show ?thesis
  proof (cases "turn_job c pc")
    case (Some j)
    obtain src dst cp where j: "j = (src, dst, cp)" by (cases j)
    have "\<exists>cp'. copy_next src dst cp w = Some (cp', w')" using step Some j assms(2) by (cases pc) auto
    moreover have "tmp_ok C dst cp w" using assms(4) Some j by (simp add: turn_tmp_def)
    ultimately show ?thesis using copy_call_view [OF ap turn_job_safe [OF ap assms(3)]] Some j by blast
  next
    case None
    show ?thesis
    proof (cases "pc = Cleanup")
      case True
      then have w': "w' = cleanupScripts s w" using step by auto
      have "fget w' x = fget w x \<or> fget w' x = None" for x
        using osRemoveAll_effect [of "SharedDir (config s)" w "fst (osRemoveAll (SharedDir (config s)) w)" w' x]
        unfolding w' by (auto simp: cleanupScripts_def)
      from shared_view_fewer [OF this] shared_step.remove True show ?thesis by metis
    next
      case False
      have mk: "shared_view c w' = shared_view c w" if "osMkdirAll (SharedDir c) w = (r, w')" for r
        by (rule mkdir_view [OF ap]) (rule osMkdirAll_other [OF that d])
      have "(\<exists>r. osMkdirAll (SharedDir c) w = (r, w')) \<or> fget w' = fget w"
        using step assms(2) None False
        by (cases pc) (auto simp: stat_frame dest: osStat_frame osReadDir_frame split: prod.splits sum.splits)
      with mk show ?thesis using shared_view_same by metis
    qed
  qed
qed

lemma fine_step_view:
  assumes ap: "dirs_apart c" and inv: "fine_inv C c (p, t)" and "fine_step D (sources_ok C c) (p, t) (p', t')"
  shows "shared_view c (os p') = shared_view c (os p) \<or>
    shared_step C (t = Some Cleanup \<or> mainpc p = Cancelled) (shared_view c (os p)) (shared_view c (os p'))"
proof -
  have cf: "config (manager p) = c" using inv by (simp add: fine_inv_def proc_inv_def)
  have d: "abs_dir (SharedDir c)" using ap by (simp add: dirs_apart_def)
  show ?thesis
    using assms(3)
  proof (cases rule: fine_step.cases)
    case (call dc pc pc' s' w')
    then have "turn_safe c pc" "turn_tmp C c pc (os p)" using inv by (simp_all add: fine_inv_def)
    from call_view [OF ap cf this call(6)] call show ?thesis by (auto intro: shared_step_mono)
  next
    case (copy_piece pc src dst ct m t1 c1 m1 t2 k t3)
    then have "turn_safe c pc" "turn_job c pc = Some (src, dst, AtCopy)" using inv cf by (simp_all add: fine_inv_def)
    from job_paths [OF ap turn_job_safe [OF ap this]] obtain n where
      n: "go_Clean (tmp_of dst) = SharedDir c @ slash # tmp_of n" by metis
    have "shared_view c (os p') = shared_view c (os p)"
    proof (rule shared_view_cong)
      fix k' :: string assume k: "plain_name k'" "\<not> tmp_name k'"
      then have "\<not> same_path (tmp_of dst) (SharedDir c @ slash # k')"
        unfolding n clean_abs_snoc [OF d k(1)] using tmp_name_tmp by auto
      then show "fget (os p') (SharedDir c @ slash # k') = fget (os p) (SharedDir c @ slash # k')"
        using copy_piece by simp
    qed
    then show ?thesis ..
  next
    case (mkdir_piece pc bs a)
    have a: "a \<in> set (ancestors (SharedDir c))" using mkdir_piece cf d by simp
    have "go_Clean a = a" using ancestors_abs [OF d a] by simp
    then have "shared_view c (os p') = shared_view c (os p)"
      using mkdir_piece a by (intro mkdir_view [OF ap]) auto
    then show ?thesis ..
  next
    case (remove_piece x)
    have "\<exists>A. shared_view c (os p') = shared_view c (os p) |` A"
      by (rule shared_view_fewer) (use remove_piece in simp)
    with remove_piece shared_step.remove show ?thesis by metis
  next
    case fine_exit
    have "fget (os p') x = fget (os p) x \<or> fget (os p') x = None" for x
      using fine_exit osRemove_any [of readyMarkerFile "os p" "fst (osRemove readyMarkerFile (os p))" "os p'"]
      by (auto split: if_splits)
    from shared_view_fewer [OF this] fine_exit shared_step.remove show ?thesis by metis
  next
    case (fine_edit w')
    then have "\<forall>x. under (SharedDir c) (go_Clean x) \<longrightarrow> fget w' x = fget (os p) x" using cf by (simp add: environment_def)
    then have "shared_view c w' = shared_view c (os p)"
      using clean_abs_snoc [OF d] under_child by (intro shared_view_cong) metis
    with fine_edit show ?thesis by simp
  qed simp_all
qed

section \<open>The turns of WatchLoop are runs of calls\<close>

lemma with_state_twice [simp]: "with_state (with_state p st) st' = with_state p st'"
  by (simp add: with_state_def)

lemma with_state_own: "with_state p (manager p, os p) = p"
  by (simp add: with_state_def)

text \<open>A turn never rests in a copy that has returned.\<close>

definition turn_live :: "turn_pc \<Rightarrow> bool" where
  "turn_live pc \<longleftrightarrow> (\<forall>b r bs. pc \<noteq> CopyScript b (AtReturn r) bs) \<and> (\<forall>n r es. pc \<noteq> FCopy n (AtReturn r) es)"

lemma turn_live_intros [simp]:
  "turn_live Fetch" "turn_live Cleanup" "turn_live (next_behavior bs)" "turn_live (next_entry es)"
  "turn_live (in_copy b bs pc)" "turn_live (in_entry n es pc)"
proof -
  show nb: "turn_live (next_behavior bs)" for bs by (cases bs) (simp_all add: turn_live_def)
  show ne: "turn_live (next_entry es)" for es by (induction es) (simp_all add: turn_live_def)
  show "turn_live (in_copy b bs pc)"
    using nb [of bs] by (cases "(b, bs, pc)" rule: in_copy.cases) (simp_all add: turn_live_def)
  show "turn_live (in_entry n es pc)"
    using ne [of es] by (cases "(n, es, pc)" rule: in_entry.cases) (simp_all add: turn_live_def)
qed (simp_all add: turn_live_def)

lemma turn_next_live: "turn_next dc pc s w = Some (pc', s', w') \<Longrightarrow> turn_live pc'"
  by (cases pc) (auto simp: turn_live_def [of "TurnDone r" for r] turn_live_def [of "Mkdir bs" for bs]
      turn_live_def [of FMkdir] turn_live_def [of FReadDir] turn_live_def [of "CopyScript b AtOpen bs" for b bs]
      split: prod.splits sum.splits if_splits)

lemma turn_next_end: "turn_live pc \<Longrightarrow> turn_next dc pc s w = None \<Longrightarrow> \<exists>r. pc = TurnDone r"
  by (cases pc) (auto simp: turn_live_def dest: copy_next_None)

lemma calls_run:
  assumes "mainpc p \<noteq> Exited" and "dc \<in> D" and "turn_run dc pc s w = (r, s', w')" and "turn_live pc"
  shows "\<exists>r'. (fine_step D ok)\<^sup>*\<^sup>* (with_state p (s, w), Some pc) (with_state p (s', w'), Some (TurnDone r'))"
  using assms(2-4)
proof (induction dc pc s w rule: turn_run.induct)
  case (1 dc pc s w)
  show ?case
  proof (cases "turn_next dc pc s w")
    case None
    then obtain r0 where "pc = TurnDone r0" using turn_next_end [OF 1(4)] by blast
    with 1(3) show ?thesis by auto
  next
    case (Some x)
    obtain pc' s1 w1 where x: "x = (pc', s1, w1)" by (cases x)
    with Some have next_call: "turn_next dc pc s w = Some (pc', s1, w1)" by simp
    have "fine_step D ok (with_state p (s, w), Some pc) (with_state (with_state p (s, w)) (s1, w1), Some pc')"
      by (rule fine_step.call [where dc = dc]) (use assms(1) 1(2) next_call in simp_all)
    moreover have "turn_run dc pc' s1 w1 = (r, s', w')" using 1(3) turn_run_step [OF next_call] by simp
    from 1(1) [OF next_call refl refl 1(2) this turn_next_live [OF next_call]] obtain r' where
      "(fine_step D ok)\<^sup>*\<^sup>* (with_state p (s1, w1), Some pc') (with_state p (s', w'), Some (TurnDone r'))" by blast
    ultimately show ?thesis
      by (intro exI [of _ r']) (simp add: converse_rtranclp_into_rtranclp)
  qed
qed

lemma turn_runs:
  assumes "mainpc p \<noteq> Exited" and "dc \<in> D" and "turn_run dc pc (manager p) (os p) = (r, s', w')"
    and "turn_live pc"
  shows "(fine_step D ok)\<^sup>*\<^sup>* (p, Some pc) (with_state p (s', w'), None)"
proof -
  from calls_run [OF assms] obtain r' where
    "(fine_step D ok)\<^sup>*\<^sup>* (p, Some pc) (with_state p (s', w'), Some (TurnDone r'))"
    unfolding with_state_own by blast
  moreover have "fine_step D ok (with_state p (s', w'), Some (TurnDone r')) (with_state p (s', w'), None)"
    by (rule fine_step.end_turn) (simp add: assms(1))
  ultimately show ?thesis by (rule rtranclp.rtrancl_into_rtrancl)
qed

lemma event_runs:
  assumes "mainpc p \<noteq> Exited" and "dc \<in> D"
  shows "(fine_step D ok)\<^sup>*\<^sup>* (p, turn_of ty) (with_state p (handleEvent dc ty (manager p, os p)), None)"
proof (cases rule: handleEvent_cases [of ty dc "(manager p, os p)"])
  case sync
  obtain r s' w' where sy: "SyncAllScripts dc (manager p) (os p) = (r, s', w')" by (metis prod_cases3)
  then have "turn_run dc Fetch (manager p) (os p) = (r, s', w')" by (simp only: turn_is_sync)
  from turn_runs [OF assms this turn_live_intros(1)] sync(1) show ?thesis
    by (simp add: sync(2) pollTick_def sy turn_of_def)
next
  case cleanup
  have "turn_of ty = Some Cleanup"
    using cleanup(1) by (simp add: turn_of_def watch_Added_def watch_Modified_def watch_Deleted_def)
  with turn_runs [OF assms turn_is_cleanup turn_live_intros(2)] cleanup(2) show ?thesis by simp
next
  case ignore
  then show ?thesis by (simp add: turn_of_def with_state_own)
qed

lemma fine_runs_step:
  assumes "proc_step D ok p p'"
  shows "(fine_step D ok)\<^sup>*\<^sup>* (p, None) (p', None)"
  using assms
proof (cases rule: proc_step.cases)
  case (watch_event ty ch dc)
  have "fine_step D ok (p, None) (p\<lparr>chan := ch\<rparr>, turn_of ty)"
    using watch_event by (intro fine_step.start_event) simp_all
  moreover have "(fine_step D ok)\<^sup>*\<^sup>* (p\<lparr>chan := ch\<rparr>, turn_of ty) (p', None)"
    using event_runs [of "p\<lparr>chan := ch\<rparr>" dc D ok ty] watch_event by simp
  ultimately show ?thesis by (rule converse_rtranclp_into_rtranclp)
next
  case (poll_tick dc)
  obtain r s' w' where sy: "SyncAllScripts dc (manager p) (os p) = (r, s', w')" by (metis prod_cases3)
  have "fine_step D ok (p, None) (p, Some Fetch)" using poll_tick by (intro fine_step.start_tick) simp_all
  moreover have "(fine_step D ok)\<^sup>*\<^sup>* (p, Some Fetch) (p', None)"
    using turn_runs [OF poll_tick(2) poll_tick(4), of Fetch r s' w' ok] poll_tick(1)
    by (simp add: turn_is_sync sy pollTick_def)
  ultimately show ?thesis by (rule converse_rtranclp_into_rtranclp)
qed (auto intro: fine_step.intros)

section \<open>Properties\<close>

text \<open>
  C3: a command that a container can run from the shared directory is a whole script at every moment. In
  every state of the running sidecar between any two of its calls, inside a copy, inside a removal, after a
  signal or an exit in the middle of a turn, for all events, answers of the API server, edits of the
  sources and failures of system calls, each file of the shared directory whose name is no temporary name has mode
  0755 and one of the contents that the sources had.
\<close>

theorem whole_at_every_call:
  assumes "dirs_apart c" and "\<forall>dc \<in> D. client_safe c dc" and "sources_ok C c w" and "scripts_whole C c w"
    and "(fine_step D (sources_ok C c))\<^sup>*\<^sup>* (startWatch watchErr ch (NewSidecarManager c) w, None) (p, t)"
    and "plain_name n" and "\<not> tmp_name n" and "fget (os p) (SharedDir c @ slash # n) = Some (File ct m mt)"
  shows "ct \<in> C \<and> m = 493"
proof -
  have "fine_inv C c (startWatch watchErr ch (NewSidecarManager c) w, None)"
    using assms(3,4) by (simp add: fine_inv_def proc_inv_def startWatch_def NewSidecarManager_def)
  with assms(5) have "fine_inv C c (p, t)"
    by (induction rule: rtranclp_induct) (auto intro: fine_step_inv [OF assms(1,2)])
  with assms(6-8) show ?thesis by (auto simp: fine_inv_def proc_inv_def scripts_whole_def)
qed

text \<open>
  C5: the running sidecar refines the machine of whole scripts. Each of its steps leaves the scripts of the shared
  directory as the containers see them, or puts one whole executable script in place, or removes scripts; and
  scripts are removed only in the clean-up after the deletion of the stub, or by the exit of the process, which removes
  the ready marker.
\<close>

theorem sidecar_refines_shared:
  assumes "dirs_apart c" and "\<forall>dc \<in> D. client_safe c dc" and "sources_ok C c w" and "scripts_whole C c w"
    and "(fine_step D (sources_ok C c))\<^sup>*\<^sup>* (startWatch watchErr ch (NewSidecarManager c) w, None) (p, t)"
    and "fine_step D (sources_ok C c) (p, t) (p', t')"
  shows "shared_view c (os p') = shared_view c (os p) \<or>
    shared_step C (t = Some Cleanup \<or> mainpc p = Cancelled) (shared_view c (os p)) (shared_view c (os p'))"
proof -
  have "fine_inv C c (startWatch watchErr ch (NewSidecarManager c) w, None)"
    using assms(3,4) by (simp add: fine_inv_def proc_inv_def startWatch_def NewSidecarManager_def)
  with assms(5) have "fine_inv C c (p, t)"
    by (induction rule: rtranclp_induct) (auto intro: fine_step_inv [OF assms(1,2)])
  from fine_step_view [OF assms(1) this assms(6)] show ?thesis .
qed


text \<open>
  C27: every turn ends. Whatever the API server answers, whatever the system calls return and whatever the rest of
  the system does between two calls, there is no infinite sequence of calls of one turn.
\<close>

theorem turns_end:
  "\<nexists>pcs. \<forall>i. \<exists>(dc :: 'raw dynclient) s w s' w'. turn_next dc (pcs i) s w = Some (pcs (Suc i), s', w')"
proof
  assume "\<exists>pcs. \<forall>i. \<exists>(dc :: 'raw dynclient) s w s' w'. turn_next dc (pcs i) s w = Some (pcs (Suc i), s', w')"
  then obtain pcs where "\<forall>i. (pcs (Suc i), pcs i) \<in> turn_order" using turn_next_less by metis
  with wf_turn_order show False unfolding wf_iff_no_infinite_down_chain by blast
qed

subsection \<open>Runs\<close>

text \<open>The process after \<open>n\<close> calls of its turn, answered by \<open>dc\<close>.\<close>

fun calls_after :: "'raw dynclient \<Rightarrow> nat \<Rightarrow> proc \<Rightarrow> turn_pc \<Rightarrow> proc \<times> turn_pc" where
  "calls_after dc 0 p pc = (p, pc)"
| "calls_after dc (Suc n) p pc =
     (case turn_next dc pc (manager p) (os p) of
        None \<Rightarrow> (p, pc)
      | Some (pc', s', w') \<Rightarrow> calls_after dc n (with_state p (s', w')) pc')"

lemma calls_after_reach:
  assumes "mainpc p \<noteq> Exited" and "dc \<in> D" and "calls_after dc n p pc = (p', pc')"
  shows "(fine_step D ok)\<^sup>*\<^sup>* (p, Some pc) (p', Some pc') \<and> mainpc p' \<noteq> Exited"
  using assms(1,3)
proof (induction n arbitrary: p pc)
  case (Suc n)
  show ?case
  proof (cases "turn_next dc pc (manager p) (os p)")
    case None
    with Suc.prems show ?thesis by simp
  next
    case (Some x)
    obtain pc1 s1 w1 where "x = (pc1, s1, w1)" by (cases x)
    with Some have t: "turn_next dc pc (manager p) (os p) = Some (pc1, s1, w1)" by simp
    have "fine_step D ok (p, Some pc) (with_state p (s1, w1), Some pc1)"
      by (rule fine_step.call [OF Suc.prems(1) assms(2) t])
    moreover have "calls_after dc n (with_state p (s1, w1)) pc1 = (p', pc')" using Suc.prems(2) t by simp
    with Suc.IH [of "with_state p (s1, w1)" pc1] Suc.prems(1) have
      "(fine_step D ok)\<^sup>*\<^sup>* (with_state p (s1, w1), Some pc1) (p', Some pc') \<and> mainpc p' \<noteq> Exited" by simp
    ultimately show ?thesis by (auto intro: converse_rtranclp_into_rtranclp)
  qed
qed simp

definition demo_turn :: proc where
  "demo_turn = demo_start\<lparr>chan := \<lparr>pending = [], closed = False\<rparr>\<rparr>"

lemma demo_turn_reach: "(fine_step {demo_client} ok)\<^sup>*\<^sup>* (demo_start, None) (demo_turn, Some Fetch)"
proof -
  have "turn_of watch_Added = Some Fetch" by (simp add: turn_of_def)
  moreover have "fine_step {demo_client} ok (demo_start, None) (demo_turn, turn_of watch_Added)"
    unfolding demo_turn_def by (rule fine_step.start_event) (simp_all add: demo_start_def startWatch_def chan_recv_def)
  ultimately show ?thesis by (simp add: r_into_rtranclp)
qed

lemma demo_calls_reach:
  assumes "calls_after demo_client n demo_turn Fetch = (p, pc)"
  shows "(fine_step {demo_client} ok)\<^sup>*\<^sup>* (demo_start, None) (p, Some pc) \<and> mainpc p \<noteq> Exited"
proof -
  have "mainpc demo_turn \<noteq> Exited" by (simp add: demo_turn_def demo_start_def startWatch_def)
  from calls_after_reach [OF this _ assms, of "{demo_client}" ok] demo_turn_reach [of ok] show ?thesis
    by auto
qed

text \<open>After eight calls the copy is about to be renamed, after nine it is published and the turn still runs.\<close>

theorem whole_at_every_call_witness:
  "let x = calls_after demo_client 9 demo_turn Fetch in
   (case snd x of CopyScript b pc bs \<Rightarrow> pc = AtCloseSrc None | _ \<Rightarrow> False) \<and>
   (\<exists>ct m t. fget (os (fst x)) ''/shared/ls'' = Some (File ct m t) \<and> ct \<in> {''one''} \<and> m = 493)"
proof -
  define x where "x = calls_after demo_client 9 demo_turn Fetch"
  have run: "calls_after demo_client 9 demo_turn Fetch = (fst x, snd x)" by (simp add: x_def)
  have n: "plain_name ''ls''" "\<not> tmp_name ''ls''" by (simp add: plain_name_def) code_simp
  have f: "fget (os (fst x)) (''/shared'' @ slash # ''ls'') = Some (File ''one'' 493 1)" unfolding x_def by code_simp
  have pc: "case snd x of CopyScript b pc bs \<Rightarrow> pc = AtCloseSrc None | _ \<Rightarrow> False" unfolding x_def by code_simp
  from demo_calls_reach [OF run] have r: "(fine_step {demo_client} (sources_ok {''one''} demo_config))\<^sup>*\<^sup>*
      (demo_start, None) (fst x, Some (snd x))" by blast
  from whole_at_every_call [OF demo_dirs_apart demo_client_safe demo_sources_ok demo_scripts_whole
      r [unfolded demo_start_def] n] f pc
  show ?thesis unfolding x_def [symmetric] by (simp add: demo_dirs)
qed

theorem sidecar_refines_shared_witness:
  "\<exists>l. shared_step {''one''} l (shared_view demo_config (os (fst (calls_after demo_client 8 demo_turn Fetch))))
     (shared_view demo_config (os (fst (calls_after demo_client 9 demo_turn Fetch))))"
proof -
  define x where "x = calls_after demo_client 8 demo_turn Fetch"
  define y where "y = calls_after demo_client 9 demo_turn Fetch"
  have run: "calls_after demo_client 8 demo_turn Fetch = (fst x, snd x)" by (simp add: x_def)
  from demo_calls_reach [OF run] have r: "(fine_step {demo_client} (sources_ok {''one''} demo_config))\<^sup>*\<^sup>*
      (demo_start, None) (fst x, Some (snd x))" and e: "mainpc (fst x) \<noteq> Exited" by blast+
  have "turn_next demo_client (snd x) (manager (fst x)) (os (fst x)) = Some (snd y, manager (fst y), os (fst y))"
    and y: "fst y = with_state (fst x) (manager (fst y), os (fst y))"
    unfolding x_def y_def by code_simp+
  then have st: "fine_step {demo_client} (sources_ok {''one''} demo_config) (fst x, Some (snd x)) (fst y, Some (snd y))"
    by (subst y) (rule fine_step.call [OF e]; simp)
  have "shared_view demo_config (os (fst x)) ''ls'' = None" "shared_view demo_config (os (fst y)) ''ls'' \<noteq> None"
    unfolding x_def y_def by code_simp+
  then have "shared_view demo_config (os (fst y)) \<noteq> shared_view demo_config (os (fst x))" by metis
  with sidecar_refines_shared [OF demo_dirs_apart demo_client_safe demo_sources_ok demo_scripts_whole
      r [unfolded demo_start_def] st]
  show ?thesis unfolding x_def [symmetric] y_def [symmetric] by blast
qed


end
