(* ===== verification/EventStream.thy ===== *)
theory EventStream
  imports WatchLoop
begin

text \<open>
  What a stream of watch events leaves in the shared directory when no system call fails. The abstract
  specification maps the names of commands to the contents of their scripts; each event of \<open>WatchBehaviorStub\<close>
  (\<open>cmd/sidecar/main.go\<close>) has one meaning on such a map, and the sidecar computes it. In particular the state after
  the last event does not depend on how many events came before, except for commands that the stub no longer
  has: they stay.
\<close>

section \<open>The specification\<close>

definition contents :: "Config \<Rightarrow> world \<Rightarrow> string \<rightharpoonup> string" where
  "contents c w n =
     (if plain_name n \<and> \<not> tmp_name n
      then (case fget w (SharedDir c @ slash # n) of Some (File ct m t) \<Rightarrow> Some ct | _ \<Rightarrow> None)
      else None)"

text \<open>The behaviours of the stub that the API server has when it answers.\<close>

definition stub_of :: "Config \<Rightarrow> 'raw dynclient \<Rightarrow> SBehavior list" where
  "stub_of c dc = (case getBehaviorStub dc (NewSidecarManager c) of Inl err \<Rightarrow> [] | Inr bs \<Rightarrow> sbsBehaviors bs)"

definition spec_sync :: "Config \<Rightarrow> (string \<Rightarrow> node option) \<Rightarrow> SBehavior list \<Rightarrow> (string \<rightharpoonup> string) \<Rightarrow> string \<rightharpoonup> string" where
  "spec_sync c src bs v n =
     (case find (\<lambda>b. command b = n) bs of
        None \<Rightarrow> v n
      | Some b \<Rightarrow> (case src (script_src c b) of Some (File ct m t) \<Rightarrow> Some ct | _ \<Rightarrow> v n))"

definition spec_event ::
    "Config \<Rightarrow> (string \<Rightarrow> node option) \<Rightarrow> 'raw dynclient \<times> watch_event \<Rightarrow> (string \<rightharpoonup> string) \<Rightarrow> string \<rightharpoonup> string" where
  "spec_event c src e v =
     (if snd e = watch_Added \<or> snd e = watch_Modified then spec_sync c src (stub_of c (fst e)) v
      else if snd e = watch_Deleted then Map.empty
      else v)"

definition handle_events ::
    "('raw dynclient \<times> watch_event) list \<Rightarrow> SidecarManager \<times> world \<Rightarrow> SidecarManager \<times> world" where
  "handle_events = fold (\<lambda>(dc, ty). handleEvent dc ty)"

section \<open>What is assumed\<close>

text \<open>
  The API server answers with a stub whose commands are distinct; no file stands where a directory is needed and no
  directory where a script goes; no call fails.
\<close>

definition client_ready :: "Config \<Rightarrow> 'raw dynclient \<Rightarrow> bool" where
  "client_ready c dc \<longleftrightarrow> (case getBehaviorStub dc (NewSidecarManager c) of
     Inl err \<Rightarrow> False
   | Inr bs \<Rightarrow> stub_safe c (sbsBehaviors bs) \<and> distinct (map command (sbsBehaviors bs)))"

definition quiet :: "Config \<Rightarrow> world \<Rightarrow> bool" where
  "quiet c w \<longleftrightarrow> sched w = [] \<and> (\<forall>a \<in> set (ancestors (SharedDir c)). \<not> is_file (fget w a)) \<and>
     (\<forall>n. plain_name n \<longrightarrow> fget w (SharedDir c @ slash # n) \<noteq> Some Dir)"

lemma client_readyE:
  assumes "client_ready c dc" and "config s = c"
  obtains bs where "getBehaviorStub dc s = Inr bs" "stub_of c dc = sbsBehaviors bs" "stub_safe c (sbsBehaviors bs)"
    "stub_ok c (sbsBehaviors bs)" "distinct (map command (sbsBehaviors bs))"
proof -
  have g: "getBehaviorStub dc s = getBehaviorStub dc (NewSidecarManager c)"
    by (rule getBehaviorStub_config) (simp add: NewSidecarManager_def assms(2))
  obtain bs where bs: "getBehaviorStub dc (NewSidecarManager c) = Inr bs"
    using assms(1) by (auto simp: client_ready_def split: sum.splits)
  show thesis
    by (rule that [of bs]) (use assms(1) bs g in \<open>simp_all add: client_ready_def stub_of_def stub_safe_def\<close>)
qed

lemma not_ancestor:
  assumes "abs_dir d" and "a \<in> set (ancestors d)"
  shows "go_Clean a \<noteq> d @ slash # n"
proof -
  have "go_Clean a = a" using ancestors_abs [OF assms] by simp
  moreover have "length a \<le> length d" by (rule ancestors_shorter [OF assms])
  ultimately show ?thesis by auto
qed

lemma quiet_ready:
  assumes "quiet c w" and "stub_ok c bs"
  shows "shared_ready c bs w"
proof -
  have "fget w (script_dst c b) \<noteq> Some Dir \<and> fget w (tmp_of (script_dst c b)) \<noteq> Some Dir" if "b \<in> set bs" for b
  proof -
    note p = stub_paths(1,6) [OF assms(2) that]
    have "tmp_of (script_dst c b) = SharedDir c @ slash # tmp_of (command b)" unfolding p(1) by simp
    with p assms(1) plain_tmp [OF p(2)] show ?thesis by (simp add: quiet_def)
  qed
  with assms(1) show ?thesis by (simp add: quiet_def shared_ready_def)
qed

section \<open>One synchronisation\<close>

lemma sync_nil:
  assumes "getBehaviorStub dc s = Inr bs" and "quiet (config s) w" and "abs_dir (SharedDir (config s))"
    and "SyncAllScripts dc s w = (r, s', w')"
  shows "sched w' = []"
proof -
  obtain w1 where mk: "osMkdirAll (SharedDir (config s)) w = (Inr (), w1)" and nil: "sched w1 = []"
    using osMkdirAll_possible [OF _ assms(3), of w] assms(2) unfolding quiet_def by blast
  have "sched (snd (for_continue (syncBehaviorScript (config s)) (sbsBehaviors bs) w1)) = []"
    by (rule for_continue_inv [where I = "\<lambda>v. sched v = []"]) (simp_all add: sync_script_nil nil)
  with assms(4) mk show ?thesis by (simp add: SyncAllScripts_fetched [OF assms(1)])
qed

lemma sync_makes_dir:
  assumes "getBehaviorStub dc s = Inr bs" and "abs_dir (SharedDir (config s))"
    and "SyncAllScripts dc s w = (r, s', w')"
    and "fget w' x = Some Dir" and "go_Clean x \<notin> set (ancestors (SharedDir (config s)))"
  shows "fget w x = Some Dir"
proof -
  let ?loop = "for_continue (syncBehaviorScript (config s)) (sbsBehaviors bs)"
  obtain m w1 where mk: "osMkdirAll (SharedDir (config s)) w = (m, w1)" by fastforce
  have "fget w1 x = Some Dir"
  proof (cases m)
    case (Inl e)
    with assms(3,4) mk show ?thesis by (simp add: SyncAllScripts_fetched [OF assms(1)])
  next
    case (Inr u)
    have "fget (snd (?loop w1)) x = Some Dir \<longrightarrow> fget w1 x = Some Dir"
      by (rule for_continue_inv [where I = "\<lambda>v. fget v x = Some Dir \<longrightarrow> fget w1 x = Some Dir"])
         (use sync_script_dir [OF prod.collapse [symmetric]] in blast)+
    with Inr assms(3,4) mk show ?thesis by (simp add: SyncAllScripts_fetched [OF assms(1)])
  qed
  with osMkdirAll_other [OF mk assms(2,5)] show ?thesis by simp
qed

text \<open>Paths that are no file of the shared directory are as they were, or a directory on the way to it.\<close>

lemma sync_elsewhere:
  assumes "getBehaviorStub dc s = Inr bs" and "stub_ok (config s) (sbsBehaviors bs)"
    and "SyncAllScripts dc s w = (r, s', w')"
    and "\<And>n. plain_name n \<Longrightarrow> go_Clean x \<noteq> SharedDir (config s) @ slash # n"
  shows "fget w' x = fget w x \<or> fget w x = None \<and> fget w' x = Some Dir \<and>
    go_Clean x \<in> set (ancestors (SharedDir (config s)))"
proof -
  have p: "\<not> same_path (script_dst (config s) b) x \<and> \<not> same_path (tmp_of (script_dst (config s) b)) x"
    if "b \<in> set (sbsBehaviors bs)" for b
    using stub_paths(2,3,6) [OF assms(2) that] plain_tmp assms(4) by metis
  with sync_stub_effect [OF assms(1,2) _ assms(3), of x] show ?thesis by blast
qed

lemma sync_quiet:
  assumes "client_ready (config s) dc" and "quiet (config s) w" and "SyncAllScripts dc s w = (r, s', w')"
  shows "quiet (config s) w'"
proof -
  obtain bs where bs: "getBehaviorStub dc s = Inr bs" "stub_ok (config s) (sbsBehaviors bs)"
    using client_readyE [OF assms(1) refl] by metis
  have d: "abs_dir (SharedDir (config s))" using bs(2) by (simp add: stub_ok_def)
  have "\<not> is_file (fget w' a)" if "a \<in> set (ancestors (SharedDir (config s)))" for a
    using sync_elsewhere [OF bs assms(3), of a] not_ancestor [OF d that] assms(2) that
    by (auto simp: quiet_def)
  moreover have "fget w' (SharedDir (config s) @ slash # n) \<noteq> Some Dir" if n: "plain_name n" for n
  proof
    let ?x = "SharedDir (config s) @ slash # n"
    assume "fget w' ?x = Some Dir"
    moreover have "go_Clean ?x \<notin> set (ancestors (SharedDir (config s)))"
      unfolding clean_abs_snoc [OF d n] using ancestors_shorter [OF d] by fastforce
    ultimately have "fget w ?x = Some Dir" by (rule sync_makes_dir [OF bs(1) d assms(3)])
    with assms(2) n show False by (simp add: quiet_def)
  qed
  ultimately show ?thesis using sync_nil [OF bs(1) assms(2) d assms(3)] by (simp add: quiet_def)
qed

lemma find_command:
  "distinct (map command bs) \<Longrightarrow> find (\<lambda>b. command b = n) bs = Some b \<longleftrightarrow> b \<in> set bs \<and> command b = n"
  by (induction bs) auto

lemma find_no_command: "find (\<lambda>b. command b = n) bs = None \<longleftrightarrow> (\<forall>b \<in> set bs. command b \<noteq> n)"
  by (auto simp: find_None_iff)

lemma sync_contents:
  assumes "client_ready (config s) dc" and "quiet (config s) w" and "SyncAllScripts dc s w = (r, s', w')"
  shows "contents (config s) w' = spec_sync (config s) (fget w) (stub_of (config s) dc) (contents (config s) w)"
proof
  fix n
  let ?c = "config s"
  let ?x = "SharedDir ?c @ slash # n"
  obtain stub where stub: "getBehaviorStub dc s = Inr stub" "stub_of ?c dc = sbsBehaviors stub"
    "stub_safe ?c (sbsBehaviors stub)" "stub_ok ?c (sbsBehaviors stub)" "distinct (map command (sbsBehaviors stub))"
    using client_readyE [OF assms(1) refl] by metis
  let ?bs = "sbsBehaviors stub"
  have d: "abs_dir (SharedDir ?c)" using stub(4) by (simp add: stub_ok_def)
  have keep: "fget w' ?x = fget w ?x" if n: "plain_name n" "\<not> tmp_name n"
    and none: "\<forall>b \<in> set ?bs. command b = n \<longrightarrow> \<not> is_file (fget w (script_src ?c b))"
  proof -
    have cl: "go_Clean ?x = ?x" by (rule clean_abs_snoc [OF d n(1)])
    have "\<forall>b \<in> set ?bs. \<not> same_path (tmp_of (script_dst ?c b)) ?x"
      using stub_paths(3) [OF stub(4)] n(2) tmp_name_tmp unfolding cl by auto
    moreover have "?x \<notin> set (ancestors (SharedDir ?c))" using ancestors_shorter [OF d] by fastforce
    moreover have "\<not> published w (script_src ?c b) nd" if "b \<in> set ?bs" "same_path (script_dst ?c b) ?x" for b nd
    proof -
      have "command b = n" using that stub_paths(2) [OF stub(4) that(1)] unfolding cl by simp
      with none that(1) show ?thesis by (auto simp: published_def)
    qed
    ultimately show ?thesis using sync_stub_effect [OF stub(1,4) _ assms(3), of ?x] unfolding cl by blast
  qed
  show "contents ?c w' n = spec_sync ?c (fget w) (stub_of ?c dc) (contents ?c w) n"
  proof (cases "find (\<lambda>b. command b = n) ?bs")
    case None
    then have "\<forall>b \<in> set ?bs. command b \<noteq> n" by (simp only: find_no_command)
    with keep have "fget w' ?x = fget w ?x" if "plain_name n" "\<not> tmp_name n" using that by blast
    with None show ?thesis
      by (cases "plain_name n \<and> \<not> tmp_name n") (auto simp: contents_def spec_sync_def stub(2))
  next
    case (Some b)
    then have b: "b \<in> set ?bs" "command b = n" using find_command [OF stub(5)] by blast+
    have n: "plain_name n" "\<not> tmp_name n" using stub_paths(6) [OF stub(4) b(1)] stub(3) b by (auto simp: stub_safe_def)
    have dst: "script_dst ?c b = ?x" using stub_paths(1) [OF stub(4) b(1)] b(2) by simp
    show ?thesis
    proof (cases "is_file (fget w (script_src ?c b))")
      case True
      then have "published w (script_src ?c b) (fget w' ?x)"
        using sync_complete [OF stub(1,4,5) quiet_ready [OF assms(2) stub(4)] assms(3)] b(1) dst by auto
      with n Some show ?thesis by (auto simp: contents_def spec_sync_def stub(2) published_def)
    next
      case False
      then have "\<forall>b' \<in> set ?bs. command b' = n \<longrightarrow> \<not> is_file (fget w (script_src ?c b'))"
        using find_command [OF stub(5)] Some by (metis option.inject)
      from keep [OF n this] False n Some show ?thesis
        by (auto simp: contents_def spec_sync_def stub(2) split: option.split node.split)
    qed
  qed
qed

section \<open>One event\<close>

lemma cleanup_nil:
  assumes "sched w = []" and "abs_dir (SharedDir (config s))"
  shows "fget (cleanupScripts s w) x = (if under (SharedDir (config s)) (go_Clean x) then None else fget w x)"
    and "sched (cleanupScripts s w) = []"
  using assms by (simp_all add: cleanupScripts_def osRemoveAll_nil fget_def map_of_filter_key)

lemma cleanup_quiet: "quiet (config s) w \<Longrightarrow> abs_dir (SharedDir (config s)) \<Longrightarrow> quiet (config s) (cleanupScripts s w)"
  by (auto simp: quiet_def cleanup_nil)

lemma cleanup_contents:
  assumes "quiet (config s) w" and d: "abs_dir (SharedDir (config s))"
  shows "contents (config s) (cleanupScripts s w) = Map.empty"
proof
  fix n
  have "sched w = []" using assms(1) by (simp add: quiet_def)
  then have "fget (cleanupScripts s w) (SharedDir (config s) @ slash # n) = None" if "plain_name n"
    using that under_child by (simp add: cleanup_nil [OF _ d] clean_abs_snoc [OF d])
  then show "contents (config s) (cleanupScripts s w) n = None" by (simp add: contents_def)
qed

lemma under_slash: "under d q \<longleftrightarrow> (\<exists>r. q @ [slash] = (d @ [slash]) @ r)"
proof
  assume "\<exists>r. q @ [slash] = (d @ [slash]) @ r"
  then obtain r where r: "q @ [slash] = d @ slash # r" by auto
  show "under d q"
  proof (cases r rule: rev_cases)
    case Nil
    with r show ?thesis by (simp add: under_iff)
  next
    case (snoc r' x)
    with r have "q @ [slash] = (d @ slash # r') @ [x]" by simp
    then have "q = d @ slash # r'" by (simp only: append1_eq_conv)
    then show ?thesis by (simp add: under_iff)
  qed
qed (auto simp: under_iff)

lemma under_both:
  assumes "under a x" and "under b x"
  shows "under a b \<or> under b a"
proof -
  obtain r r' where "(a @ [slash]) @ r = (b @ [slash]) @ r'" using assms unfolding under_slash by metis
  then obtain us where "a @ [slash] = (b @ [slash]) @ us \<or> (a @ [slash]) @ us = b @ [slash]"
    unfolding append_eq_append_conv2 by blast
  then show ?thesis unfolding under_slash by metis
qed

text \<open>The sources are not under the shared directory, so no event changes them.\<close>

lemma event_sources:
  assumes ap: "dirs_apart (config s)" and "client_ready (config s) dc" and "quiet (config s) w"
    and "handleEvent dc ty (s, w) = (s', w')" and x: "under (ScriptMountPath (config s)) (go_Clean x)"
  shows "fget w' x = fget w x"
proof -
  let ?c = "config s"
  have d: "abs_dir (SharedDir ?c)" using ap by (simp add: dirs_apart_def)
  have ne: "go_Clean x \<noteq> SharedDir ?c @ slash # n" if "plain_name n" for n
    using mount_apart(2) [OF ap x] plain_noslash [OF that] by simp
  show ?thesis
  proof (cases rule: handleEvent_cases [of ty dc "(s, w)"])
    case sync
    obtain r s1 w1 where sy: "SyncAllScripts dc s w = (r, s1, w1)" by (metis prod_cases3)
    obtain bs where bs: "getBehaviorStub dc s = Inr bs" "stub_ok ?c (sbsBehaviors bs)"
      using client_readyE [OF assms(2) refl] by metis
    have "w' = w1" using sync(2) assms(4) sy by (simp add: pollTick_def)
    with sync_elsewhere [OF bs sy ne] mount_apart(1) [OF ap x] show ?thesis by auto
  next
    case cleanup
    have "sched w = []" using assms(3) by (simp add: quiet_def)
    moreover have "\<not> under (SharedDir ?c) (go_Clean x)"
      using x ap under_both by (auto simp: dirs_apart_def)
    ultimately show ?thesis using cleanup(2) assms(4) cleanup_nil(1) [OF _ d] by auto
  next
    case ignore
    with assms(4) show ?thesis by simp
  qed
qed

lemma event_contents:
  assumes ap: "dirs_apart (config s)" and "client_ready (config s) dc" and "quiet (config s) w"
    and "handleEvent dc ty (s, w) = (s', w')"
  shows "config s' = config s \<and> quiet (config s) w' \<and>
    contents (config s) w' = spec_event (config s) (fget w) (dc, ty) (contents (config s) w)"
proof -
  let ?c = "config s"
  have d: "abs_dir (SharedDir ?c)" using ap by (simp add: dirs_apart_def)
  show ?thesis
  proof (cases rule: handleEvent_cases [of ty dc "(s, w)"])
    case sync
    obtain r s1 w1 where sy: "SyncAllScripts dc s w = (r, s1, w1)" by (metis prod_cases3)
    have "s' = s1" "w' = w1" using sync(2) assms(4) sy by (simp_all add: pollTick_def)
    with sync_contents [OF assms(2,3) sy] sync_quiet [OF assms(2,3) sy] SyncAllScripts_config [OF sy] sync(1)
    show ?thesis by (simp add: spec_event_def)
  next
    case cleanup
    have "\<not> (ty = watch_Added \<or> ty = watch_Modified)"
      using cleanup(1) by (simp add: watch_Added_def watch_Modified_def watch_Deleted_def)
    with cleanup assms(4) cleanup_quiet [OF assms(3) d] cleanup_contents [OF assms(3) d] show ?thesis
      by (auto simp: spec_event_def)
  next
    case ignore
    with assms(3,4) show ?thesis by (auto simp: spec_event_def)
  qed
qed

section \<open>A stream of events\<close>

lemma find_in: "find P xs = Some x \<Longrightarrow> x \<in> set xs"
  by (induction xs) (auto split: if_splits)

lemma spec_event_cong:
  assumes "client_ready c (fst e)"
    and "\<And>x. under (ScriptMountPath c) (go_Clean x) \<Longrightarrow> src' x = src x"
  shows "spec_event c src' e v = spec_event c src e v"
proof -
  have "config (NewSidecarManager c) = c" by (simp add: NewSidecarManager_def)
  then obtain bs :: SBehaviorStub where bs: "stub_of c (fst e) = sbsBehaviors bs" "stub_safe c (sbsBehaviors bs)"
    by (rule client_readyE [OF assms(1)]) blast
  have "src' (script_src c b) = src (script_src c b)" if "b \<in> set (stub_of c (fst e))" for b
    by (rule assms(2)) (use that bs in \<open>simp add: stub_safe_def\<close>)
  note agree = this
  have "spec_sync c src' (stub_of c (fst e)) v n = spec_sync c src (stub_of c (fst e)) v n" for n
  proof (cases "find (\<lambda>b. command b = n) (stub_of c (fst e))")
    case None
    then show ?thesis by (simp only: spec_sync_def option.case)
  next
    case (Some b)
    from agree [OF find_in [OF Some]] show ?thesis by (simp only: spec_sync_def Some option.case)
  qed
  then have "spec_sync c src' (stub_of c (fst e)) v = spec_sync c src (stub_of c (fst e)) v" by (rule ext)
  then show ?thesis by (simp only: spec_event_def)
qed

lemma events_contents:
  assumes "dirs_apart c" and "\<forall>e \<in> set evs. client_ready c (fst e)" and "config s = c" and "quiet c w"
    and "handle_events evs (s, w) = (s', w')"
    and "\<And>x. under (ScriptMountPath c) (go_Clean x) \<Longrightarrow> fget w x = src x"
  shows "contents c w' = fold (spec_event c src) evs (contents c w)"
  using assms
proof (induction evs arbitrary: s w)
  case Nil
  then show ?case by (simp add: handle_events_def)
next
  case (Cons e evs)
  obtain s1 w1 where h: "handleEvent (fst e) (snd e) (s, w) = (s1, w1)" by fastforce
  have ready: "client_ready c (fst e)" using Cons.prems(2) by simp
  note one = event_contents [of s "fst e" w "snd e" s1 w1, unfolded Cons.prems(3),
      OF Cons.prems(1) ready Cons.prems(4) h]
  have src: "fget w1 x = src x" if "under (ScriptMountPath c) (go_Clean x)" for x
    using event_sources [of s "fst e" w "snd e" s1 w1 x, unfolded Cons.prems(3),
        OF Cons.prems(1) ready Cons.prems(4) h that] Cons.prems(6) [OF that] by simp
  have "handle_events evs (s1, w1) = (s', w')"
    using Cons.prems(5) h by (simp add: handle_events_def case_prod_beta)
  with Cons.IH [of s1 w1] Cons.prems(1,2) one src
  have "contents c w' = fold (spec_event c src) evs (contents c w1)" by simp
  also have "contents c w1 = spec_event c src e (contents c w)"
    using one spec_event_cong [OF ready, of "fget w" src] Cons.prems(6) by simp
  finally show ?case by simp
qed

text \<open>
  C6: the shared directory after any stream of watch events, when no call fails. The sidecar computes the
  specification: an added or modified stub puts the script of each of its behaviours whose source exists in the place
  of its command and leaves every other command as it is, so a command that was taken out of the stub
  stays hijacked; a deleted stub empties the directory; other events change nothing.
\<close>

theorem events_outcome:
  assumes "dirs_apart c" and "\<forall>e \<in> set evs. client_ready c (fst e)" and "config s = c" and "quiet c w"
    and "handle_events evs (s, w) = (s', w')"
  shows "contents c w' = fold (spec_event c (fget w)) evs (contents c w)"
  by (rule events_contents [OF assms refl])

text \<open>What the last event decides, and what it does not.\<close>

lemma spec_last_sync:
  assumes "ty = watch_Added \<or> ty = watch_Modified" and "distinct (map command (stub_of c dc))"
    and "b \<in> set (stub_of c dc)" and "src (script_src c b) = Some (File ct m t)"
  shows "fold (spec_event c src) (evs @ [(dc, ty)]) v (command b) = Some ct"
  using assms find_command [OF assms(2), of "command b" b] by (simp add: spec_event_def spec_sync_def)

lemma spec_last_delete: "fold (spec_event c src) (evs @ [(dc, watch_Deleted)]) v = Map.empty"
  by (simp add: spec_event_def watch_Added_def watch_Modified_def watch_Deleted_def)

lemma spec_removed_command:
  "\<forall>b \<in> set (stub_of c dc). command b \<noteq> n \<Longrightarrow> ty \<noteq> watch_Deleted \<Longrightarrow>
     fold (spec_event c src) (evs @ [(dc, ty)]) v n = fold (spec_event c src) evs v n"
  by (auto simp: spec_event_def spec_sync_def find_no_command [THEN iffD2])

text \<open>The stub has the command \<open>ls\<close> and then has none: the script stays.\<close>

definition empty_client :: "json dynclient" where
  "empty_client = \<lparr>dcGet = (\<lambda>gvr ns n. Inr (JObj [(''spec'', JObj [(''behaviors'', JArr [])])])), dcMarshalJSON = Inr\<rparr>"

theorem events_outcome_witness:
  "let w' = snd (handle_events [(demo_client, watch_Added), (empty_client, watch_Modified)]
       (NewSidecarManager demo_config, demo_files []))
   in stub_of demo_config empty_client = [] \<and> contents demo_config w' ''ls'' = Some ''one''"
proof -
  define evs where "evs = [(demo_client, watch_Added), (empty_client, watch_Modified)]"
  obtain s' w' where run: "handle_events evs (NewSidecarManager demo_config, demo_files []) = (s', w')" by fastforce
  have "client_ready demo_config demo_client" "client_ready demo_config empty_client" by code_simp+
  then have ready: "\<forall>e \<in> set evs. client_ready demo_config (fst e)" by (simp add: evs_def)
  have d: "abs_dir ''/shared''" by code_simp
  have f: "\<forall>e \<in> set (files (demo_files [])). \<not> under ''/shared'' (fst e)" by code_simp
  have "\<forall>a \<in> set (ancestors ''/shared''). \<not> is_file (fget (demo_files []) a)" by code_simp
  moreover have "fget (demo_files []) (''/shared'' @ slash # n) \<noteq> Some Dir" if "plain_name n" for n
    using f fget_in [of "demo_files []" "''/shared'' @ slash # n" Dir] under_child [of "''/shared''" n]
    unfolding clean_abs_snoc [OF d that] by fastforce
  moreover have "sched (demo_files []) = []" by (simp add: demo_files_def)
  ultimately have q: "quiet demo_config (demo_files [])" unfolding quiet_def using demo_dirs by simp
  have c: "config (NewSidecarManager demo_config) = demo_config" by (simp add: NewSidecarManager_def)
  have "fold (spec_event demo_config (fget (demo_files []))) evs (contents demo_config (demo_files [])) ''ls'' = Some ''one''"
    unfolding evs_def by code_simp
  moreover have "contents demo_config w' = fold (spec_event demo_config (fget (demo_files []))) evs
      (contents demo_config (demo_files []))"
    by (rule events_outcome [OF demo_dirs_apart ready c q run])
  moreover have "stub_of demo_config empty_client = []" by code_simp
  ultimately show ?thesis unfolding evs_def [symmetric] run Let_def snd_conv by (simp only: simp_thms)
qed

end
