(* ===== verification/SidecarLife.thy ===== *)
theory SidecarLife
  imports SidecarMain SyncSteps
begin

text \<open>
  The sidecar from the start of \<open>main\<close> in \<open>cmd/sidecar/main.go\<close> to any moment of its life: the log file, the first
  synchronisation and the ready marker (SidecarMain) are followed by the goroutine call by call (SyncSteps). What
  \<open>main\<close> writes before the watch starts keeps the invariant of the shared directory.
\<close>

section \<open>Writes outside the two directories\<close>

text \<open>A file that is written by its clean path and belongs to neither directory.\<close>

definition elsewhere :: "Config \<Rightarrow> string \<Rightarrow> bool" where
  "elsewhere c p \<longleftrightarrow> abs_dir p \<and> \<not> under (SharedDir c) p \<and> \<not> under (ScriptMountPath c) p"

definition same_dirs :: "Config \<Rightarrow> world \<Rightarrow> world \<Rightarrow> bool" where
  "same_dirs c w w' \<longleftrightarrow> (\<forall>x. under (SharedDir c) (go_Clean x) \<or> under (ScriptMountPath c) (go_Clean x) \<longrightarrow>
     fget w' x = fget w x)"

lemma same_dirs_refl: "same_dirs c w w"
  by (simp add: same_dirs_def)

lemma same_dirs_trans: "same_dirs c w1 w2 \<Longrightarrow> same_dirs c w2 w3 \<Longrightarrow> same_dirs c w1 w3"
  by (simp add: same_dirs_def)

lemma same_dirs_keeps:
  assumes "dirs_apart c" and "same_dirs c w w'" and "sources_ok C c w" and "scripts_whole C c w"
  shows "sources_ok C c w'" and "scripts_whole C c w'"
proof -
  have d: "abs_dir (SharedDir c)" using assms(1) by (simp add: dirs_apart_def)
  show "sources_ok C c w'"
    by (rule sources_ok_frame [OF assms(1,3)]) (use assms(2) in \<open>simp add: same_dirs_def\<close>)
  show "scripts_whole C c w'"
    by (rule scripts_whole_cong [OF d _ assms(4)]) (use assms(2) in \<open>simp add: same_dirs_def\<close>)
qed

lemma elsewhere_other:
  assumes "elsewhere c p" and "under (SharedDir c) (go_Clean x) \<or> under (ScriptMountPath c) (go_Clean x)"
  shows "\<not> same_path p x"
  using assms clean_abs_dir [of p] by (auto simp: elsewhere_def)

lemma mkdir_elsewhere:
  assumes "elsewhere c (d @ slash # n)" and "abs_dir d" and "osMkdirAll d w = (r, w')"
  shows "same_dirs c w w'"
  unfolding same_dirs_def
proof (intro allI impI)
  fix x
  assume x: "under (SharedDir c) (go_Clean x) \<or> under (ScriptMountPath c) (go_Clean x)"
  have "go_Clean x \<notin> set (ancestors d)"
  proof
    assume "go_Clean x \<in> set (ancestors d)"
    then have "under (go_Clean x) (d @ slash # n)"
      using ancestor_under [OF assms(2)] under_child under_trans by blast
    with x assms(1) show False unfolding elsewhere_def using under_trans by blast
  qed
  then show "fget w' x = fget w x" by (rule osMkdirAll_other [OF assms(3,2)])
qed

lemma osOpenAppend_off: "\<not> same_path p x \<Longrightarrow> fget (snd (osOpenAppend p md w)) x = fget w x"
  by (cases "osOpenAppend p md w")
     (auto simp: osOpenAppend_def fails_def elim!: with_fault_cases split: option.splits node.splits)

lemma log_elsewhere:
  assumes "getEnv e ''LOG_FILE'' ''/var/log/certgen/certgen.log'' = d @ slash # n" and "abs_dir d" and "plain_name n"
    and "elsewhere c (d @ slash # n)"
  shows "same_dirs c w (setup_log e w)"
proof -
  have dir: "go_Dir (d @ slash # n) = d" using dir_of_snoc [OF assms(2)] plain_noslash [OF assms(3)] by simp
  obtain r w1 where mk: "osMkdirAll d w = (r, w1)" by fastforce
  have 1: "same_dirs c w w1" by (rule mkdir_elsewhere [OF assms(4,2) mk])
  have "same_dirs c w1 (snd (osOpenAppend (d @ slash # n) 420 w1))"
    using osOpenAppend_off elsewhere_other [OF assms(4)] by (simp add: same_dirs_def)
  with 1 have "same_dirs c w (snd (osOpenAppend (d @ slash # n) 420 w1))" by (rule same_dirs_trans)
  with 1 show ?thesis by (simp add: setup_log_def assms(1) dir mk split: sum.split)
qed

text \<open>The state in which the watch starts.\<close>

lemma main_keeps:
  assumes "dirs_apart (loadConfig e)" and "\<forall>dc. createDynamicClient lib e = Inr dc \<longrightarrow> client_safe (loadConfig e) dc"
    and "sources_ok C (loadConfig e) w0" and "scripts_whole C (loadConfig e) w0"
    and "getEnv e ''LOG_FILE'' ''/var/log/certgen/certgen.log'' = d @ slash # n" and "abs_dir d" and "plain_name n"
    and "elsewhere (loadConfig e) (d @ slash # n)" and "elsewhere (loadConfig e) readyMarkerFile"
    and "sidecar_main lib cr e w0 s = (Started m, w, s')"
  shows "config m = loadConfig e" and "sources_ok C (loadConfig e) w" and "scripts_whole C (loadConfig e) w"
proof -
  let ?c = "loadConfig e" and ?w2 = "snd (osStat (ScriptMountPath (loadConfig e)) (setup_log e w0))"
  obtain dc w3 u where dc: "createDynamicClient lib e = Inr dc"
    and sy: "SyncAllScripts dc (NewSidecarManager ?c) ?w2 = (None, m, w3)" and mk: "markReady w3 = (Inr u, w)"
    using assms(10) by (auto simp: sidecar_main_def Let_def split: if_splits prod.splits sum.splits option.splits outcome.splits)
  have conf: "config (NewSidecarManager ?c) = ?c" by (simp add: NewSidecarManager_def)
  with SyncAllScripts_config [OF sy] show "config m = ?c" by simp
  have "same_dirs ?c w0 ?w2"
    using log_elsewhere [OF assms(5-8), of w0] by (simp add: same_dirs_def stat_frame)
  from same_dirs_keeps [OF assms(1) this assms(3,4)]
  have 2: "sources_ok C ?c ?w2" "scripts_whole C ?c ?w2" .
  have safe: "client_safe ?c dc" using assms(2) dc by blast
  have 3: "sources_ok C ?c w3" "scripts_whole C ?c w3"
    by (rule sync_keeps_whole [OF assms(1) 2(1) safe conf sy 2(2)])+
  have "same_dirs ?c w3 w"
    using osWriteFile_off [OF mk [unfolded markReady_def]] elsewhere_other [OF assms(9)] by (simp add: same_dirs_def)
  from same_dirs_keeps [OF assms(1) this 3] show "sources_ok C ?c w" "scripts_whole C ?c w" .
qed

section \<open>Properties\<close>

text \<open>
  C4: from the start of the process to any moment. The sidecar starts on a machine whose shared directory holds
  nothing but whole scripts (an empty one, or what an earlier run left), with its log file and its ready
  marker outside the two directories. Then at every call of its life after the start, through all events,
  failures, edits and signals, what a container can run from the shared directory is a whole executable script.
\<close>

theorem sidecar_life:
  assumes "dirs_apart (loadConfig e)" and "\<forall>dc \<in> D. client_safe (loadConfig e) dc"
    and "\<forall>dc. createDynamicClient lib e = Inr dc \<longrightarrow> dc \<in> D"
    and "sources_ok C (loadConfig e) w0" and "scripts_whole C (loadConfig e) w0"
    and "getEnv e ''LOG_FILE'' ''/var/log/certgen/certgen.log'' = d @ slash # l" and "abs_dir d" and "plain_name l"
    and "elsewhere (loadConfig e) (d @ slash # l)" and "elsewhere (loadConfig e) ''/tmp/dynastub-ready''"
    and "sidecar_main lib cr e w0 s = (Started m, w, s')"
    and "(fine_step D (sources_ok C (loadConfig e)))\<^sup>*\<^sup>* (startWatch watchErr ch m w, None) (p, t)"
    and "plain_name n" and "\<not> tmp_name n"
    and "fget (os p) (SharedDir (loadConfig e) @ slash # n) = Some (File ct md mt)"
  shows "ct \<in> C \<and> md = 493"
proof -
  have safe: "\<forall>dc. createDynamicClient lib e = Inr dc \<longrightarrow> client_safe (loadConfig e) dc" using assms(2,3) by blast
  note start = main_keeps [OF assms(1) safe assms(4-9) assms(10) [folded readyMarkerFile_def] assms(11)]
  have "fine_inv C (loadConfig e) (startWatch watchErr ch m w, None)"
    using start by (simp add: fine_inv_def proc_inv_def startWatch_def)
  with assms(12) have "fine_inv C (loadConfig e) (p, t)"
    by (induction rule: rtranclp_induct) (auto intro: fine_step_inv [OF assms(1,2)])
  with assms(13-15) show ?thesis by (auto simp: fine_inv_def proc_inv_def scripts_whole_def)
qed


subsection \<open>A run\<close>

definition life_config :: Config where
  "life_config = loadConfig Map.empty"

definition life_start :: proc where
  "life_start = startWatch None \<lparr>pending = [watch_Added], closed = False\<rparr> demo_started (snd demo_boot)"

definition life_turn :: proc where
  "life_turn = life_start\<lparr>chan := \<lparr>pending = [], closed = False\<rparr>\<rparr>"

lemma life_dirs: "SharedDir life_config = ''/shared''" "ScriptMountPath life_config = ''/src/scripts''"
  by code_simp+

lemma life_reach:
  assumes "calls_after demo_client n life_turn Fetch = (p, pc)"
  shows "(fine_step {demo_client} ok)\<^sup>*\<^sup>* (life_start, None) (p, Some pc)"
proof -
  have "turn_of watch_Added = Some Fetch" by (simp add: turn_of_def)
  moreover have "fine_step {demo_client} ok (life_start, None) (life_turn, turn_of watch_Added)"
    unfolding life_turn_def by (rule fine_step.start_event) (simp_all add: life_start_def startWatch_def chan_recv_def)
  moreover have "mainpc life_turn \<noteq> Exited" by (simp add: life_turn_def life_start_def startWatch_def)
  ultimately show ?thesis
    using calls_after_reach [OF _ _ assms, of "{demo_client}" ok] by (metis converse_rtranclp_into_rtranclp insertI1)
qed

lemma life_sources: "sources_ok {''one''} life_config (demo_root [])"
  by (rule sources_ok_files) code_simp+

lemma life_whole: "scripts_whole {''one''} life_config (demo_root [])"
  by (rule scripts_whole_files) code_simp+

text \<open>The first synchronisation has published the command; the turn of the first event copies it again.\<close>

theorem sidecar_life_witness:
  "fst demo_boot = Started demo_started \<and>
   (\<exists>ct m t. fget (os (fst (calls_after demo_client 9 life_turn Fetch))) ''/shared/ls'' = Some (File ct m t) \<and>
     ct \<in> {''one''} \<and> m = 493)"
proof -
  define x where "x = calls_after demo_client 9 life_turn Fetch"
  have boot: "fst demo_boot = Started demo_started" by code_simp
  obtain y w s where main: "sidecar_main demo_lib demo_crypto Map.empty (demo_root []) ((Map.empty, Map.empty), 0) = (y, w, s)"
    by (rule prod_cases3)
  have b: "demo_boot = (y, w)" by (simp add: demo_boot_def main)
  then have y: "y = Started demo_started" by (metis fst_conv boot)
  have w: "snd demo_boot = w" using b by (metis snd_conv)
  have run: "calls_after demo_client 9 life_turn Fetch = (fst x, snd x)" by (simp add: x_def)
  have ap: "dirs_apart life_config" by code_simp
  have "client_safe life_config demo_client" by code_simp
  then have safe: "\<forall>dc \<in> {demo_client}. client_safe life_config dc" by simp
  have client: "\<forall>dc. createDynamicClient demo_lib Map.empty = Inr dc \<longrightarrow> dc \<in> {demo_client}"
    by (simp add: createDynamicClient_def kube_config_def demo_lib_def)
  have log: "getEnv Map.empty ''LOG_FILE'' ''/var/log/certgen/certgen.log'' = ''/var/log/certgen'' @ slash # ''certgen.log''"
    by (simp add: getEnv_def os_Getenv_def)
  have d: "abs_dir ''/var/log/certgen''" "plain_name ''certgen.log''"
    "elsewhere life_config (''/var/log/certgen'' @ slash # ''certgen.log'')"
    "elsewhere life_config ''/tmp/dynastub-ready''" by code_simp+
  have n: "plain_name ''ls''" "\<not> tmp_name ''ls''" by (simp add: plain_name_def) code_simp
  have f: "fget (os (fst x)) (''/shared'' @ slash # ''ls'') = Some (File ''one'' 493 1)" unfolding x_def by code_simp
  note reach = life_reach [OF run, of "sources_ok {''one''} life_config", unfolded life_start_def w]
  have "''one'' \<in> {''one''} \<and> (493::nat) = 493"
    by (rule sidecar_life [where e = Map.empty, folded life_config_def, OF ap safe client life_sources life_whole log d main [unfolded y]
        reach n f [folded life_dirs(1)]])
  with f boot show ?thesis unfolding x_def [symmetric] by simp
qed

end
