(* ===== verification/Setup.thy ===== *)
theory Setup
  imports ApiJson Webhook KubeApi
begin

text \<open>
  The registrations: the types of \<open>api/v1\<close> with a scheme (\<open>groupversion_info.go\<close>), the \<open>init\<close> of \<open>cmd/main.go\<close>,
  the controller and the webhook with a manager. Scheme, builder and manager belong to libraries and are
  parameters; the definitions say which calls the code makes, with which arguments and in which order.
\<close>

section \<open>The scheme\<close>

text \<open>The objects that are passed for their types.\<close>

datatype object_type = BehaviorStub_type | BehaviorStubList_type | Pod_type

text \<open>\<open>Must\<close> gives the message of its panic.\<close>

record ('sch, 'b) scheme_lib =
  AddKnownTypes :: "string \<times> string \<Rightarrow> object_type list \<Rightarrow> 'sch \<Rightarrow> 'sch"
  AddToGroupVersion :: "string \<times> string \<Rightarrow> 'sch \<Rightarrow> 'sch"
  NewSchemeBuilder :: "('sch \<Rightarrow> goerror option \<times> 'sch) list \<Rightarrow> 'b"
  builder_AddToScheme :: "'b \<Rightarrow> 'sch \<Rightarrow> goerror option \<times> 'sch"
  clientgo_AddToScheme :: "'sch \<Rightarrow> goerror option \<times> 'sch"
  Must :: "goerror option \<Rightarrow> string option"

definition addKnownTypes :: "('sch, 'b) scheme_lib \<Rightarrow> 'sch \<Rightarrow> goerror option \<times> 'sch" where
  "addKnownTypes lib scheme =
     (let scheme = AddKnownTypes lib SchemeGroupVersion [BehaviorStub_type, BehaviorStubList_type] scheme;
          scheme = AddToGroupVersion lib SchemeGroupVersion scheme
      in (None, scheme))"

definition SchemeBuilder :: "('sch, 'b) scheme_lib \<Rightarrow> 'b" where
  "SchemeBuilder lib = NewSchemeBuilder lib [addKnownTypes lib]"

definition AddToScheme :: "('sch, 'b) scheme_lib \<Rightarrow> 'sch \<Rightarrow> goerror option \<times> 'sch" where
  "AddToScheme lib = builder_AddToScheme lib (SchemeBuilder lib)"

definition main_init :: "('sch, 'b) scheme_lib \<Rightarrow> 'sch \<Rightarrow> unit outcome \<times> 'sch" where
  "main_init lib scheme =
     (case clientgo_AddToScheme lib scheme of (err, scheme) \<Rightarrow>
      case Must lib err of
        Some m \<Rightarrow> (Panic m, scheme)
      | None \<Rightarrow>
      case AddToScheme lib scheme of (err, scheme) \<Rightarrow>
      case Must lib err of
        Some m \<Rightarrow> (Panic m, scheme)
      | None \<Rightarrow> (Returned (), scheme))"

text \<open>
  What the library documents: \<open>AddToScheme\<close> of a builder applies its functions in their order up to the first
  error, and \<open>Must\<close> panics on an error.
\<close>

fun apply_all :: "('sch \<Rightarrow> goerror option \<times> 'sch) list \<Rightarrow> 'sch \<Rightarrow> goerror option \<times> 'sch" where
  "apply_all [] s = (None, s)"
| "apply_all (f # fs) s = (case f s of (Some err, s') \<Rightarrow> (Some err, s') | (None, s') \<Rightarrow> apply_all fs s')"

definition documented :: "('sch, 'b) scheme_lib \<Rightarrow> bool" where
  "documented lib \<longleftrightarrow> (\<forall>fs s. builder_AddToScheme lib (NewSchemeBuilder lib fs) s = apply_all fs s) \<and>
     Must lib None = None \<and> (\<forall>err. Must lib (Some err) \<noteq> None)"

lemma AddToScheme_registers:
  "documented lib \<Longrightarrow> AddToScheme lib s =
     (None, AddToGroupVersion lib SchemeGroupVersion
       (AddKnownTypes lib SchemeGroupVersion [BehaviorStub_type, BehaviorStubList_type] s))"
  by (simp add: AddToScheme_def SchemeBuilder_def documented_def addKnownTypes_def Let_def)

text \<open>
  The process comes up exactly when the types of client-go register; the types of the operator never
  stand in the way, and its stub is then known under the group and version that the sidecar asks for.
\<close>

lemma init_registers:
  assumes "documented lib" and "clientgo_AddToScheme lib s = (r, s1)"
  shows "r = None \<Longrightarrow> main_init lib s = (Returned (), AddToGroupVersion lib SchemeGroupVersion
       (AddKnownTypes lib SchemeGroupVersion [BehaviorStub_type, BehaviorStubList_type] s1))"
    and "r = Some err \<Longrightarrow> \<exists>m. main_init lib s = (Panic m, s1)"
  using assms AddToScheme_registers [OF assms(1), of s1] by (auto simp: main_init_def documented_def split: option.split)

section \<open>The manager\<close>

record ('m, 'bld, 'rec) controller_lib =
  NewControllerManagedBy :: "'m \<Rightarrow> 'bld"
  For :: "object_type \<Rightarrow> 'bld \<Rightarrow> 'bld"
  Owns :: "object_type \<Rightarrow> 'bld \<Rightarrow> 'bld"
  Complete :: "'rec \<Rightarrow> 'bld \<Rightarrow> 'm \<Rightarrow> goerror option \<times> 'm"

definition SetupWithManager ::
    "('m, 'bld, 'rec) controller_lib \<Rightarrow> 'rec \<Rightarrow> 'm \<Rightarrow> goerror option \<times> 'm" where
  "SetupWithManager lib r mgr =
     (let b = NewControllerManagedBy lib mgr;
          b = For lib BehaviorStub_type b;
          b = Owns lib Pod_type b
      in Complete lib r b mgr)"

text \<open>A handler is the client and the state of its mutator. \<open>main\<close> makes the same registration itself.\<close>

record ('m, 'client, 'dec) webhook_lib =
  GetClient :: "'m \<Rightarrow> 'client"
  Register :: "string \<Rightarrow> 'client \<times> 'dec PodMutator \<Rightarrow> 'm \<Rightarrow> 'm"

definition SetupWebhookWithManager ::
    "('m, 'client, 'dec) webhook_lib \<Rightarrow> 'm \<Rightarrow> goerror option \<times> 'm" where
  "SetupWebhookWithManager lib mgr =
     (let mutator = (GetClient lib mgr, \<lparr>Decoder = None\<rparr>);
          mgr = Register lib ''/mutate-v1-pod'' mutator mgr
      in (None, mgr))"

end
