(* ===== verification/StatusView.thy ===== *)
theory StatusView
  imports Controller
begin

text \<open>
  What a reconciliation leaves in the cluster. The controller (\<open>Reconcile\<close> of
  \<open>internal/controller/behavior_stub_controller.go\<close>) works on a client that is a parameter; here the client belongs to an API
  server that keeps stubs and pods and that nobody else writes to in the meantime, and the outcome is stated on the objects
  it keeps.
\<close>

section \<open>The API server\<close>

definition stub_key :: "BehaviorStub \<Rightarrow> string \<times> string" where
  "stub_key bs = (mNamespace (bsMeta bs), mName (bsMeta bs))"

text \<open>
  A read that succeeds gives the object that is kept; a list gives the pods of the namespace that the selector
  matches; an update of the status takes the status from its argument, the rest from the kept object, and gives it a new
  version; a call that fails changes nothing.
\<close>

definition serves ::
    "'k kclient \<Rightarrow> ('k \<Rightarrow> string \<times> string \<Rightarrow> BehaviorStub option) \<Rightarrow> ('k \<Rightarrow> string \<Rightarrow> Pod list) \<Rightarrow> bool" where
  "serves kc stubs pods \<longleftrightarrow>
     (\<forall>req k r k'. kcGetStub kc req k = (r, k') \<longrightarrow> stubs k' = stubs k \<and> pods k' = pods k \<and>
        (case r of Inr bs \<Rightarrow> stubs k req = Some bs \<and> stub_key bs = req
         | Inl e \<Rightarrow> IsNotFound e \<longrightarrow> stubs k req = None)) \<and>
     (\<forall>ns sel k r k'. kcListPods kc ns sel k = (r, k') \<longrightarrow> stubs k' = stubs k \<and> pods k' = pods k \<and>
        (case r of Inr ps \<Rightarrow> ps = filter (\<lambda>p. sel (mLabels (podMeta p))) (pods k ns) | Inl e \<Rightarrow> True)) \<and>
     (\<forall>bs k r k'. kcUpdateStatus kc bs k = (r, k') \<longrightarrow> pods k' = pods k \<and>
        (case r of Some e \<Rightarrow> stubs k' = stubs k
         | None \<Rightarrow> \<exists>old rv. stubs k (stub_key bs) = Some old \<and>
             stubs k' = (stubs k)(stub_key bs \<mapsto>
               old\<lparr>Status := Status bs, bsMeta := (bsMeta old)\<lparr>mResourceVersion := rv\<rparr>\<rparr>)))"

lemma serves_get:
  assumes "serves kc stubs pods" and "kcGetStub kc req k = (r, k')"
  shows "stubs k' = stubs k" and "pods k' = pods k" and "r = Inr bs \<Longrightarrow> stubs k req = Some bs"
    and "r = Inr bs \<Longrightarrow> stub_key bs = req" and "r = Inl e \<Longrightarrow> IsNotFound e \<Longrightarrow> stubs k req = None"
proof -
  have L: "stubs k' = stubs k \<and> pods k' = pods k \<and>
      (case r of Inr bs \<Rightarrow> stubs k req = Some bs \<and> stub_key bs = req | Inl e \<Rightarrow> IsNotFound e \<longrightarrow> stubs k req = None)"
    using assms unfolding serves_def by blast
  then show "stubs k' = stubs k" "pods k' = pods k" by blast+
  from L show "r = Inr bs \<Longrightarrow> stubs k req = Some bs" "r = Inr bs \<Longrightarrow> stub_key bs = req"
    "r = Inl e \<Longrightarrow> IsNotFound e \<Longrightarrow> stubs k req = None" by simp_all
qed

lemma serves_list:
  assumes "serves kc stubs pods" and "kcListPods kc ns sel k = (r, k')"
  shows "stubs k' = stubs k" and "pods k' = pods k"
    and "r = Inr ps \<Longrightarrow> ps = filter (\<lambda>p. sel (mLabels (podMeta p))) (pods k ns)"
proof -
  have L: "stubs k' = stubs k \<and> pods k' = pods k \<and>
      (case r of Inr ps \<Rightarrow> ps = filter (\<lambda>p. sel (mLabels (podMeta p))) (pods k ns) | Inl e \<Rightarrow> True)"
    using assms unfolding serves_def by blast
  then show "stubs k' = stubs k" "pods k' = pods k" by blast+
  from L show "r = Inr ps \<Longrightarrow> ps = filter (\<lambda>p. sel (mLabels (podMeta p))) (pods k ns)" by simp
qed

text \<open>The two ways an object may differ after a write of its status.\<close>

definition only_status :: "BehaviorStub \<Rightarrow> BehaviorStub \<Rightarrow> bool" where
  "only_status bs bs' \<longleftrightarrow> Spec bs' = Spec bs \<and>
     (bsMeta bs')\<lparr>mResourceVersion := mResourceVersion (bsMeta bs)\<rparr> = bsMeta bs"

definition shows_counts :: "string \<Rightarrow> int \<Rightarrow> int \<Rightarrow> BehaviorStub \<Rightarrow> bool" where
  "shows_counts phase injected totals bs \<longleftrightarrow> Phase (Status bs) = phase \<and>
     sint (InjectedPods (Status bs)) = injected \<and> sint (TotalPods (Status bs)) = totals"

lemma update_stored:
  assumes "serves kc stubs pods" and "stubs k req = Some bs" and "stub_key bs = req"
    and "updateStatus kc bs phase injected totals k = (r, k')"
  shows "pods k' = pods k"
    and "case r of Some e \<Rightarrow> stubs k' = stubs k
      | None \<Rightarrow> \<exists>bs'. stubs k' = (stubs k)(req \<mapsto> bs') \<and> only_status bs bs' \<and>
          shows_counts phase (sint injected) (sint totals) bs'"
proof -
  let ?new = "with_status (kcNow kc k) phase injected totals bs"
  have key: "stub_key ?new = req" using assms(3) by (simp add: stub_key_def with_status_def Let_def)
  have st: "Phase (Status ?new) = phase" "InjectedPods (Status ?new) = injected" "TotalPods (Status ?new) = totals"
    by (simp_all add: with_status_def Let_def)
  have L: "pods k' = pods k \<and> (case r of Some e \<Rightarrow> stubs k' = stubs k
       | None \<Rightarrow> \<exists>old rv. stubs k (stub_key ?new) = Some old \<and> stubs k' = (stubs k)(stub_key ?new \<mapsto>
             old\<lparr>Status := Status ?new, bsMeta := (bsMeta old)\<lparr>mResourceVersion := rv\<rparr>\<rparr>))"
    using assms(1,4) unfolding serves_def updateStatus_def by blast
  then show "pods k' = pods k" by blast
  show "case r of Some e \<Rightarrow> stubs k' = stubs k
      | None \<Rightarrow> \<exists>bs'. stubs k' = (stubs k)(req \<mapsto> bs') \<and> only_status bs bs' \<and>
          shows_counts phase (sint injected) (sint totals) bs'"
  proof (cases r)
    case None
    with L assms(2) key obtain rv where
      "stubs k' = (stubs k)(req \<mapsto> bs\<lparr>Status := Status ?new, bsMeta := (bsMeta bs)\<lparr>mResourceVersion := rv\<rparr>\<rparr>)"
      by auto
    moreover have "only_status bs (bs\<lparr>Status := Status ?new, bsMeta := (bsMeta bs)\<lparr>mResourceVersion := rv\<rparr>\<rparr>)"
      by (simp add: only_status_def)
    moreover have "shows_counts phase (sint injected) (sint totals)
        (bs\<lparr>Status := Status ?new, bsMeta := (bsMeta bs)\<lparr>mResourceVersion := rv\<rparr>\<rparr>)"
      by (simp add: shows_counts_def st)
    ultimately show ?thesis unfolding None option.case by blast
  next
    case (Some e)
    with L show ?thesis by simp
  qed
qed

lemma retry_stored:
  assumes "serves kc stubs pods" and "retry_loop n kc req phase injected totals k = (r, k')"
  shows "pods k' = pods k \<and> (case r of Some e \<Rightarrow> stubs k' = stubs k
      | None \<Rightarrow> \<exists>bs bs'. stubs k req = Some bs \<and> stubs k' = (stubs k)(req \<mapsto> bs') \<and> only_status bs bs' \<and>
          shows_counts phase (sint injected) (sint totals) bs')"
  using assms(2)
proof (induction n arbitrary: k)
  case (Suc n)
  obtain g k1 where get: "kcGetStub kc req k = (g, k1)" by fastforce
  note G = serves_get [OF assms(1) get]
  show ?case
  proof (cases g)
    case (Inl err)
    with Suc.prems get G(1,2) show ?thesis by auto
  next
    case (Inr bs)
    note bs = G(3,4) [OF Inr]
    obtain u k2 where up: "updateStatus kc bs phase injected totals k1 = (u, k2)" by fastforce
    have at: "stubs k1 req = Some bs" using bs(1) G(1) by simp
    note U = update_stored [OF assms(1) at bs(2) up]
    show ?thesis
    proof (cases u)
      case None
      with Suc.prems get Inr up have "r = None" "k' = k2" by simp_all
      with U None G(1,2) bs(1) show ?thesis by auto
    next
      case (Some e)
      with U have k2: "stubs k2 = stubs k1" "pods k2 = pods k1" by simp_all
      show ?thesis
      proof (cases "IsConflict e")
        case True
        with Suc.prems get Inr up Some have "retry_loop n kc req phase injected totals k2 = (r, k')" by simp
        from Suc.IH [OF this] show ?thesis unfolding k2 G(1,2) .
      next
        case False
        with Suc.prems get Inr up Some have "r = Some e" "k' = k2" by simp_all
        with k2 G(1,2) show ?thesis by simp
      qed
    qed
  qed
qed auto


section \<open>Properties\<close>

text \<open>
  C15: what a reconciliation leaves in the cluster, on every branch. The pods and all other stubs stay as
  they are. Without an error, a stub that is there has in its status the phase and the counts of exactly the pods of its
  namespace that its selector matches, and nothing but its status and its version has changed; a stub that is gone
  changes nothing. With an error nothing has changed, unless the selector is invalid: then the phase may be Failed.
\<close>

theorem reconcile_outcome:
  assumes "serves kc stubs pods" and "\<forall>ns. length (pods k ns) < 2 ^ 31"
    and "Reconcile kc req k = ((res, err), k')"
  shows "pods k' = pods k \<and> (case err of
      None \<Rightarrow> (case stubs k req of
          None \<Rightarrow> stubs k' = stubs k \<and> RequeueAfter res = 0
        | Some bs \<Rightarrow> \<exists>sel bs'. kcSelector kc (TargetSelector (Spec bs)) = Inr sel \<and>
            stubs k' = (stubs k)(req \<mapsto> bs') \<and> only_status bs bs' \<and>
            (let ps = filter (\<lambda>p. sel (mLabels (podMeta p))) (pods k (fst req))
             in shows_counts (phase_spec ps) (int (length (filter isPodInjected ps))) (int (length ps)) bs') \<and>
            RequeueAfter res = 5)
    | Some e \<Rightarrow> RequeueAfter res = 0 \<and> (stubs k' = stubs k \<or>
        (\<exists>bs bs'. stubs k req = Some bs \<and> kcSelector kc (TargetSelector (Spec bs)) = Inl e \<and>
           stubs k' = (stubs k)(req \<mapsto> bs') \<and> only_status bs bs' \<and> shows_counts ''Failed'' 0 0 bs')))"
proof -
  obtain g k1 where get: "kcGetStub kc req k = (g, k1)" by fastforce
  note G = serves_get [OF assms(1) get]
  show ?thesis
  proof (cases g)
    case (Inl e)
    with assms(3) get G(1,2) G(5) [OF Inl] show ?thesis by (auto simp: Reconcile_def split: if_splits)
  next
    case (Inr bs)
    note bs = G(3,4) [OF Inr]
    then have at: "stubs k1 req = Some bs" using G(1) by simp
    show ?thesis
    proof (cases "kcSelector kc (TargetSelector (Spec bs))")
      case (Inl e)
      obtain u k2 where up: "updateStatus kc bs ''Failed'' 0 0 k1 = (u, k2)" by fastforce
      with assms(3) get Inr Inl have r: "err = Some e" "k' = k2" "RequeueAfter res = 0"
        by (auto simp: Reconcile_def)
      from update_stored [OF assms(1) at bs(2) up] have
        "stubs k2 = stubs k1 \<or> (\<exists>bs'. stubs k2 = (stubs k1)(req \<mapsto> bs') \<and> only_status bs bs' \<and> shows_counts ''Failed'' 0 0 bs')"
        "pods k2 = pods k1" by (auto split: option.splits)
      then show ?thesis unfolding r option.case G(1,2) using bs(1) Inl by (simp add: r(3))
    next
      case sel: (Inr sel)
      let ?ps = "filter (\<lambda>p. sel (mLabels (podMeta p))) (pods k (fst req))"
      obtain l k2 where li: "kcListPods kc (fst req) sel k1 = (l, k2)" by fastforce
      note L = serves_list [OF assms(1) li]
      show ?thesis
      proof (cases l)
        case (Inl e)
        with assms(3) get Inr sel li L(1,2) G(1,2) show ?thesis by (auto simp: Reconcile_def)
      next
        case lr: (Inr ps)
        with L(3) G(2) have ps: "ps = ?ps" by simp
        have small: "length ps < 2 ^ 31" unfolding ps using assms(2) by (meson le_less_trans length_filter_le)
        note ph = phase_of_spec [OF small]
        have ns: "sint (count_injected ps) = int (length (filter isPodInjected ps))"
            "sint (of_nat (length ps) :: int32) = int (length ps)"
          unfolding count_injected_eq
          by (rule sint_of_small [OF le_less_trans [OF length_filter_le small]], rule sint_of_small [OF small])
        obtain u k3 where up: "updateStatusWithRetry kc req (phase_spec ps) (count_injected ps) (of_nat (length ps)) k2 = (u, k3)"
          by fastforce
        with assms(3) get Inr sel li lr have r: "err = u" "k' = k3"
          "RequeueAfter res = (if u = None then 5 else 0)"
          by (auto simp: Reconcile_def Let_def ph split: option.splits)
        from retry_stored [OF assms(1) up [unfolded updateStatusWithRetry_def]] show ?thesis
          unfolding r(1,2) L(1,2) G(1,2) ns ps [symmetric] Let_def
          using bs(1) sel by (cases u) (auto simp: r(3) ps [symmetric] simp del: filter_filter)
      qed
    qed
  qed
qed

text \<open>In a namespace in which the webhook has injected every selected pod, the phase becomes Running.\<close>

lemma injected_pods_run:
  assumes "\<forall>p \<in> set ps. \<exists>q bs. p = injectSidecar q bs" and "ps \<noteq> []"
  shows "phase_spec ps = ''Running''"
proof -
  have "\<forall>p \<in> set ps. isPodInjected p"
  proof
    fix p
    assume "p \<in> set ps"
    with assms(1) obtain q bs where "p = injectSidecar q bs" by blast
    then show "isPodInjected p" by (simp add: isPodInjected_iff inject_fields sidecar_name_def)
  qed
  with assms(2) show ?thesis by (simp add: phase_spec_def)
qed


subsection \<open>A server in memory\<close>

text \<open>The second component counts the updates that are still to fail with a conflict.\<close>

type_synonym mem_cluster = "((string \<times> string \<Rightarrow> BehaviorStub option) \<times> (string \<Rightarrow> Pod list)) \<times> nat"

definition mem_client :: "mem_cluster kclient" where
  "mem_client = \<lparr>kcSelector = (\<lambda>s. Inr (\<lambda>l. \<forall>x \<in> set (MatchLabels s). x \<in> set l)),
     kcGetStub = (\<lambda>req k. (case fst (fst k) req of
        Some bs \<Rightarrow> if stub_key bs = req then Inr bs else Inl (OtherError ''bad key'')
      | None \<Rightarrow> Inl (NotFound ''not found''), k)),
     kcListStubs = (\<lambda>ns k. (Inl (OtherError ''not served''), k)),
     kcListPods = (\<lambda>ns sel k. (Inr (filter (\<lambda>p. sel (mLabels (podMeta p))) (snd (fst k) ns)), k)),
     kcUpdateStatus = (\<lambda>bs k. case snd k of
        Suc n \<Rightarrow> (Some (Conflict ''changed''), (fst k, n))
      | 0 \<Rightarrow> (case fst (fst k) (stub_key bs) of
          None \<Rightarrow> (Some (NotFound ''not found''), k)
        | Some old \<Rightarrow> (None, (((fst (fst k))(stub_key bs \<mapsto>
            old\<lparr>Status := Status bs, bsMeta := (bsMeta old)\<lparr>mResourceVersion := ''2''\<rparr>\<rparr>), snd (fst k)), 0)))),
     kcNow = (\<lambda>k. ''now'')\<rparr>"

lemma mem_serves: "serves mem_client (\<lambda>k. fst (fst k)) (\<lambda>k. snd (fst k))"
  unfolding serves_def mem_client_def
  by (auto split: option.splits nat.splits if_splits)

definition mem_start :: mem_cluster where
  "mem_start = ((\<lambda>key. if key = (''default'', ''bs'') then Some demo_bs else None,
     \<lambda>ns. if ns = ''default'' then [injectSidecar demo_pod demo_bs, injectSidecar demo_pod demo_bs] else []), 2)"

text \<open>Two conflicts, then the update succeeds: both pods have the sidecar.\<close>

theorem reconcile_outcome_witness:
  "\<exists>bs. fst (fst (snd (Reconcile mem_client (''default'', ''bs'') mem_start))) (''default'', ''bs'') = Some bs \<and>
     Phase (Status bs) = ''Running'' \<and> sint (TotalPods (Status bs)) = 2"
proof -
  define out where "out = Reconcile mem_client (''default'', ''bs'') mem_start"
  have none: "snd (fst out) = None" unfolding out_def by code_simp
  then have run: "Reconcile mem_client (''default'', ''bs'') mem_start = ((fst (fst out), None), snd out)"
    by (metis out_def prod.collapse)
  let ?ps = "[injectSidecar demo_pod demo_bs, injectSidecar demo_pod demo_bs]"
  have small: "\<forall>ns. length (snd (fst mem_start) ns) < 2 ^ 31" by (simp add: mem_start_def)
  have bs: "fst (fst mem_start) (''default'', ''bs'') = Some demo_bs" by (simp add: mem_start_def)
  have pods: "snd (fst mem_start) (fst (''default'', ''bs'')) = ?ps" by (simp add: mem_start_def)
  have labels: "MatchLabels (TargetSelector (Spec demo_bs)) = []" by code_simp
  then have sel: "kcSelector mem_client (TargetSelector (Spec demo_bs)) = Inr (\<lambda>l. True)"
    by (simp add: mem_client_def)
  have run2: "phase_spec ?ps = ''Running''" by (rule injected_pods_run) auto
  from reconcile_outcome [OF mem_serves small run] obtain s bs' where
    s: "kcSelector mem_client (TargetSelector (Spec demo_bs)) = Inr s"
    "fst (fst (snd out)) = (fst (fst mem_start))((''default'', ''bs'') \<mapsto> bs')"
    "let ps = filter (\<lambda>p. s (mLabels (podMeta p))) ?ps
     in shows_counts (phase_spec ps) (int (length (filter isPodInjected ps))) (int (length ps)) bs'"
    unfolding option.case bs pods by blast
  have "shows_counts (phase_spec ?ps) (int (length (filter isPodInjected ?ps))) (int (length ?ps)) bs'"
  proof -
    have "s = (\<lambda>l. True)" using s(1) unfolding sel by simp
    then have "filter (\<lambda>p. s (mLabels (podMeta p))) ?ps = ?ps" by simp
    with s(3) show ?thesis unfolding Let_def by (simp only:)
  qed
  then show ?thesis using s(2) unfolding run2 out_def [symmetric] by (auto simp: shows_counts_def)
qed

end
