(* ===== verification/Spec2Isabelle.thy ===== *)
theory Spec2Isabelle
  imports Prelude GoPath GoOS Copier Watcher GoJson Sidecar WatchLoop KubeTypes Webhook Controller
    KubeApi CertGen SidecarMain WebhookCertgen CopySteps GoHeap DeepCopy ApiJson OperatorMain CheckCert CertgenCli
    CopyAll TestUtils SyncSteps EventStream SidecarLife Setup StatusView
begin

text \<open>
  DynaStub replaces commands in the containers of a Kubernetes pod by scripts. A custom resource, the
  \<open>BehaviorStub\<close>, names a selector of pods, a directory with scripts and, per behaviour, the path of a command
  and the script that stands in for it. This development models the Go code that makes this work and proves
  what makes each part correct.

  How the parts interact. The mutating webhook (\<open>internal/webhook\<close>) adds a sidecar container and a shared
  volume to each selected pod and puts the volume first in the PATH of the other containers. The sidecar
  (\<open>cmd/sidecar\<close>) reads its stub from the API server and copies each script under the name of its command
  into the shared volume, at the start and after each event of a watch. The controller (\<open>internal/controller\<close>)
  counts the pods that have a sidecar and writes the status of the stub. The certificate generator
  (\<open>internal/certgen\<close>, run by the sidecar binary, and the separate tool \<open>build/kube-webhook-certgen\<close>) makes the
  certificates of the webhook server, keeps them in a secret and writes the CA certificate into the webhook
  configuration. \<open>internal/sidecar\<close> is a library that polls a directory and copies changed files. The operator
  (\<open>cmd/main.go\<close>) starts webhook server, metrics server and controller; \<open>build/check-cert.go\<close> inspects a
  certificate file.

  The theories.
  \<^item> Prelude: error type, update of the first match, loops that stop at or go on after an error, and the
    interface \<open>keyed_upsert\<close> of an update-or-append on a keyed list (provided by the PATH entry of a container
    in Webhook and the conditions of a status in Controller).
  \<^item> GoPath, GoOS, GoJson: what the code uses of \<open>path/filepath\<close>, \<open>os\<close>, \<open>io\<close> and \<open>encoding/json\<close>. A file
    system is a map from cleaned paths to files and directories with a fault schedule: each system call first
    takes an entry of it and fails when the entry says so, a copy after any number of bytes. A theorem for all
    schedules covers every failure at every point.
  \<^item> Copier: \<open>SidecarManager.atomicCopy\<close> and \<open>ScriptCopier\<close>, and the interface \<open>publisher\<close>: a job that
    succeeds leaves a complete executable copy at its destination, one that fails changes nothing but its
    temporary file. The loops over jobs are treated once in its locale; both copiers, the synchronisation of a
    behaviour and the fallback copy are instances. CopyAll: \<open>ScriptCopier.CopyAll\<close> as a run of such jobs that
    stops at the first error.
  \<^item> CopySteps: the same copy system call by system call, interleaved with other processes that leave its three
    paths alone (\<open>copy_step\<close>), the abstract machine with one step (\<open>publish_step\<close>), the refinement map
    \<open>abs_copy\<close> and the invariant \<open>copy_inv\<close> behind it; run to the end the steps are the functions of Copier.
  \<^item> Watcher: \<open>FileWatcher\<close>; a run is a list of ticks with edits of the sources between them.
  \<^item> Sidecar: \<open>SidecarManager\<close>: configuration, the stub as the sidecar decodes it, \<open>SyncAllScripts\<close> with
    its fallback. WatchLoop: the goroutine that watches, the polling fallback, the signal and the end of \<open>main\<close>
    as an inductive step relation, interleaved with the API server and edits of the script directory. SyncSteps:
    the same goroutine call by call (\<open>turn_next\<close>, \<open>fine_step\<close>), so that other processes, the signal and the exit
    come between any two calls of a turn and inside a copy or a removal; the abstract machine of the shared
    directory (\<open>shared_step\<close>), which it refines. EventStream: the specification of a stream of watch events as a
    fold over the contents of the shared directory. SidecarLife: SidecarMain followed by SyncSteps, from the
    start of the process to any call of its life. SidecarMain: \<open>main\<close> up to the start of the watch, the
    certificate mode, the ready marker.
  \<^item> KubeTypes: the resource and the core objects as records, errors of the API server, the client as a record
    of functions on an abstract cluster state, and the interface \<open>stub_search\<close> of the first stub that selects
    a pod (provided by the webhook and by the controller). Webhook and Controller: the two components. StatusView: what
    a reconciliation leaves on an API server that keeps its objects (\<open>serves\<close>).
  \<^item> KubeApi: secrets, webhook configurations, the object store with its laws (\<open>lawful\<close>) and the interface
    \<open>ensures\<close> of create-or-update. CertGen and WebhookCertgen: the certificate generator and the tool;
    CertgenCli: the command line of the tool. CheckCert: the checker of certificate files, with base64.
  \<^item> ApiJson: the JSON documents of \<open>api/v1\<close> and their decoding by the types of the sidecar.
  \<^item> GoHeap: Go's memory, slices with capacity and \<open>append\<close>, and the interface \<open>deep_copy\<close> with the rules that
    build the deep copy of a structure from those of its fields (pointers, slices, nested structures). DeepCopy:
    the objects of \<open>api/v1\<close> in that memory and their \<open>DeepCopy\<close> functions. The resource has two models: records
    without sharing (KubeTypes), which the webhook and the controller work on, and structures with addresses
    (DeepCopy), where sharing is the question.
  \<^item> TestUtils: the helpers of the end-to-end tests (\<open>test/utils\<close>): the commands they run on a machine that is a
    parameter, the search for resource types in an output, and \<open>UncommentCode\<close>, which edits a file in place.
  \<^item> OperatorMain: \<open>main\<close> of the operator, its TLS option lists as slices in GoHeap's memory, and the sequence of
    its calls (\<open>start_plan\<close>). Setup: the registrations of types with the scheme and of controller and webhook with
    the manager, as calls of a library.

  What the lemmas show. For the copies: all or nothing per file under every failure, progress when nothing
  stands in the way, and from these the state of the shared directory after a synchronisation, after a stream of
  events and in every reachable state of the running sidecar, between any two of its calls. For the webhook: the
  shape of an injected pod and the environment its containers see. For the controller: the phase, the counters
  as 32-bit words, at most three writes of the status, and the object that is kept afterwards, on every branch.
  For the certificates: the contents of the secret and of the configuration, their agreement, and what each exit
  of the certificate mode leaves. For the deep copies: the same content and no shared address. For the operator:
  the order of its start under every failure, and the certificate each of its servers presents, which depends on
  the capacity that the runtime gives a slice. The theorems of this theory join the parts: webhook and sidecar,
  so that a lookup of the command in the injected container finds the script; certificate generator and
  operator, so that the API server can call the webhook.

  Parameters. Code that is not in the repository is an argument: the Kubernetes clients, label selectors, the
  codec of admission requests, cryptography, the clock, the text of a time, the parser of IP addresses, the
  parsers of command lines, PEM and certificates, external programs, controller-runtime, the deep copies of
  library types, and the growth of slices. Where a property relies on the API server, it assumes only that the
  server keeps objects (\<open>lawful\<close>, \<open>serves\<close>) and, for two kinds of objects, that a write of one kind leaves the other
  alone (\<open>keeps_view\<close>); every such property has a witness with a store in memory.

  Bounds. The retry loop of the controller is recursion on the number of attempts left, three as in the code.
  The watch and poll loops do not end by themselves; they are step relations (WatchLoop, SyncSteps) or run over
  a finite list of ticks (Watcher), and properties hold after every prefix. A copy is at most nine system calls,
  its measure \<open>calls_left\<close>; the calls of a turn descend in \<open>turn_order\<close>. The scanner of lines (TestUtils) has
  the limit of 65536 bytes of the library. No fuel is used: the other loops are structural or shorten their
  text.

  Not modelled. Log output, except the creation of the log file; the parsing of flags. A copy reads
  its source as one piece, so a source that is rewritten while it is read is excluded by assumption
  (CopySteps, SyncSteps). Symbolic links, permissions of other users and open files that are renamed
  are outside the file system model.
\<close>

section \<open>The webhook and the sidecar together\<close>

text \<open>The configuration the sidecar reads from the environment the webhook gives its container.\<close>

lemma sidecar_env:
  "env_value (cEnv (sidecarContainer bs)) ''BEHAVIOR_STUB_NAME'' = Some (mName (bsMeta bs))"
  "env_value (cEnv (sidecarContainer bs)) ''BEHAVIOR_STUB_NAMESPACE'' = Some (mNamespace (bsMeta bs))"
  "env_value (cEnv (sidecarContainer bs)) ''SHARED_DIR'' = Some ''/dynastub/bin''"
  "env_value (cEnv (sidecarContainer bs)) ''SCRIPT_MOUNT_PATH'' = Some (MountPath (scriptVolume (Spec bs)))"
  by (simp_all add: sidecarContainer_def env_value_def bin_dir_def Let_def)

lemma sidecar_config:
  "loadConfig (env_value (cEnv (sidecarContainer bs))) =
    \<lparr>BehaviorStubName = mName (bsMeta bs),
     Namespace = (if mNamespace (bsMeta bs) = [] then ''default'' else mNamespace (bsMeta bs)),
     SharedDir = ''/dynastub/bin'',
     ScriptMountPath = (if MountPath (scriptVolume (Spec bs)) = [] then ''/src/scripts''
                        else MountPath (scriptVolume (Spec bs)))\<rparr>"
  by (simp add: loadConfig_def getEnv_def os_Getenv_def sidecar_env Let_def)

text \<open>How a shell finds a command: the first directory of the path that has an executable file of the name.\<close>

fun executable :: "node option \<Rightarrow> bool" where
  "executable (Some (File c m t)) = odd m"
| "executable _ = False"

definition find_in_path :: "world \<Rightarrow> string \<Rightarrow> string \<Rightarrow> string option" where
  "find_in_path w path cmd = find (\<lambda>d. executable (fget w (go_Join [d, cmd]))) (split_char CHR '':'' path)"

lemma find_in_first:
  assumes "CHR '':'' \<notin> set d" and "executable (fget w (go_Join [d, cmd]))"
  shows "find_in_path w (d @ CHR '':'' # rest) cmd = Some d"
  using assms by (simp add: find_in_path_def split_char_append)


section \<open>The certificate generator and the operator together\<close>

text \<open>The name under which the API server calls a webhook that names a service.\<close>

definition service_host :: "ServiceReference \<Rightarrow> string" where
  "service_host sr = srName sr @ ''.'' @ srNamespace sr @ ''.svc''"

lemma generated_hosts: "svc @ ''.'' @ ns @ ''.svc'' \<in> set (cert_hosts svc ns)"
  by (simp add: cert_hosts_def)

lemma plan_registers:
  "RegisterHandler ''/mutate-v1-pod'' \<in> set (start_plan f w m)" "WebhookNewServer w \<in> set (start_plan f w m)"
  "webhookCertPath f \<noteq> '''' \<Longrightarrow>
     CertWatcherNew WebhookCertWatcher (go_Join [webhookCertPath f, webhookCertName f])
       (go_Join [webhookCertPath f, webhookCertKey f]) \<in> set (start_plan f w m) \<and>
     AddWatcher WebhookCertWatcher \<in> set (start_plan f w m)"
  by (auto simp: start_plan_def manager_plan_def Let_def)

text \<open>
  C2: the API server can call the webhook. The certificate mode runs on a cluster without a configuration of
  that name, its secret is mounted at the certificate path of the operator, and the operator gets as far as
  starting its manager. Then the new configuration has one webhook; its path is one that the operator has
  registered; the webhook server presents the certificate that its watcher reads from the two files of
  the secret, and that watcher is part of the manager; the certificate is issued, for the name under which the API server
  calls the service, with the key of the CA certificate that the configuration trusts. The premise on \<open>grow\<close> is
  what OperatorMain needs to keep the two servers apart.
\<close>

theorem admission_chain:
  assumes "\<forall>cf client. kubernetes_NewForConfig lib cf = Inr client \<longrightarrow>
      lawful (ccSecrets client) secrets \<and> lawful (ccWebhooks client) webhooks \<and>
      keeps_view (ccWebhooks client) secrets \<and> keeps_view (ccSecrets client) webhooks"
    and "runCertGenMode lib cr e (k, r) = (Returned None, (k', r'))"
    and "webhooks k ([], cert_webhook e) = None"
    and "operator_main grow oenv f h = (x, cs, h')" and "Start \<in> set cs"
    and "webhookCertPath f \<noteq> ''''" and "webhookCertName f = ''tls.crt''" and "webhookCertKey f = ''tls.key''"
    and "enableHTTP2 f \<or> grow 1 \<le> 1 \<or> metricsCertPath f = ''''"
    and "\<forall>s n b. secrets k' (cert_namespace e, cert_secret e) = Some s \<longrightarrow> data_get (sData s) n = Some b \<longrightarrow>
      mounted (go_Join [webhookCertPath f, n]) = Some b"
  shows "\<exists>wc hook sr p ws crtFile keyFile caKey serverKey ca server caBytes serverBytes s1 s2 s3 s4.
    webhooks k' ([], cert_webhook e) = Some wc \<and> wcWebhooks wc = [hook] \<and>
    ccService (whClientConfig hook) = Some sr \<and> srPath sr = Some p \<and> RegisterHandler p \<in> set cs \<and>
    WebhookNewServer ws \<in> set cs \<and> GetCertificate (server_config h' ws cfg) = Some WebhookCertWatcher \<and>
    CertWatcherNew WebhookCertWatcher crtFile keyFile \<in> set cs \<and> AddWatcher WebhookCertWatcher \<in> set cs \<and>
    createCertificate cr ca ca (publicKey cr caKey) caKey s1 = (Inr caBytes, s2) \<and>
    createCertificate cr server ca (publicKey cr serverKey) caKey s3 = (Inr serverBytes, s4) \<and>
    service_host sr \<in> set (DNSNames server) \<and>
    ccCABundle (whClientConfig hook) = pemEncode cr ''CERTIFICATE'' caBytes \<and>
    mounted crtFile = Some (pemEncode cr ''CERTIFICATE'' serverBytes) \<and>
    mounted keyFile = Some (pemEncode cr ''RSA PRIVATE KEY'' (marshalPKCS1 cr serverKey))"
proof -
  have base: "\<forall>cf client. kubernetes_NewForConfig lib cf = Inr client \<longrightarrow>
      lawful (ccSecrets client) secrets \<and> lawful (ccWebhooks client) webhooks \<and> keeps_view (ccWebhooks client) secrets"
    using assms(1) by blast
  let ?hosts = "cert_hosts (cert_service e) (cert_namespace e)"
  let ?sr = "\<lparr>srName = cert_service e, srNamespace = cert_namespace e, srPath = Some ''/mutate-v1-pod'', srPort = Some 443\<rparr>"
  obtain cf client ca crt key k1 s wc where run: "kubernetes_NewForConfig lib cf = Inr client"
    "GenerateCertificates cr ?hosts r = (Inr (ca, crt, key), r')"
    "want_secret (cert_secret e) ca crt key (secrets k (cert_namespace e, cert_secret e)) = Some s"
    "secrets k' (cert_namespace e, cert_secret e) = Some s"
    "want_webhook (cert_webhook e) (cert_namespace e) (cert_service e) ca (webhooks k1 ([], cert_webhook e)) = Some wc"
    "webhooks k' ([], cert_webhook e) = Some wc"
    and k1: "keeps_view (ccSecrets client) webhooks \<longrightarrow> webhooks k1 = webhooks k"
    by (rule certgen_run [OF base assms(2)])
  have "webhooks k1 ([], cert_webhook e) = None" using k1 assms(1,3) run(1) by metis
  with run(5) have wc: "wc = new_webhook (cert_webhook e) (cert_namespace e) (cert_service e) ca"
    by (simp add: want_webhook_def)
  obtain hook where hook: "wcWebhooks wc = [hook]" "ccService (whClientConfig hook) = Some ?sr"
    "ccCABundle (whClientConfig hook) = ca"
    unfolding wc new_webhook_def by simp
  obtain w m where plan: "servers grow f h = (w, m, h')" "cs = start_plan f w m"
    by (rule started_plan [OF assms(4,5)])
  have pres: "GetCertificate (server_config h' w cfg) = Some WebhookCertWatcher"
    using servers_configs(1) [OF plan(1), of cfg] assms(6,9) by (auto simp: shared_def)
  note calls = plan_registers(1,2) [where f = f and w = w and m = m, folded plan(2)]
    plan_registers(3) [OF assms(6), of w m, folded plan(2)]
  have files: "mounted (go_Join [webhookCertPath f, webhookCertName f]) = Some crt"
    "mounted (go_Join [webhookCertPath f, webhookCertKey f]) = Some key"
    using assms(7,8,10) run(4) want_secret_data(1,2) [OF run(3)] by (simp_all add: tlsCertFile_def tlsKeyFile_def)
  obtain caKey sKey t1 t2 t3 t4 caBytes sBytes s1 s2 s3 s4 where
    gen: "createCertificate cr (ca_template t1 t2) (ca_template t1 t2) (publicKey cr caKey) caKey s1 = (Inr caBytes, s2)"
    "createCertificate cr (server_template ?hosts t3 t4) (ca_template t1 t2) (publicKey cr sKey) caKey s3 = (Inr sBytes, s4)"
    "ca = pemEncode cr ''CERTIFICATE'' caBytes" "crt = pemEncode cr ''CERTIFICATE'' sBytes"
    "key = pemEncode cr ''RSA PRIVATE KEY'' (marshalPKCS1 cr sKey)"
    using generated_from_templates [OF run(2)] by blast
  have host: "service_host ?sr \<in> set (DNSNames (server_template ?hosts t3 t4))"
    using generated_hosts by (simp add: service_host_def server_template_def)
  have path: "srPath ?sr = Some ''/mutate-v1-pod''" by simp
  show ?thesis
    using run(6) hook(1,2) path calls(1,2) pres conjunct1 [OF calls(3)] conjunct2 [OF calls(3)] gen(1,2) host
      hook(3) [unfolded gen(3)] files [unfolded gen(4,5)]
    by blast
qed

section \<open>Witness\<close>

definition pod_config :: Config where
  "pod_config = loadConfig (env_value (cEnv (sidecarContainer demo_bs)))"

definition pod_sync :: "goerror option \<times> SidecarManager \<times> world" where
  "pod_sync = SyncAllScripts demo_client (NewSidecarManager pod_config) (demo_files [])"


definition demo_mount :: "string \<Rightarrow> bytes option" where
  "demo_mount = map_of [(go_Join [''/w'', ''tls.crt''], [1, 0]), (go_Join [''/w'', ''tls.key''], [1]),
     (go_Join [''/w'', ''ca.crt''], [0, 0])]"

lemma demo_mounted:
  assumes "data_get (Some [(''tls.crt'', [1, 0]), (''tls.key'', [1]), (''ca.crt'', [0, 0])]) n = Some b"
  shows "demo_mount (go_Join [''/w'', n]) = Some b"
proof -
  have "list_all (\<lambda>x. demo_mount (go_Join [''/w'', fst x]) = Some (snd x))
      [(''tls.crt'', [1, 0]), (''tls.key'', [1]), (''ca.crt'', [0, 0])]" by code_simp
  moreover have "(n, b) \<in> set [(''tls.crt'', [1, 0]), (''tls.key'', [1]), (''ca.crt'', [0, 0])]"
    using assms unfolding data_get_def option.case by (rule map_of_SomeD)
  ultimately show ?thesis unfolding list_all_iff by (metis fst_conv snd_conv)
qed

theorem admission_chain_witness:
  "let k' = fst (snd (runCertGenMode demo_lib demo_crypto Map.empty ((Map.empty, Map.empty), 0)))
   in \<exists>wc hook p. snd k' ([], ''dynastub-k8s-http-fake-operator-webhook'') = Some wc \<and> wcWebhooks wc = [hook] \<and>
     Option.bind (ccService (whClientConfig hook)) srPath = Some p \<and> RegisterHandler p \<in> set (fst (snd good_run))"
proof -
  define out where "out = runCertGenMode demo_lib demo_crypto Map.empty ((Map.empty, Map.empty), 0)"
  have env: "getEnv Map.empty n d = d" for n d by (simp add: getEnv_def os_Getenv_def)
  have gen: "GenerateCertificates demo_crypto hosts 0 = (Inr ([0, 0], [1, 0], [1]), 2)" for hosts
    by (simp add: GenerateCertificates_def demo_crypto_def Let_def)
  note run_simps = out_def runCertGenMode_def env gen kube_config_def demo_lib_def CreateOrUpdateSecret_def
    CreateOrUpdateWebhookConfiguration_def fst_store_def snd_store_def map_store_def Let_def
  have "fst out = Returned None" by (simp add: run_simps)
  then have run: "runCertGenMode demo_lib demo_crypto Map.empty ((Map.empty, Map.empty), 0) =
      (Returned None, (fst (snd out), snd (snd out)))"
    by (metis out_def prod.collapse)
  have secret: "fst (fst (snd out)) (cert_namespace Map.empty, cert_secret Map.empty) =
      Some (new_secret ''dynastub-webhook-tls'' [0, 0] [1, 0] [1])"
    by (simp add: run_simps)
  have keeps: "keeps_view (snd_store map_store) fst" "keeps_view (fst_store map_store) snd"
    by (simp_all add: keeps_view_def snd_store_def fst_store_def)
  have laws: "\<forall>cf client. kubernetes_NewForConfig demo_lib cf = Inr client \<longrightarrow>
      lawful (ccSecrets client) fst \<and> lawful (ccWebhooks client) snd \<and>
      keeps_view (ccWebhooks client) fst \<and> keeps_view (ccSecrets client) snd"
    by (auto simp: demo_lib_def two_stores_lawful keeps)
  have fresh: "snd (Map.empty, Map.empty) ([], cert_webhook Map.empty) = None" by simp
  have op: "operator_main (\<lambda>n. n) (\<lambda>cs c. None) cert_flags no_memory = (fst good_run, fst (snd good_run), snd (snd good_run))"
    by (simp add: good_run_def)
  have started: "Start \<in> set (fst (snd good_run))"
  proof -
    have "list_ex (\<lambda>c. c = Start) (fst (snd good_run))" by code_simp
    then show ?thesis unfolding list_ex_iff by blast
  qed
  have flags: "webhookCertPath cert_flags = ''/w''" "webhookCertName cert_flags = ''tls.crt''"
    "webhookCertKey cert_flags = ''tls.key''"
    by (simp_all add: cert_flags_def default_flags_def)
  have mounted: "\<forall>s n b. fst (fst (snd out)) (cert_namespace Map.empty, cert_secret Map.empty) = Some s \<longrightarrow>
      data_get (sData s) n = Some b \<longrightarrow> demo_mount (go_Join [webhookCertPath cert_flags, n]) = Some b"
    unfolding secret flags(1)
    by (auto simp: new_secret_def tlsCertFile_def tlsKeyFile_def caCertFile_def intro: demo_mounted)
  have path: "webhookCertPath cert_flags \<noteq> ''''" by (simp add: flags)
  have grow: "enableHTTP2 cert_flags \<or> (\<lambda>n::nat. n) 1 \<le> 1 \<or> metricsCertPath cert_flags = ''''" by simp
  note chain = admission_chain [where mounted = demo_mount and cfg = plain_config and secrets = fst and webhooks = snd,
    OF laws run fresh op started path flags(2,3) grow mounted]
  obtain wc hook sr p where w: "snd (fst (snd out)) ([], cert_webhook Map.empty) = Some wc" "wcWebhooks wc = [hook]"
    "ccService (whClientConfig hook) = Some sr" "srPath sr = Some p" "RegisterHandler p \<in> set (fst (snd good_run))"
    using chain
    by (elim exE conjE) (rule that; assumption)
  have "Option.bind (ccService (whClientConfig hook)) srPath = Some p" by (simp only: w(3,4) Option.bind_lunit)
  with w(1,2,5) show ?thesis unfolding env out_def [symmetric] Let_def by (intro exI conjI)
qed

end
